(* ===== verification/Prelude.thy ===== *)
theory Prelude
  imports Main "HOL-Library.Word" "HOL-Library.Multiset"
begin

text \<open>
  The prelude of the development: the machine types of the C sources, the bit tests and address
  arithmetic they share, the type of an effectful run (a list of observable events and a result)
  with its sequencing operation, and the accounting of acquired and released resources over a list
  of events.  Nothing here models a particular file of the repository.
\<close>

unbundle bit_operations_syntax

named_theorems run_simps \<open>evaluation of sequenced runs\<close>
named_theorems trace_simps \<open>what a list of events acquires and releases\<close>
named_theorems const_simps \<open>values of the macros of a source file\<close>

section \<open>Machine integers\<close>

text \<open>The C types \<^verbatim>\<open>unsigned long\<close> (and \<^verbatim>\<open>u64\<close>, \<^verbatim>\<open>size_t\<close>) of the 64-bit targets, \<^verbatim>\<open>u32\<close> and \<^verbatim>\<open>u8\<close>.\<close>

type_synonym u64 = "64 word"
type_synonym u32 = "32 word"
type_synonym u8 = "8 word"

text \<open>The C expression \<^verbatim>\<open>1UL << n\<close>, and the condition \<^verbatim>\<open>if (v & m)\<close>.\<close>

abbreviation shl1 :: "nat \<Rightarrow> u64" where
  "shl1 n \<equiv> push_bit n 1"

definition has :: "u64 \<Rightarrow> u64 \<Rightarrow> bool" where
  "has v m \<longleftrightarrow> v AND m \<noteq> 0"

lemma has_zero [simp]: "\<not> has v 0" "\<not> has 0 m"
  by (simp_all add: has_def)

lemma has_iff_bit: "has v m \<longleftrightarrow> (\<exists>n. bit v n \<and> bit m n)"
  using bit_imp_le_length [of m] by (fastforce simp: has_def bit_eq_iff bit_simps)

lemma has_shl1: "n < 64 \<Longrightarrow> has v (shl1 n) \<longleftrightarrow> bit v n"
  by (auto simp: has_iff_bit bit_simps)

lemma has_or: "has v (a OR b) \<longleftrightarrow> has v a \<or> has v b"
  by (auto simp: has_iff_bit bit_simps)

lemma has_or_left: "has (a OR b) m \<longleftrightarrow> has a m \<or> has b m"
  by (auto simp: has_iff_bit bit_simps)

lemma has_and_mask:
  assumes "m AND M = m"
  shows "has (v AND M) m \<longleftrightarrow> has v m"
proof -
  have "(v AND M) AND m = v AND (m AND M)"
    by (simp add: ac_simps)
  with assms show ?thesis
    by (simp add: has_def)
qed

lemma and_or_absorb: "a AND (a OR b) = a" "a AND (b OR a) = (a :: u64)"
  by (auto simp: bit_eq_iff bit_simps)

lemma has_shl1_left: "n < 64 \<Longrightarrow> has (shl1 n) v \<longleftrightarrow> bit v n"
  by (auto simp: has_iff_bit bit_simps)

lemma has_one [simp]: "has v 1 \<longleftrightarrow> bit v 0" "has 1 v \<longleftrightarrow> bit v 0"
  using has_shl1 [of 0 v] has_shl1_left [of 0 v] by simp_all

text \<open>Inverting the bits of a mask does not change a test of other bits.\<close>

lemma has_inverted:
  assumes "\<not> has m M"
  shows "has ((v AND NOT M) OR (NOT v AND M)) m \<longleftrightarrow> has v m"
proof -
  have "((v AND NOT M) OR (NOT v AND M)) AND m = v AND m"
    using assms by (auto simp: has_iff_bit bit_eq_iff bit_simps)
  then show ?thesis by (simp add: has_def)
qed

lemma has_self: "v \<noteq> 0 \<Longrightarrow> has v v"
  by (simp add: has_def)

subsection \<open>Address arithmetic\<close>

text \<open>
  The sources compute a physical address as a shifted frame number or-ed with an offset.  The
  lemmas below say that this is a sum when the frame number is aligned, and how much of the frame
  number survives the shift.
\<close>

lemma not_not_mask_and: "v AND NOT (NOT (mask n :: u64)) = take_bit n v"
  by (simp add: take_bit_eq_mask)

lemma unat_take_bit_word: "unat (take_bit n (v :: u64)) = unat v mod 2 ^ n"
  by (simp add: unsigned_take_bit_eq flip: take_bit_eq_mod)

lemma unat_of_nat_u64: "n < 2 ^ 64 \<Longrightarrow> unat (of_nat n :: u64) = n"
  by (simp add: unsigned_of_nat take_bit_nat_eq_self)

lemma take_bit_small: "unat (p :: u64) < 2 ^ n \<Longrightarrow> take_bit n p = p"
  by (simp add: word_unat_eq_iff unat_take_bit_word)

lemma unat_drop_bit_word: "unat (drop_bit n (v :: u64)) = unat v div 2 ^ n"
  using unsigned_less [of v, where 'a = nat]
  by (simp add: unsigned_drop_bit_eq take_bit_nat_eq_self flip: drop_bit_eq_div)

lemma sint_small:
  assumes "unat (w :: u64) < 2 ^ 63"
  shows "sint w = int (unat w)"
proof -
  have "int (unat w) < int (2 ^ 63)"
    using assms by (simp only: of_nat_less_iff)
  then have "uint w < 2 ^ 63" by simp
  moreover have "- (2 ^ 63) \<le> uint w"
    by (rule order_trans [of _ 0]) simp_all
  ultimately have "signed_take_bit 63 (uint w) = uint w"
    by (intro signed_take_bit_int_eq_self)
  then show ?thesis
    by (simp add: sint_uint)
qed

text \<open>A file offset computed as \<^verbatim>\<open>index * 8\<close> is exact for every index below 2^55.\<close>

lemma sint_index_times_8:
  assumes "unat (x :: u64) < 2 ^ 55"
  shows "sint (x * 8) = int (unat x) * 8"
proof -
  have "unat (x * 8) = unat x * 8"
    using assms by (simp add: unat_word_ariths)
  with assms show ?thesis
    using sint_small [of "x * 8"] by simp
qed

lemma unat_push_bit_small:
  fixes p :: u64
  assumes "unat p < 2 ^ (64 - k)" and "k \<le> 64"
  shows "unat (push_bit k p) = unat p * 2 ^ k"
proof -
  have "unat p * 2 ^ k < 2 ^ (64 - k) * 2 ^ k"
    using assms(1) by simp
  also have "\<dots> = (2::nat) ^ 64"
    using assms(2) by (simp flip: power_add)
  finally have small: "unat p * 2 ^ k < (2::nat) ^ 64" .
  have "unat (push_bit k p) = take_bit 64 (unat p * 2 ^ k)"
    by (simp add: unsigned_push_bit_eq flip: push_bit_eq_mult)
  with small show ?thesis
    by (simp add: take_bit_nat_eq_self)
qed

lemma unat_or_disjoint:
  fixes a b :: u64
  assumes "\<And>n. \<not> (bit a n \<and> bit b n)"
  shows "unat (a OR b) = unat a + unat b"
proof -
  have "\<not> (bit (unat a) n \<and> bit (unat b) n)" for n
    using assms [of n] by (auto simp: bit_unsigned_iff)
  then have "unat a + unat b = unat a OR unat b"
    by (intro disjunctive_add_eq_or bit_eqI) (auto simp: bit_simps)
  then show ?thesis
    by (simp add: unsigned_or_eq)
qed

lemma dvd_imp_not_bit:
  fixes m :: nat
  assumes "2 ^ k dvd m" and "i < k"
  shows "\<not> bit m i"
proof -
  from assms(1) have "take_bit k m = 0"
    by (simp add: take_bit_eq_mod)
  then have "bit (take_bit k m) i = False" by simp
  with assms(2) show ?thesis
    by (simp add: bit_take_bit_iff)
qed

lemma frame_offset_disjoint:
  fixes p v :: u64
  assumes "2 ^ (n - k) dvd unat p" and "k \<le> n"
  shows "\<not> (bit (push_bit k p) i \<and> bit (take_bit n v) i)"
proof
  assume *: "bit (push_bit k p) i \<and> bit (take_bit n v) i"
  then have ki: "k \<le> i" and i: "i < n" and b: "bit p (i - k)"
    by (auto simp: bit_simps)
  from ki i assms(2) have "i - k < n - k"
    by simp
  with assms(1) have "\<not> bit (unat p) (i - k)"
    by (rule dvd_imp_not_bit)
  with b show False
    by (simp add: bit_unsigned_iff)
qed

theorem unat_frame_or_offset:
  fixes p v :: u64
  assumes "2 ^ (n - k) dvd unat p" and "k \<le> n" and "unat p < 2 ^ (64 - k)" and "k \<le> 64"
  shows "unat (push_bit k p OR take_bit n v) = unat p * 2 ^ k + unat v mod 2 ^ n"
  using unat_or_disjoint [OF frame_offset_disjoint [OF assms(1,2)]] assms(3,4)
  by (simp add: unat_push_bit_small unat_take_bit_word)

lemma drop_bit_frame_or_offset:
  fixes p v :: u64
  assumes "k \<le> 64"
  shows "drop_bit k (push_bit k p OR take_bit k v) = take_bit (64 - k) p"
  using assms by (auto simp: bit_eq_iff bit_simps)

section \<open>Runs: observable events and a result\<close>

text \<open>
  A function of the program that prints, calls the system or gives up is a run: the events it
  produces, in order, and either the reason it stopped (\<open>Inl\<close>) or the value it returned (\<open>Inr\<close>).
\<close>

type_synonym ('e, 'x, 'a) run = "'e list \<times> ('x + 'a)"

definition ret :: "'a \<Rightarrow> ('e, 'x, 'a) run" where
  "ret a = ([], Inr a)"

definition stop :: "'x \<Rightarrow> ('e, 'x, 'a) run" where
  "stop x = ([], Inl x)"

definition emit :: "'e list \<Rightarrow> ('e, 'x, unit) run" where
  "emit es = (es, Inr ())"

definition bindR :: "('e, 'x, 'a) run \<Rightarrow> ('a \<Rightarrow> ('e, 'x, 'b) run) \<Rightarrow> ('e, 'x, 'b) run" where
  "bindR m f =
     (case snd m of Inl x \<Rightarrow> (fst m, Inl x) | Inr a \<Rightarrow> (fst m @ fst (f a), snd (f a)))"

definition thenR :: "('e, 'x, unit) run \<Rightarrow> ('e, 'x, 'b) run \<Rightarrow> ('e, 'x, 'b) run" where
  "thenR m k = bindR m (\<lambda>_. k)"

lemma bindR_ret [simp]: "bindR (ret a) f = f a"
  by (simp add: bindR_def ret_def)

lemma bindR_stop [simp]: "bindR (stop x) f = stop x"
  by (simp add: bindR_def stop_def)

lemma bindR_Inl [simp]: "bindR (es, Inl x) f = (es, Inl x)"
  by (simp add: bindR_def)

lemma bindR_Inr [simp]: "bindR (es, Inr a) f = (es @ fst (f a), snd (f a))"
  by (simp add: bindR_def)

lemma bindR_assoc: "bindR (bindR m f) g = bindR m (\<lambda>a. bindR (f a) g)"
  by (auto simp: bindR_def split: sum.splits)

lemma bindR_right_unit [simp]: "bindR m ret = m"
  by (cases m) (auto simp: bindR_def ret_def split: sum.splits)

lemma thenR_emit [simp]: "thenR (emit es) k = (es @ fst k, snd k)"
  by (simp add: thenR_def emit_def)

lemma thenR_assoc: "thenR (thenR a b) c = thenR a (thenR b c)"
  by (simp add: thenR_def bindR_assoc)

lemma fst_bindR:
  "fst (bindR m f) = fst m @ (case snd m of Inl x \<Rightarrow> [] | Inr a \<Rightarrow> fst (f a))"
  by (auto simp: bindR_def split: sum.splits)

lemma snd_bindR:
  "snd (bindR m f) = (case snd m of Inl x \<Rightarrow> Inl x | Inr a \<Rightarrow> snd (f a))"
  by (auto simp: bindR_def split: sum.splits)

lemma bindR_eq_Inr:
  "bindR m f = (es, Inr b) \<longleftrightarrow>
     (\<exists>es1 a es2. m = (es1, Inr a) \<and> f a = (es2, Inr b) \<and> es = es1 @ es2)"
  by (cases m; cases "snd m") (auto simp: bindR_def prod_eq_iff)

lemmas run_defs [run_simps] = ret_def stop_def emit_def thenR_def fst_bindR snd_bindR

section \<open>Accounting of resources\<close>

text \<open>
  \<open>delta e r\<close> is what event \<open>e\<close> does to the number of references held on resource \<open>r\<close>: \<open>1\<close>
  acquires one, \<open>-1\<close> releases one.  \<open>net\<close> adds it up over a trace; \<open>never_negative\<close> says that no
  prefix of the trace releases what it does not hold.
\<close>

definition net :: "('e \<Rightarrow> 'r \<Rightarrow> int) \<Rightarrow> 'e list \<Rightarrow> 'r \<Rightarrow> int" where
  "net delta es r = sum_list (map (\<lambda>e. delta e r) es)"

definition balanced :: "('e \<Rightarrow> 'r \<Rightarrow> int) \<Rightarrow> 'e list \<Rightarrow> bool" where
  "balanced delta es \<longleftrightarrow> (\<forall>r. net delta es r = 0)"

definition never_negative :: "('e \<Rightarrow> 'r \<Rightarrow> int) \<Rightarrow> 'e list \<Rightarrow> bool" where
  "never_negative delta es \<longleftrightarrow> (\<forall>r k. 0 \<le> net delta (take k es) r)"

lemma net_Nil [simp]: "net delta [] r = 0"
  by (simp add: net_def)

lemma net_Cons [simp]: "net delta (e # es) r = delta e r + net delta es r"
  by (simp add: net_def)

lemma net_append [simp]: "net delta (es @ fs) r = net delta es r + net delta fs r"
  by (simp add: net_def)

lemma net_concat: "net delta (concat ess) r = (\<Sum>es\<leftarrow>ess. net delta es r)"
  by (induction ess) simp_all

lemma balanced_append: "balanced delta es \<Longrightarrow> balanced delta fs \<Longrightarrow> balanced delta (es @ fs)"
  by (simp add: balanced_def)

text \<open>
  A run \<open>settles\<close> its resources if it has released what it acquired whenever it returns, and
  \<open>settles_always\<close> if it has done so however it ends.
\<close>

definition settles :: "('e \<Rightarrow> 'r \<Rightarrow> int) \<Rightarrow> ('e, 'x, 'a) run \<Rightarrow> bool" where
  "settles delta m \<longleftrightarrow> (\<forall>a. snd m = Inr a \<longrightarrow> balanced delta (fst m))"

definition settles_always :: "('e \<Rightarrow> 'r \<Rightarrow> int) \<Rightarrow> ('e, 'x, 'a) run \<Rightarrow> bool" where
  "settles_always delta m \<longleftrightarrow> balanced delta (fst m)"

named_theorems settles_intros \<open>composition of runs that settle their resources\<close>

lemma settles_bindR [settles_intros]:
  "settles delta m \<Longrightarrow> (\<And>a. settles delta (f a)) \<Longrightarrow> settles delta (bindR m f)"
  by (auto simp: settles_def fst_bindR snd_bindR balanced_append split: sum.splits)

lemma settles_thenR [settles_intros]:
  "settles delta m \<Longrightarrow> settles delta k \<Longrightarrow> settles delta (thenR m k)"
  unfolding thenR_def by (rule settles_bindR)

lemma settles_ret [settles_intros]: "settles delta (ret a)"
  by (simp add: settles_def ret_def balanced_def)

lemma settles_stop [settles_intros]: "settles delta (stop x)"
  by (simp add: settles_def stop_def)

lemma settles_emit [settles_intros]: "balanced delta es \<Longrightarrow> settles delta (emit es)"
  by (simp add: settles_def emit_def)

lemma settles_if [settles_intros]:
  "(b \<Longrightarrow> settles delta m) \<Longrightarrow> (\<not> b \<Longrightarrow> settles delta k) \<Longrightarrow> settles delta (if b then m else k)"
  by simp

named_theorems settles_always_intros \<open>composition of runs that settle their resources however they end\<close>

lemma settles_always_bindR [settles_always_intros]:
  "settles_always delta m \<Longrightarrow> (\<And>a. settles_always delta (f a)) \<Longrightarrow> settles_always delta (bindR m f)"
  by (auto simp: settles_always_def fst_bindR balanced_append split: sum.splits)

lemma settles_always_thenR [settles_always_intros]:
  "settles_always delta m \<Longrightarrow> settles_always delta k \<Longrightarrow> settles_always delta (thenR m k)"
  unfolding thenR_def by (rule settles_always_bindR)

lemma settles_always_emit [settles_always_intros]: "balanced delta es \<Longrightarrow> settles_always delta (emit es)"
  by (simp add: settles_always_def emit_def)

lemma settles_always_end [settles_always_intros]: "settles_always delta (ret a)" "settles_always delta (stop x)"
  by (simp_all add: settles_always_def ret_def stop_def balanced_def)

lemma settles_always_cases [settles_always_intros]:
  "(b \<Longrightarrow> settles_always delta m) \<Longrightarrow> (\<not> b \<Longrightarrow> settles_always delta k) \<Longrightarrow> settles_always delta (if b then m else k)"
  "(y = None \<Longrightarrow> settles_always delta m) \<Longrightarrow> (\<And>a. y = Some a \<Longrightarrow> settles_always delta (f a)) \<Longrightarrow>
     settles_always delta (case y of None \<Rightarrow> m | Some a \<Rightarrow> f a)"
  by (simp_all split: option.split)

lemma balanced_Nil [simp]: "balanced delta []"
  by (simp add: balanced_def)

end
