(* ===== verification/Libc.thy ===== *)
theory Libc
  imports Prelude
begin

text \<open>
  What the sources use of the C library: the conversions of \<^verbatim>\<open>printf\<close> (and of \<^verbatim>\<open>printk\<close>, which has
  the same ones), \<^verbatim>\<open>strtol\<close>, \<^verbatim>\<open>strtoul\<close>, \<^verbatim>\<open>strstr\<close>, and the buffering of standard output that
  decides what a process that calls \<^verbatim>\<open>_exit\<close> has really written.  A C string is the \<open>string\<close> of
  its bytes before the terminating NUL.
\<close>

section \<open>Digits\<close>

fun digits_of :: "nat \<Rightarrow> nat \<Rightarrow> nat list" where
  "digits_of b n = (if b < 2 \<or> n < b then [n] else digits_of b (n div b) @ [n mod b])"

declare digits_of.simps [simp del]

definition digits_val :: "nat \<Rightarrow> nat list \<Rightarrow> nat" where
  "digits_val b ds = foldl (\<lambda>a d. a * b + d) 0 ds"

lemma digits_val_digits_of [simp]: "digits_val b (digits_of b n) = n"
proof (induction b n rule: digits_of.induct)
  case (1 b n)
  show ?case
  proof (cases "b < 2 \<or> n < b")
    case True
    then show ?thesis by (simp add: digits_val_def digits_of.simps [of b n])
  next
    case False
    with 1 show ?thesis by (simp add: digits_val_def digits_of.simps [of b n])
  qed
qed

lemma digits_of_less: "2 \<le> b \<Longrightarrow> d \<in> set (digits_of b n) \<Longrightarrow> d < b"
proof (induction b n rule: digits_of.induct)
  case (1 b n)
  then show ?case
    by (cases "n < b") (auto simp: digits_of.simps [of b n])
qed

lemma digits_of_not_Nil [simp]: "digits_of b n \<noteq> []"
  by (simp add: digits_of.simps [of b n])

lemma length_digits_of_le: "2 \<le> b \<Longrightarrow> n < b ^ k \<Longrightarrow> 0 < k \<Longrightarrow> length (digits_of b n) \<le> k"
proof (induction k arbitrary: n)
  case 0
  then show ?case by simp
next
  case (Suc k)
  show ?case
  proof (cases "n < b")
    case True
    then show ?thesis by (simp add: digits_of.simps [of b n])
  next
    case False
    with Suc.prems have k: "0 < k" by (cases k) auto
    from Suc.prems have "n div b < b ^ k"
      by (simp add: less_mult_imp_div_less mult.commute)
    from Suc.IH [OF Suc.prems(1) this k] False show ?thesis
      by (simp add: digits_of.simps [of b n])
  qed
qed

text \<open>The character of a digit, and the digit of a character as \<^verbatim>\<open>strtoul\<close> reads it.\<close>

definition hexdig :: "nat \<Rightarrow> char" where
  "hexdig d = (if d < 10 then char_of (48 + d) else char_of (87 + d))"

definition digit_of_char :: "char \<Rightarrow> nat option" where
  "digit_of_char c =
     (let n = of_char c :: nat
      in if 48 \<le> n \<and> n \<le> 57 then Some (n - 48)
         else if 97 \<le> n \<and> n \<le> 122 then Some (n - 87)
         else if 65 \<le> n \<and> n \<le> 90 then Some (n - 55)
         else None)"

lemma of_char_hexdig: "d < 16 \<Longrightarrow> of_char (hexdig d) = (if d < 10 then 48 + d else 87 + d)"
  by (auto simp: hexdig_def)

lemma digit_of_hexdig [simp]: "d < 16 \<Longrightarrow> digit_of_char (hexdig d) = Some d"
  by (auto simp: digit_of_char_def of_char_hexdig)

section \<open>The conversions of printf\<close>

definition pad0 :: "nat \<Rightarrow> string \<Rightarrow> string" where
  "pad0 k s = replicate (k - length s) (CHR ''0'') @ s"

definition pad_right :: "nat \<Rightarrow> string \<Rightarrow> string" where
  "pad_right k s = s @ replicate (k - length s) (CHR '' '')"

text \<open>\<^verbatim>\<open>%lx\<close>, \<^verbatim>\<open>%016lx\<close>, \<^verbatim>\<open>%03lx\<close>, \<^verbatim>\<open>%08x\<close>, \<^verbatim>\<open>%u\<close> and \<^verbatim>\<open>%lu\<close>, \<^verbatim>\<open>%d\<close> and \<^verbatim>\<open>%ld\<close>, \<^verbatim>\<open>%-20s\<close>.\<close>

definition fmt_lx :: "u64 \<Rightarrow> string" where
  "fmt_lx w = map hexdig (digits_of 16 (unat w))"

definition fmt_016lx :: "u64 \<Rightarrow> string" where
  "fmt_016lx w = pad0 16 (fmt_lx w)"

definition fmt_03lx :: "u64 \<Rightarrow> string" where
  "fmt_03lx w = pad0 3 (fmt_lx w)"

definition fmt_08x :: "u32 \<Rightarrow> string" where
  "fmt_08x w = pad0 8 (map hexdig (digits_of 16 (unat w)))"

definition fmt_u :: "nat \<Rightarrow> string" where
  "fmt_u n = map hexdig (digits_of 10 n)"

definition fmt_d :: "int \<Rightarrow> string" where
  "fmt_d i = (if i < 0 then CHR ''-'' # fmt_u (nat (- i)) else fmt_u (nat i))"

definition nl :: string where
  "nl = [CHR 0x0A]"

definition quot :: string where
  "quot = [CHR 0x22]"

definition tab :: string where
  "tab = [CHR 0x09]"

lemma length_fmt_u: "n < 10 ^ k \<Longrightarrow> 0 < k \<Longrightarrow> length (fmt_u n) \<le> k"
  unfolding fmt_u_def by (simp add: length_digits_of_le)

lemma length_fmt_lx: "length (fmt_lx w) \<le> 16"
proof -
  have "unat w < 2 ^ 64"
    using unsigned_less [of w, where 'a = nat] by simp
  then have "unat w < 16 ^ 16"
    by simp
  then show ?thesis
    unfolding fmt_lx_def by (simp add: length_digits_of_le)
qed

lemma length_fmt_016lx: "length (fmt_016lx w) = 16"
  using length_fmt_lx [of w] by (simp add: fmt_016lx_def pad0_def)

section \<open>strtol and strtoul\<close>

definition isspace :: "char \<Rightarrow> bool" where
  "isspace c \<longleftrightarrow> (let n = of_char c :: nat in n = 32 \<or> (9 \<le> n \<and> n \<le> 13))"

fun scan_digits :: "nat \<Rightarrow> string \<Rightarrow> nat \<Rightarrow> nat \<times> string" where
  "scan_digits b [] acc = (acc, [])"
| "scan_digits b (c # cs) acc =
     (case digit_of_char c of
        Some d \<Rightarrow> if d < b then scan_digits b cs (acc * b + d) else (acc, c # cs)
      | None \<Rightarrow> (acc, c # cs))"

definition starts_digit :: "nat \<Rightarrow> string \<Rightarrow> bool" where
  "starts_digit b s =
     (case s of [] \<Rightarrow> False
      | c # _ \<Rightarrow> (case digit_of_char c of Some d \<Rightarrow> d < b | None \<Rightarrow> False))"

definition scan_sign :: "string \<Rightarrow> bool \<times> string" where
  "scan_sign s =
     (case s of
        [] \<Rightarrow> (False, s)
      | c # cs \<Rightarrow> if c = CHR ''-'' then (True, cs) else if c = CHR ''+'' then (False, cs) else (False, s))"

text \<open>
  Base 0 reads the base off the prefix; \<^verbatim>\<open>0x\<close> counts as a prefix only before a hexadecimal digit.
\<close>

definition scan_prefix :: "nat \<Rightarrow> string \<Rightarrow> nat \<times> string" where
  "scan_prefix base s =
     (if (base = 0 \<or> base = 16) \<and> length s \<ge> 3 \<and> s ! 0 = CHR ''0'' \<and>
         (s ! 1 = CHR ''x'' \<or> s ! 1 = CHR ''X'') \<and> starts_digit 16 (drop 2 s)
      then (16, drop 2 s)
      else if base = 0
      then (if s \<noteq> [] \<and> s ! 0 = CHR ''0'' then 8 else 10, s)
      else (base, s))"

text \<open>
  \<open>None\<close> when there is nothing to convert; else the sign, the magnitude and the rest of the string,
  which is where \<^verbatim>\<open>*endp\<close> points.
\<close>

definition strto_scan :: "nat \<Rightarrow> string \<Rightarrow> (bool \<times> nat \<times> string) option" where
  "strto_scan base s =
     (let (neg, s1) = scan_sign (dropWhile isspace s);
          (b, s2) = scan_prefix base s1
      in if starts_digit b s2 then (let (v, r) = scan_digits b s2 0 in Some (neg, v, r)) else None)"

record 'v strto =
  st_val :: 'v
  st_end :: string
  st_erange :: bool

definition strtoul :: "nat \<Rightarrow> string \<Rightarrow> u64 strto" where
  "strtoul base s =
     (case strto_scan base s of
        None \<Rightarrow> \<lparr>st_val = 0, st_end = s, st_erange = False\<rparr>
      | Some (neg, v, r) \<Rightarrow>
          if v < 2 ^ 64
          then \<lparr>st_val = (if neg then - of_nat v else of_nat v), st_end = r, st_erange = False\<rparr>
          else \<lparr>st_val = - 1, st_end = r, st_erange = True\<rparr>)"

definition strtol :: "nat \<Rightarrow> string \<Rightarrow> int strto" where
  "strtol base s =
     (case strto_scan base s of
        None \<Rightarrow> \<lparr>st_val = 0, st_end = s, st_erange = False\<rparr>
      | Some (neg, v, r) \<Rightarrow>
          (let i = (if neg then - int v else int v)
           in if i < - (2 ^ 63) then \<lparr>st_val = - (2 ^ 63), st_end = r, st_erange = True\<rparr>
              else if i \<ge> 2 ^ 63 then \<lparr>st_val = 2 ^ 63 - 1, st_end = r, st_erange = True\<rparr>
              else \<lparr>st_val = i, st_end = r, st_erange = False\<rparr>))"

text \<open>A text that does not go on a number: it is empty or starts with no digit.\<close>

definition no_digit :: "string \<Rightarrow> bool" where
  "no_digit r \<longleftrightarrow> (case r of [] \<Rightarrow> True | c # _ \<Rightarrow> digit_of_char c = None)"

lemma no_digit_simps [simp]: "no_digit []" "no_digit (c # cs) \<longleftrightarrow> digit_of_char c = None"
  by (simp_all add: no_digit_def)

lemma scan_digits_hexdigs:
  "\<forall>d \<in> set ds. d < b \<Longrightarrow> b \<le> 16 \<Longrightarrow> no_digit r \<Longrightarrow>
   scan_digits b (map hexdig ds @ r) acc = (foldl (\<lambda>a d. a * b + d) acc ds, r)"
proof (induction ds arbitrary: acc)
  case Nil
  then show ?case by (cases r) auto
qed auto

lemma scan_digits_digits_of:
  assumes "2 \<le> b" and "b \<le> 16" and "no_digit r"
  shows "scan_digits b (map hexdig (digits_of b n) @ r) 0 = (n, r)"
  using scan_digits_hexdigs [of "digits_of b n" b r 0] digits_of_less [OF assms(1)] assms(2,3)
  by (simp flip: digits_val_def)

lemma starts_digit_digits_of:
  assumes "2 \<le> b" and "b \<le> 16"
  shows "starts_digit b (map hexdig (digits_of b n) @ r)"
proof (cases "digits_of b n")
  case Nil
  then show ?thesis by simp
next
  case (Cons d ds)
  then have "d < b"
    using digits_of_less [OF assms(1), of d n] by simp
  with Cons assms(2) show ?thesis
    by (simp add: starts_digit_def)
qed

text \<open>What \<^verbatim>\<open>printf\<close> writes as \<^verbatim>\<open>0x%lx\<close> is read back by \<^verbatim>\<open>strtoul\<close> with base 0.\<close>

lemma strto_scan_0x_rest:
  assumes "no_digit r"
  shows "strto_scan 0 (''0x'' @ fmt_lx w @ r) = Some (False, unat w, r)"
proof -
  have "scan_prefix 0 (''0x'' @ fmt_lx w @ r) = (16, fmt_lx w @ r)"
    using starts_digit_digits_of [of 16 "unat w" r]
    by (cases "digits_of 16 (unat w)") (auto simp: scan_prefix_def fmt_lx_def)
  moreover have "scan_sign (dropWhile isspace (''0x'' @ fmt_lx w @ r)) = (False, ''0x'' @ fmt_lx w @ r)"
    by (simp add: isspace_def scan_sign_def)
  ultimately show ?thesis
    using starts_digit_digits_of [of 16 "unat w" r] scan_digits_digits_of [of 16 r "unat w"] assms
    by (simp add: strto_scan_def fmt_lx_def)
qed

lemma strto_scan_0x: "strto_scan 0 (''0x'' @ fmt_lx w) = Some (False, unat w, [])"
  using strto_scan_0x_rest [of "[]" w] by simp

lemma strtoul_0x_rest:
  assumes "no_digit r"
  shows "strtoul 0 (''0x'' @ fmt_lx w @ r) = \<lparr>st_val = w, st_end = r, st_erange = False\<rparr>"
  using unsigned_less [of w, where 'a = nat] unfolding strtoul_def strto_scan_0x_rest [OF assms] by simp

lemma fmt_lx_chars: "c \<in> set (fmt_lx w) \<Longrightarrow> c \<noteq> CHR '' '' \<and> c \<noteq> CHR '','' \<and> c \<noteq> CHR 0x0A"
proof -
  assume "c \<in> set (fmt_lx w)"
  then obtain d where "c = hexdig d" "d < 16"
    using digits_of_less [of 16 _ "unat w"] by (auto simp: fmt_lx_def)
  then have "(of_char c :: nat) = (if d < 10 then 48 + d else 87 + d)"
    by (simp add: of_char_hexdig)
  then show ?thesis by (auto split: if_splits)
qed

lemma strtoul_0x_fmt_lx:
  "strtoul 0 (''0x'' @ fmt_lx w) = \<lparr>st_val = w, st_end = [], st_erange = False\<rparr>"
  using strtoul_0x_rest [of "[]" w] by simp

lemma strto_scan_fmt_u: "strto_scan 10 (fmt_u n) = Some (False, n, [])"
proof -
  obtain d ds where dd: "digits_of 10 n = d # ds"
    by (cases "digits_of 10 n") auto
  then have d: "d < 10"
    using digits_of_less [of 10 d n] by simp
  then have c: "of_char (hexdig d) = 48 + d"
    by (simp add: of_char_hexdig)
  then have "\<not> isspace (hexdig d)" and "hexdig d \<noteq> CHR ''-''" and "hexdig d \<noteq> CHR ''+''"
    by (auto simp: isspace_def)
  then have "scan_sign (dropWhile isspace (fmt_u n)) = (False, fmt_u n)"
    by (simp add: fmt_u_def dd scan_sign_def)
  then show ?thesis
    using starts_digit_digits_of [of 10 n "[]"] scan_digits_digits_of [of 10 "[]" n]
    by (simp add: strto_scan_def scan_prefix_def fmt_u_def)
qed

text \<open>The end pointer is the string itself exactly when nothing was converted.\<close>

lemma scan_digits_length: "scan_digits b s acc = (v, r) \<Longrightarrow> length r \<le> length s"
  by (induction s arbitrary: acc) (force split: option.splits if_splits)+

lemma scan_sign_length: "scan_sign s = (n, r) \<Longrightarrow> length r \<le> length s"
  by (auto simp: scan_sign_def split: list.splits if_splits)

lemma scan_prefix_length: "scan_prefix b s = (b', r) \<Longrightarrow> length r \<le> length s"
  by (auto simp: scan_prefix_def split: if_splits)

lemma scan_digits_shorter:
  assumes "starts_digit b s" and "scan_digits b s acc = (v, r)"
  shows "length r < length s"
  using assms
  by (cases s) (auto simp: starts_digit_def split: option.splits if_splits dest!: scan_digits_length)

lemma strto_scan_consumes:
  assumes "strto_scan base s = Some (neg, v, r)"
  shows "length r < length s"
proof -
  from assms obtain s1 b s2
    where 1: "scan_sign (dropWhile isspace s) = (neg, s1)" and 2: "scan_prefix base s1 = (b, s2)"
      and 3: "starts_digit b s2" and 4: "scan_digits b s2 0 = (v, r)"
    by (auto simp: strto_scan_def split: prod.splits if_splits)
  have "length (dropWhile isspace s) \<le> length s"
    by (rule length_dropWhile_le)
  with scan_sign_length [OF 1] scan_prefix_length [OF 2] scan_digits_shorter [OF 3 4]
  show ?thesis by simp
qed

lemma strtoul_end_eq: "st_end (strtoul base s) = s \<longleftrightarrow> strto_scan base s = None"
proof (cases "strto_scan base s")
  case (Some x)
  then show ?thesis
    using strto_scan_consumes [of base s]
    by (cases x) (auto simp: strtoul_def)
qed (simp add: strtoul_def)

lemma strtol_end_eq: "st_end (strtol base s) = s \<longleftrightarrow> strto_scan base s = None"
proof (cases "strto_scan base s")
  case (Some x)
  then show ?thesis
    using strto_scan_consumes [of base s]
    by (cases x) (auto simp: strtol_def Let_def)
qed (simp add: strtol_def)

section \<open>strstr\<close>

fun strstr :: "string \<Rightarrow> string \<Rightarrow> string option" where
  "strstr [] pat = (if pat = [] then Some [] else None)"
| "strstr (c # cs) pat = (if take (length pat) (c # cs) = pat then Some (c # cs) else strstr cs pat)"

lemma strstr_None_iff: "strstr s pat = None \<longleftrightarrow> \<not> (\<exists>u v. s = u @ pat @ v)"
proof (induction s)
  case Nil
  then show ?case by auto
next
  case (Cons c cs)
  have "(\<exists>u v. c # cs = u @ pat @ v) \<longleftrightarrow> take (length pat) (c # cs) = pat \<or> (\<exists>u v. cs = u @ pat @ v)"
  proof
    assume "\<exists>u v. c # cs = u @ pat @ v"
    then obtain u v where uv: "c # cs = u @ pat @ v" by blast
    show "take (length pat) (c # cs) = pat \<or> (\<exists>u v. cs = u @ pat @ v)"
    proof (cases u)
      case Nil
      with uv have "take (length pat) (c # cs) = pat" by simp
      then show ?thesis ..
    next
      case (Cons d ds)
      with uv have "cs = ds @ pat @ v" by simp
      then show ?thesis by blast
    qed
  next
    assume "take (length pat) (c # cs) = pat \<or> (\<exists>u v. cs = u @ pat @ v)"
    then show "\<exists>u v. c # cs = u @ pat @ v"
    proof
      assume "take (length pat) (c # cs) = pat"
      then have "c # cs = [] @ pat @ drop (length pat) (c # cs)"
        by (metis append_Nil append_take_drop_id)
      then show ?thesis by blast
    next
      assume "\<exists>u v. cs = u @ pat @ v"
      then obtain u v where "c # cs = (c # u) @ pat @ v" by auto
      then show ?thesis by blast
    qed
  qed
  with Cons.IH show ?case by simp
qed

section \<open>Standard output, and what _exit leaves behind\<close>

text \<open>
  A process either ends through \<^verbatim>\<open>exit\<close> (or a return from \<^verbatim>\<open>main\<close>), which writes out what is
  pending, or through \<^verbatim>\<open>_exit\<close>, which does not.  Standard output on a terminal is line buffered:
  everything up to the last newline has been written.  On a pipe or a file it is fully buffered.
\<close>

datatype uevent = Stdout string | Stderr string | Opened string | Closed string

text \<open>\<open>Undefined\<close>: the C standard says nothing about what happens next (here, a write past a buffer).\<close>

datatype uexit = Exit int | Exit_now int | Undefined string

fun stdout_of :: "uevent list \<Rightarrow> string" where
  "stdout_of [] = []"
| "stdout_of (Stdout s # es) = s @ stdout_of es"
| "stdout_of (_ # es) = stdout_of es"

fun stderr_of :: "uevent list \<Rightarrow> string" where
  "stderr_of [] = []"
| "stderr_of (Stderr s # es) = s @ stderr_of es"
| "stderr_of (_ # es) = stderr_of es"

definition complete_lines :: "string \<Rightarrow> string" where
  "complete_lines s = rev (dropWhile (\<lambda>c. c \<noteq> CHR 0x0A) (rev s))"

definition written :: "bool \<Rightarrow> (uevent, uexit, int) run \<Rightarrow> string" where
  "written tty r =
     (case snd r of
        Inl (Exit_now _) \<Rightarrow> if tty then complete_lines (stdout_of (fst r)) else []
      | _ \<Rightarrow> stdout_of (fst r))"

definition exit_status :: "(uevent, uexit, int) run \<Rightarrow> int option" where
  "exit_status r =
     (case snd r of
        Inl (Exit n) \<Rightarrow> Some n
      | Inl (Exit_now n) \<Rightarrow> Some n
      | Inl (Undefined _) \<Rightarrow> None
      | Inr n \<Rightarrow> Some n)"

lemma stdout_of_append [simp]: "stdout_of (es @ fs) = stdout_of es @ stdout_of fs"
  by (induction es rule: stdout_of.induct) simp_all

lemma stderr_of_append [simp]: "stderr_of (es @ fs) = stderr_of es @ stderr_of fs"
  by (induction es rule: stderr_of.induct) simp_all

lemma complete_lines_nl: "complete_lines (s @ nl) = s @ nl"
  by (simp add: complete_lines_def nl_def)

text \<open>The files a process opens and closes, as resources.\<close>

fun file_delta :: "uevent \<Rightarrow> string \<Rightarrow> int" where
  "file_delta (Opened p) f = (if p = f then 1 else 0)"
| "file_delta (Closed p) f = (if p = f then - 1 else 0)"
| "file_delta _ f = 0"

end
