(* ===== verification/Flag_Tables.thy ===== *)
theory Flag_Tables
  imports Libc
begin

text \<open>
  The shape shared by every flag dump of the repository: a sequence of
  \<^verbatim>\<open>if (v & MASK) print(" NAME");\<close> statements, some with an \<^verbatim>\<open>else print(" OTHER")\<close>.  Such a sequence
  is a table of masks and names, \<open>dump_flags\<close> runs it, and the interface below says what a table has
  to satisfy so that its output can be read back: \<open>read_flags\<close> recovers the tested bits.
\<close>

type_synonym flag_entry = "u64 \<times> string \<times> string"

abbreviation flag :: "u64 \<Rightarrow> string \<Rightarrow> flag_entry" where
  "flag m name \<equiv> (m, name, [])"

definition dump_flags :: "flag_entry list \<Rightarrow> u64 \<Rightarrow> string" where
  "dump_flags tbl v = concat (map (\<lambda>(m, on, off). if has v m then on else off) tbl)"

lemma dump_flags_Nil [simp]: "dump_flags [] v = []"
  by (simp add: dump_flags_def)

lemma dump_flags_Cons [simp]:
  "dump_flags ((m, on, off) # tbl) v = (if has v m then on else off) @ dump_flags tbl v"
  by (simp add: dump_flags_def)

lemma dump_flags_append [simp]: "dump_flags (t1 @ t2) v = dump_flags t1 v @ dump_flags t2 v"
  by (simp add: dump_flags_def)

section \<open>Tags: words that start with a space\<close>

definition tag :: "string \<Rightarrow> bool" where
  "tag s \<longleftrightarrow> 2 \<le> length s \<and> hd s = CHR '' '' \<and> CHR '' '' \<notin> set (tl s)"

function tags :: "string \<Rightarrow> string list" where
  "tags [] = []"
| "tags (c # cs) =
     (c # takeWhile (\<lambda>d. d \<noteq> CHR '' '') cs) # tags (dropWhile (\<lambda>d. d \<noteq> CHR '' '') cs)"
  by pat_completeness auto
termination
  by (relation "measure length") (auto simp: le_imp_less_Suc length_dropWhile_le)

lemma tags_append:
  assumes "tag s" and "rest = [] \<or> hd rest = CHR '' ''"
  shows "tags (s @ rest) = s # tags rest"
proof -
  from assms(1) obtain cs where s: "s = CHR '' '' # cs" and sp: "CHR '' '' \<notin> set cs"
    by (cases s) (auto simp: tag_def)
  have "takeWhile (\<lambda>d. d \<noteq> CHR '' '') (cs @ rest) = cs"
    and "dropWhile (\<lambda>d. d \<noteq> CHR '' '') (cs @ rest) = rest"
    using sp assms(2) by (cases rest; induction cs; auto)+
  with s show ?thesis by simp
qed

lemma tags_append_any:
  "rest = [] \<or> hd rest = CHR '' '' \<Longrightarrow> tags (s @ rest) = tags s @ tags rest"
proof (induction s rule: tags.induct)
  case 1
  then show ?case by simp
next
  case (2 c cs)
  have "takeWhile (\<lambda>d. d \<noteq> CHR '' '') (cs @ rest) = takeWhile (\<lambda>d. d \<noteq> CHR '' '') cs"
    and "dropWhile (\<lambda>d. d \<noteq> CHR '' '') (cs @ rest) = dropWhile (\<lambda>d. d \<noteq> CHR '' '') cs @ rest"
    using "2.prems" by (cases rest; induction cs; auto)+
  with 2 show ?case by simp
qed

lemma concat_tags_starts:
  "\<forall>s \<in> set ss. s = [] \<or> tag s \<Longrightarrow> concat ss = [] \<or> hd (concat ss) = CHR '' ''"
  by (induction ss) (auto simp: tag_def hd_append)

lemma tags_concat:
  "\<forall>s \<in> set ss. s = [] \<or> tag s \<Longrightarrow> tags (concat ss) = filter (\<lambda>s. s \<noteq> []) ss"
proof (induction ss)
  case Nil
  then show ?case by simp
next
  case (Cons s ss)
  then show ?case
    using tags_append [of s "concat ss"] concat_tags_starts [of ss]
    by (cases "s = []") (auto simp: tag_def)
qed

section \<open>The interface of a flag table\<close>

fun entry_names :: "flag_entry \<Rightarrow> string list" where
  "entry_names (m, on, off) = (if off = [] then [on] else [on, off])"

definition wf_flag_table :: "flag_entry list \<Rightarrow> bool" where
  "wf_flag_table tbl \<longleftrightarrow>
     list_all tag (concat (map entry_names tbl)) \<and> distinct (concat (map entry_names tbl))"

definition read_flags :: "flag_entry list \<Rightarrow> string \<Rightarrow> u64" where
  "read_flags tbl s =
     foldr (\<lambda>(m, on, off) acc. if List.member (tags s) on then m OR acc else acc) tbl 0"

definition table_mask :: "flag_entry list \<Rightarrow> u64" where
  "table_mask tbl = foldr (\<lambda>(m, on, off) acc. m OR acc) tbl 0"

lemma table_mask_append [simp]: "table_mask (t1 @ t2) = table_mask t1 OR table_mask t2"
  by (induction t1) (auto simp: table_mask_def or.assoc)

lemma table_mask_Nil [simp]: "table_mask [] = 0"
  by (simp add: table_mask_def)

text \<open>Some flag of the table is set exactly when the value meets the union of the masks.\<close>

lemma has_table_mask: "has v (table_mask tbl) \<longleftrightarrow> (\<exists>(m, on, off) \<in> set tbl. has v m)"
  by (induction tbl) (auto simp: table_mask_def has_or)

lemma read_flags_cong:
  "(\<And>m on off. (m, on, off) \<in> set tbl \<Longrightarrow> on \<in> set (tags s) \<longleftrightarrow> on \<in> set (tags s')) \<Longrightarrow>
   read_flags tbl s = read_flags tbl s'"
  unfolding read_flags_def by (intro foldr_cong) auto

lemma dump_flags_eq_Nil:
  assumes "\<forall>(m, on, off) \<in> set tbl. on \<noteq> [] \<and> off = []"
  shows "dump_flags tbl v = [] \<longleftrightarrow> \<not> has v (table_mask tbl)"
  using assms by (induction tbl) (auto simp: has_table_mask)

locale flag_table =
  fixes tbl :: "flag_entry list"
  assumes wf: "wf_flag_table tbl"
begin

lemma entry_tags:
  assumes "(m, on, off) \<in> set tbl"
  shows "tag on" and "off = [] \<or> tag off"
proof -
  have "list_all tag (entry_names (m, on, off))"
    using assms wf by (auto simp: wf_flag_table_def list_all_iff simp del: entry_names.simps)
  then show "tag on" and "off = [] \<or> tag off"
    by (auto split: if_splits)
qed

lemma names_distinct: "distinct (concat (map entry_names tbl))"
  using wf by (simp add: wf_flag_table_def)

lemma tags_dump:
  "tags (dump_flags tbl v) =
     filter (\<lambda>s. s \<noteq> []) (map (\<lambda>(m, on, off). if has v m then on else off) tbl)"
  unfolding dump_flags_def using entry_tags
  by (intro tags_concat) (fastforce split: if_splits)

lemma dump_starts: "dump_flags tbl v = [] \<or> hd (dump_flags tbl v) = CHR '' ''"
  unfolding dump_flags_def using entry_tags
  by (intro concat_tags_starts) (fastforce split: if_splits)

lemma name_unique:
  assumes "(m, on, off) \<in> set tbl" and "(m', on', off') \<in> set tbl"
  shows "on' = on \<Longrightarrow> m' = m \<and> off' = off" and "off' \<noteq> on"
proof -
  obtain xs ys where tbl: "tbl = xs @ (m, on, off) # ys"
    using assms(1) by (auto simp: in_set_conv_decomp)
  have on: "on \<noteq> []"
    using entry_tags(1) [OF assms(1)] by (auto simp: tag_def)
  have out: "on \<notin> set (entry_names e)" if "e \<in> set xs \<union> set ys" for e
    using names_distinct that by (auto simp: tbl)
  have own: "off \<noteq> on"
    using names_distinct on by (auto simp: tbl)
  have "(m', on', off') = (m, on, off) \<or> (m', on', off') \<in> set xs \<union> set ys"
    using assms(2) by (auto simp: tbl)
  then have "(on' = on \<longrightarrow> m' = m \<and> off' = off) \<and> off' \<noteq> on"
  proof
    assume "(m', on', off') \<in> set xs \<union> set ys"
    from out [OF this] on show ?thesis by (auto split: if_splits)
  qed (use own in simp)
  then show "on' = on \<Longrightarrow> m' = m \<and> off' = off" and "off' \<noteq> on"
    by simp_all
qed

lemma name_printed_iff:
  assumes "(m, on, off) \<in> set tbl"
  shows "on \<in> set (tags (dump_flags tbl v)) \<longleftrightarrow> has v m"
proof
  assume "on \<in> set (tags (dump_flags tbl v))"
  then obtain m' on' off' where e: "(m', on', off') \<in> set tbl"
    and eq: "on = (if has v m' then on' else off')"
    by (auto simp: tags_dump)
  show "has v m"
  proof (cases "has v m'")
    case True
    with eq name_unique(1) [OF assms e] show ?thesis by simp
  next
    case False
    with eq name_unique(2) [OF assms e] show ?thesis by simp
  qed
next
  assume "has v m"
  with assms entry_tags(1) [OF assms] show "on \<in> set (tags (dump_flags tbl v))"
    by (force simp: tags_dump tag_def)
qed

text \<open>Two values print the same exactly when every test of the table answers the same.\<close>

lemma dump_flags_eq_iff:
  "dump_flags tbl v = dump_flags tbl w \<longleftrightarrow> (\<forall>(m, on, off) \<in> set tbl. has v m \<longleftrightarrow> has w m)"
proof
  assume eq: "dump_flags tbl v = dump_flags tbl w"
  show "\<forall>(m, on, off) \<in> set tbl. has v m \<longleftrightarrow> has w m"
  proof clarify
    fix m on off
    assume "(m, on, off) \<in> set tbl"
    with name_printed_iff [of m on off v] name_printed_iff [of m on off w] eq
    show "has v m \<longleftrightarrow> has w m" by simp
  qed
next
  assume "\<forall>(m, on, off) \<in> set tbl. has v m \<longleftrightarrow> has w m"
  then have "map (\<lambda>(m, on, off). if has v m then on else off) tbl =
    map (\<lambda>(m, on, off). if has w m then on else off) tbl"
    by (intro map_cong) auto
  then show "dump_flags tbl v = dump_flags tbl w"
    by (simp only: dump_flags_def)
qed

end

text \<open>A table whose masks are single bits is read back completely.\<close>

definition single_bit :: "u64 \<Rightarrow> bool" where
  "single_bit m \<longleftrightarrow> list_ex (\<lambda>n. m = shl1 n) [0..<64]"

lemma single_bit_shl1: "n < 64 \<Longrightarrow> single_bit (shl1 n)"
  by (auto simp: single_bit_def list_ex_iff)

lemma single_bit_small [simp]: "single_bit 1" "single_bit 2"
  using single_bit_shl1 [of 0] single_bit_shl1 [of 1] by simp_all

lemma single_bit_and:
  assumes "single_bit m"
  shows "v AND m = (if has v m then m else 0)"
proof -
  from assms obtain n where n: "m = shl1 n" "n < 64"
    by (auto simp: single_bit_def list_ex_iff)
  have "v AND shl1 n = (if bit v n then shl1 n else 0)"
    by (rule bit_word_eqI) (auto simp: bit_simps)
  with n show ?thesis
    by (simp add: has_shl1 del: push_bit_of_1)
qed

text \<open>The union of the masks of the names found, when a name is found exactly for a set flag.\<close>

lemma read_flags_Nil [simp]: "read_flags [] s = 0"
  by (simp add: read_flags_def)

lemma read_flags_Cons:
  "read_flags ((m, on, off) # tbl) s = (if on \<in> set (tags s) then m else 0) OR read_flags tbl s"
  by (simp add: read_flags_def)

lemma read_flags_append: "read_flags (t1 @ t2) s = read_flags t1 s OR read_flags t2 s"
  by (induction t1) (auto simp: read_flags_Cons or.assoc)

lemma table_mask_Cons: "table_mask ((m, on, off) # tbl) = m OR table_mask tbl"
  by (simp add: table_mask_def)

lemma read_flags_eqI:
  assumes "list_all (\<lambda>(m, on, off). single_bit m \<and> (on \<in> set (tags s) \<longleftrightarrow> has v m)) tbl"
  shows "read_flags tbl s = v AND table_mask tbl"
  using assms
proof (induction tbl)
  case (Cons e tbl)
  then show ?case
    by (cases e) (simp add: read_flags_Cons table_mask_Cons single_bit_and bit.conj_disj_distrib)
qed simp

locale flag_bits = flag_table +
  assumes bits: "list_all (\<lambda>(m, on, off). single_bit m) tbl"
begin

lemma read_dump: "read_flags tbl (dump_flags tbl v) = v AND table_mask tbl"
  using bits name_printed_iff [of _ _ _ v] by (intro read_flags_eqI) (auto simp: list_all_iff)

end

lemmas wf_table_simps = wf_flag_table_def tag_def

end
