(* ===== verification/Pageinfo.thy ===== *)
theory Pageinfo
  imports Flag_Tables
begin

text \<open>
  \<^verbatim>\<open>userspace/pageinfo.c\<close>: the macros, the reader of the files under \<^verbatim>\<open>/proc\<close>, the three dumps and
  \<^verbatim>\<open>main\<close>, in the order of the source.  The files and \<^verbatim>\<open>strerror\<close> are a parameter, \<open>procfs\<close>; a run
  opens each file at most once, so their contents are a function of path and offset.  The
  properties are at the end: what is printed decodes to the bits and addresses read, the two modes
  of the program agree, and the error paths.
\<close>

section \<open>Macros\<close>

definition PAGE_SHIFT :: nat where
  "PAGE_SHIFT = 12"

definition PAGE_MASK :: u64 where
  "PAGE_MASK = NOT (shl1 PAGE_SHIFT - 1)"

definition PM_PRESENT :: u64 where "PM_PRESENT = shl1 63"
definition PM_SWAP :: u64 where "PM_SWAP = shl1 62"
definition PM_FILE :: u64 where "PM_FILE = shl1 61"
definition PM_UFFD_WP :: u64 where "PM_UFFD_WP = shl1 57"
definition PM_MMAP_EXCLUSIVE :: u64 where "PM_MMAP_EXCLUSIVE = shl1 56"
definition PM_SOFT_DIRTY :: u64 where "PM_SOFT_DIRTY = shl1 55"
definition PM_PFRAME_MASK :: u64 where "PM_PFRAME_MASK = shl1 55 - 1"
definition PM_SWAP_TYPE_MASK :: u64 where "PM_SWAP_TYPE_MASK = 0x1f"
definition PM_SWAP_OFFSET_SHIFT :: nat where "PM_SWAP_OFFSET_SHIFT = 5"
definition PM_SWAP_OFFSET_MASK :: u64 where
  "PM_SWAP_OFFSET_MASK = push_bit PM_SWAP_OFFSET_SHIFT (shl1 50 - 1)"
definition PM_FLAGS :: u64 where
  "PM_FLAGS = PM_PRESENT OR PM_SWAP OR PM_FILE OR PM_UFFD_WP OR PM_MMAP_EXCLUSIVE OR PM_SOFT_DIRTY"

definition KPF_LOCKED :: u64 where "KPF_LOCKED = shl1 0"
definition KPF_ERROR :: u64 where "KPF_ERROR = shl1 1"
definition KPF_REFERENCED :: u64 where "KPF_REFERENCED = shl1 2"
definition KPF_UPTODATE :: u64 where "KPF_UPTODATE = shl1 3"
definition KPF_DIRTY :: u64 where "KPF_DIRTY = shl1 4"
definition KPF_LRU :: u64 where "KPF_LRU = shl1 5"
definition KPF_ACTIVE :: u64 where "KPF_ACTIVE = shl1 6"
definition KPF_SLAB :: u64 where "KPF_SLAB = shl1 7"
definition KPF_WRITEBACK :: u64 where "KPF_WRITEBACK = shl1 8"
definition KPF_RECLAIM :: u64 where "KPF_RECLAIM = shl1 9"
definition KPF_BUDDY :: u64 where "KPF_BUDDY = shl1 10"
definition KPF_MMAP :: u64 where "KPF_MMAP = shl1 11"
definition KPF_ANON :: u64 where "KPF_ANON = shl1 12"
definition KPF_SWAPCACHE :: u64 where "KPF_SWAPCACHE = shl1 13"
definition KPF_SWAPBACKED :: u64 where "KPF_SWAPBACKED = shl1 14"
definition KPF_COMPOUND_HEAD :: u64 where "KPF_COMPOUND_HEAD = shl1 15"
definition KPF_COMPOUND_TAIL :: u64 where "KPF_COMPOUND_TAIL = shl1 16"
definition KPF_HUGE :: u64 where "KPF_HUGE = shl1 17"
definition KPF_UNEVICTABLE :: u64 where "KPF_UNEVICTABLE = shl1 18"
definition KPF_HWPOISON :: u64 where "KPF_HWPOISON = shl1 19"
definition KPF_NOPAGE :: u64 where "KPF_NOPAGE = shl1 20"
definition KPF_KSM :: u64 where "KPF_KSM = shl1 21"
definition KPF_THP :: u64 where "KPF_THP = shl1 22"
definition KPF_BALLOON :: u64 where "KPF_BALLOON = shl1 23"
definition KPF_ZERO_PAGE :: u64 where "KPF_ZERO_PAGE = shl1 24"
definition KPF_IDLE :: u64 where "KPF_IDLE = shl1 25"
definition KPF_PGTABLE :: u64 where "KPF_PGTABLE = shl1 26"
definition KPF_FLAGS :: u64 where "KPF_FLAGS = push_bit 1 KPF_PGTABLE - 1"

definition KPF_RESERVED :: u64 where "KPF_RESERVED = shl1 32"
definition KPF_MLOCKED :: u64 where "KPF_MLOCKED = shl1 33"
definition KPF_MAPPEDTODISK :: u64 where "KPF_MAPPEDTODISK = shl1 34"
definition KPF_PRIVATE :: u64 where "KPF_PRIVATE = shl1 35"
definition KPF_PRIVATE_2 :: u64 where "KPF_PRIVATE_2 = shl1 36"
definition KPF_OWNER_PRIVATE :: u64 where "KPF_OWNER_PRIVATE = shl1 37"
definition KPF_ARCH :: u64 where "KPF_ARCH = shl1 38"
definition KPF_UNCACHED :: u64 where "KPF_UNCACHED = shl1 39"
definition KPF_SOFTDIRTY :: u64 where "KPF_SOFTDIRTY = shl1 40"
definition KPF_ARCH_2 :: u64 where "KPF_ARCH_2 = shl1 41"
definition KPF_ARCH_3 :: u64 where "KPF_ARCH_3 = shl1 42"
definition KPF_HACK_FLAGS :: u64 where
  "KPF_HACK_FLAGS = (push_bit 1 KPF_ARCH_3 - 1) AND NOT (KPF_RESERVED - 1)"

lemmas pm_consts [const_simps] =
  PM_PRESENT_def PM_SWAP_def PM_FILE_def PM_UFFD_WP_def PM_MMAP_EXCLUSIVE_def PM_SOFT_DIRTY_def

lemmas kpf_consts [const_simps] =
  KPF_LOCKED_def KPF_ERROR_def KPF_REFERENCED_def KPF_UPTODATE_def KPF_DIRTY_def KPF_LRU_def
  KPF_ACTIVE_def KPF_SLAB_def KPF_WRITEBACK_def KPF_RECLAIM_def KPF_BUDDY_def KPF_MMAP_def
  KPF_ANON_def KPF_SWAPCACHE_def KPF_SWAPBACKED_def KPF_COMPOUND_HEAD_def KPF_COMPOUND_TAIL_def
  KPF_HUGE_def KPF_UNEVICTABLE_def KPF_HWPOISON_def KPF_NOPAGE_def KPF_KSM_def KPF_THP_def
  KPF_BALLOON_def KPF_ZERO_PAGE_def KPF_IDLE_def KPF_PGTABLE_def KPF_RESERVED_def
  KPF_MLOCKED_def KPF_MAPPEDTODISK_def KPF_PRIVATE_def KPF_PRIVATE_2_def KPF_OWNER_PRIVATE_def
  KPF_ARCH_def KPF_UNCACHED_def KPF_SOFTDIRTY_def KPF_ARCH_2_def KPF_ARCH_3_def

section \<open>Reading a word of a file under /proc\<close>

record procfs =
  pf_open :: "string \<Rightarrow> int option"
  pf_pread :: "string \<Rightarrow> int \<Rightarrow> int \<times> u64 \<times> int"
  pf_strerror :: "int \<Rightarrow> string"

text \<open>
  \<open>pf_open\<close> gives the error number of a failed \<^verbatim>\<open>open\<close>; \<open>pf_pread\<close> the count returned by \<^verbatim>\<open>pread\<close> at
  an offset, the word it stored and the value of \<^verbatim>\<open>errno\<close> after it.
\<close>

definition read_ulong_at_offset :: "procfs \<Rightarrow> string \<Rightarrow> int \<Rightarrow> (uevent, uexit, u64) run" where
  "read_ulong_at_offset env path offset =
     (case pf_open env path of
        Some errno \<Rightarrow>
          ([Stderr (''Failed to open '' @ quot @ path @ quot @ '': '' @ pf_strerror env errno @ nl)],
           Inl (Exit_now 1))
      | None \<Rightarrow>
          (case pf_pread env path offset of (nread, res, errno) \<Rightarrow>
             if nread \<noteq> 8 then
               ([Opened path,
                 Stderr (if nread = 0
                   then ''EOF while reading '' @ quot @ path @ quot @ '': page does not exist?'' @ nl
                   else ''pread failed: '' @ pf_strerror env errno @ nl)],
                Inl (Exit_now 1))
             else ([Opened path, Closed path], Inr res)))"

definition read_pagemap :: "procfs \<Rightarrow> string \<Rightarrow> u64 \<Rightarrow> (uevent, uexit, u64) run" where
  "read_pagemap env pid vaddr =
     (let path = ''/proc/'' @ pid @ ''/pagemap''
      in if length path + 1 > 128 then stop (Undefined ''sprintf past path[128]'')
         else read_ulong_at_offset env path (sint (drop_bit PAGE_SHIFT vaddr * 8)))"

section \<open>/proc/[pid]/pagemap\<close>

definition pm_flag_table :: "flag_entry list" where
  "pm_flag_table =
     [flag PM_PRESENT '' PRESENT'',
      flag PM_SWAP '' SWAP'',
      flag PM_FILE '' FILE(_OR_SHANON)'',
      flag PM_UFFD_WP '' UFFD_WP'',
      flag PM_MMAP_EXCLUSIVE '' MMAP_EXCLUSIVE'',
      flag PM_SOFT_DIRTY '' SOFT_DIRTY'']"

definition paddr_of :: "u64 \<Rightarrow> u64 \<Rightarrow> u64" where
  "paddr_of pm vaddr = push_bit PAGE_SHIFT (pm AND PM_PFRAME_MASK) OR (vaddr AND NOT PAGE_MASK)"

definition pagemap_location :: "u64 \<Rightarrow> u64 \<Rightarrow> string" where
  "pagemap_location pm vaddr =
     (if has pm PM_PRESENT then
        (let pfn = pm AND PM_PFRAME_MASK
         in ''Paddr: 0x'' @ fmt_lx (paddr_of pm vaddr) @
            '', page: 0x'' @ fmt_lx (push_bit PAGE_SHIFT pfn) @ '', PFN: 0x'' @ fmt_lx pfn @ nl)
      else if has pm PM_SWAP then
        ''Swap type: 0x'' @ fmt_lx (pm AND PM_SWAP_TYPE_MASK) @
        '', offset: 0x'' @ fmt_lx (drop_bit PM_SWAP_OFFSET_SHIFT (pm AND PM_SWAP_OFFSET_MASK)) @ nl
      else [])"

definition dump_pagemap :: "u64 \<Rightarrow> u64 \<Rightarrow> (uevent, uexit, unit) run" where
  "dump_pagemap pm vaddr =
     thenR (emit [Stdout (pagemap_location pm vaddr),
                  Stdout (''/proc/[pid]/pagemap: 0x'' @ fmt_016lx pm @ '' ='')])
       (if has pm PM_FLAGS then
          emit [Stdout (dump_flags pm_flag_table pm), Stdout nl]
        else
          thenR (emit [Stdout ('' no flags set, page does not exist?'' @ nl)]) (stop (Exit_now 1)))"

section \<open>/proc/kpageflags and /proc/kpagecount\<close>

definition kpf_flag_table :: "flag_entry list" where
  "kpf_flag_table =
     [flag KPF_LOCKED '' LOCKED'',
      flag KPF_ERROR '' ERROR'',
      flag KPF_REFERENCED '' REFERENCED'',
      flag KPF_UPTODATE '' UPTODATE'',
      flag KPF_DIRTY '' DIRTY'',
      flag KPF_LRU '' LRU'',
      flag KPF_ACTIVE '' ACTIVE'',
      flag KPF_SLAB '' SLAB'',
      flag KPF_WRITEBACK '' WRITEBACK'',
      flag KPF_RECLAIM '' RECLAIM'',
      flag KPF_BUDDY '' BUDDY'',
      flag KPF_MMAP '' MMAP'',
      flag KPF_ANON '' ANON'',
      flag KPF_SWAPCACHE '' SWAPCACHE'',
      flag KPF_SWAPBACKED '' SWAPBACKED'',
      flag KPF_COMPOUND_HEAD '' COMPOUND_HEAD'',
      flag KPF_COMPOUND_TAIL '' COMPOUND_TAIL'',
      flag KPF_HUGE '' HUGE'',
      flag KPF_UNEVICTABLE '' UNEVICTABLE'',
      flag KPF_HWPOISON '' HWPOISON'',
      flag KPF_NOPAGE '' NOPAGE'',
      flag KPF_KSM '' KSM'',
      flag KPF_THP '' THP'',
      flag KPF_BALLOON '' BALLOON'',
      flag KPF_ZERO_PAGE '' ZERO_PAGE'',
      flag KPF_IDLE '' IDLE'']"

definition kpf_hack_table :: "flag_entry list" where
  "kpf_hack_table =
     [flag KPF_RESERVED '' RESERVED'',
      flag KPF_MLOCKED '' MLOCKED'',
      flag KPF_MAPPEDTODISK '' MAPPEDTODISK'',
      flag KPF_PRIVATE '' PRIVATE'',
      flag KPF_PRIVATE_2 '' PRIVATE_2'',
      flag KPF_OWNER_PRIVATE '' OWNER_PRIVATE'',
      flag KPF_ARCH '' ARCH'',
      flag KPF_UNCACHED '' UNCACHED'',
      flag KPF_SOFTDIRTY '' SOFTDIRTY'',
      flag KPF_ARCH_2 '' ARCH_2'',
      flag KPF_ARCH_3 '' ARCH_3'']"

definition kpf_mask :: "bool \<Rightarrow> u64" where
  "kpf_mask hack = KPF_FLAGS OR (of_bool hack * KPF_HACK_FLAGS)"

definition kpf_text :: "u64 \<Rightarrow> bool \<Rightarrow> string" where
  "kpf_text kpf hack =
     (if has kpf (kpf_mask hack) then
        dump_flags kpf_flag_table kpf @
        (if hack \<and> has kpf KPF_HACK_FLAGS then
           (if has kpf KPF_FLAGS then '' | hack:'' else '' hack:'') @ dump_flags kpf_hack_table kpf
         else [])
      else '' no known flags set'')"

definition dump_kpageflags_kpagecount ::
  "procfs \<Rightarrow> u64 \<Rightarrow> bool \<Rightarrow> bool \<Rightarrow> (uevent, uexit, unit) run" where
  "dump_kpageflags_kpagecount env pfn hack spacing =
     bindR (read_ulong_at_offset env ''/proc/kpageflags'' (sint (pfn * 8))) (\<lambda>kpf.
     bindR (read_ulong_at_offset env ''/proc/kpagecount'' (sint (pfn * 8))) (\<lambda>count.
       emit [Stdout (''/proc/kpageflags'' @ (if spacing then ''   '' else []) @ '': 0x'' @ fmt_016lx kpf @ '' =''),
             Stdout (kpf_text kpf hack),
             Stdout (nl @ ''/proc/kpagecount'' @ (if spacing then ''   '' else []) @ '': '' @
                     fmt_d (sint count) @ nl)]))"

section \<open>The program\<close>

definition dump_page_info :: "procfs \<Rightarrow> string option \<Rightarrow> u64 \<Rightarrow> bool \<Rightarrow> (uevent, uexit, unit) run" where
  "dump_page_info env pid addr hack =
     thenR (emit [Stdout ((if pid \<noteq> None then ''V'' else ''P'') @ ''addr: 0x'' @ fmt_lx addr @
                          '', page: 0x'' @ fmt_lx (addr AND PAGE_MASK) @ nl)])
       (case pid of
          Some p \<Rightarrow>
            bindR (read_pagemap env p addr) (\<lambda>pm.
            thenR (dump_pagemap pm addr)
              (if has pm PM_PRESENT
               then dump_kpageflags_kpagecount env (pm AND PM_PFRAME_MASK) hack True
               else ret ()))
        | None \<Rightarrow> dump_kpageflags_kpagecount env (drop_bit PAGE_SHIFT addr) hack False)"

definition usage_exit :: "string \<Rightarrow> (uevent, uexit, 'a) run" where
  "usage_exit name =
     thenR (emit [Stderr (''Usage: '' @ name @ '' PID VADDR [hack]'' @ nl),
                  Stderr (''       '' @ name @ '' self VADDR [hack]'' @ nl),
                  Stderr (''       '' @ name @ '' PADDR [hack]'' @ nl)])
       (stop (Exit 1))"

definition INT_MAX :: int where
  "INT_MAX = 2147483647"

text \<open>The tests \<^verbatim>\<open>main\<close> makes on its arguments after \<^verbatim>\<open>strtol\<close> and \<^verbatim>\<open>strtoul\<close>.\<close>

definition bad_pid :: "string \<Rightarrow> bool" where
  "bad_pid pid \<longleftrightarrow>
     pid \<noteq> ''self'' \<and>
     (let t = strtol 10 pid
      in st_end t = pid \<or> st_end t \<noteq> [] \<or> st_erange t \<or> st_val t < 1 \<or> st_val t > INT_MAX)"

definition bad_addr :: "string \<Rightarrow> bool" where
  "bad_addr s \<longleftrightarrow> (let t = strtoul 0 s in st_end t = s \<or> st_end t \<noteq> [] \<or> st_erange t)"

definition main :: "procfs \<Rightarrow> string list \<Rightarrow> (uevent, uexit, int) run" where
  "main env argv =
     (let name = (if argv = [] then ''pageinfo'' else argv ! 0);
          argc0 = length argv
      in if argc0 > 4 then usage_exit name
         else
           let hack = (argc0 \<ge> 3 \<and> argv ! (argc0 - 1) = ''hack'');
               argc = (if hack then argc0 - 1 else argc0)
           in if argc \<noteq> 2 \<and> argc \<noteq> 3 then usage_exit name
              else
                let pid = (if argc = 3 then Some (argv ! 1) else None)
                in if (case pid of Some p \<Rightarrow> bad_pid p | None \<Rightarrow> False)
                   then thenR (emit [Stderr (''Invalid PID!'' @ nl)]) (ret 1)
                   else
                     let arg = argv ! (argc - 1)
                     in if bad_addr arg
                        then thenR (emit [Stderr (''Invalid address!'' @ nl)]) (ret 1)
                        else thenR (dump_page_info env pid (st_val (strtoul 0 arg)) hack) (ret 0))"

section \<open>Specification of the command line\<close>

text \<open>
  What a command line asks for, read off the list of arguments by pattern matching, where \<^verbatim>\<open>main\<close>
  counts, decrements and indexes.
\<close>

datatype request =
  Usage
| Bad_PID
| Bad_address
| Virtual string u64 bool
| Physical u64 bool

definition physical_request :: "string \<Rightarrow> bool \<Rightarrow> request" where
  "physical_request a hack =
     (case strto_scan 0 a of
        Some (neg, v, []) \<Rightarrow>
          if v < 2 ^ 64 then Physical (if neg then - of_nat v else of_nat v) hack else Bad_address
      | _ \<Rightarrow> Bad_address)"

definition good_pid :: "string \<Rightarrow> bool" where
  "good_pid p \<longleftrightarrow>
     p = ''self'' \<or>
     (case strto_scan 10 p of Some (False, v, []) \<Rightarrow> 1 \<le> v \<and> v \<le> 2147483647 | _ \<Rightarrow> False)"

definition virtual_request :: "string \<Rightarrow> string \<Rightarrow> bool \<Rightarrow> request" where
  "virtual_request p a hack =
     (if good_pid p
      then (case physical_request a hack of Physical v h \<Rightarrow> Virtual p v h | r \<Rightarrow> r)
      else Bad_PID)"

fun parse_args :: "string list \<Rightarrow> request" where
  "parse_args [_, a] = physical_request a False"
| "parse_args [_, a, b] =
     (if b = ''hack'' then physical_request a True else virtual_request a b False)"
| "parse_args [_, p, a, h] = (if h = ''hack'' then virtual_request p a True else Usage)"
| "parse_args _ = Usage"

definition perform :: "procfs \<Rightarrow> string \<Rightarrow> request \<Rightarrow> (uevent, uexit, int) run" where
  "perform env name r =
     (case r of
        Usage \<Rightarrow> usage_exit name
      | Bad_PID \<Rightarrow> ([Stderr (''Invalid PID!'' @ nl)], Inr 1)
      | Bad_address \<Rightarrow> ([Stderr (''Invalid address!'' @ nl)], Inr 1)
      | Virtual p a hack \<Rightarrow> thenR (dump_page_info env (Some p) a hack) (ret 0)
      | Physical a hack \<Rightarrow> thenR (dump_page_info env None a hack) (ret 0))"

text \<open>A concrete system, on which the properties below are exercised.\<close>

definition demo_procfs :: procfs where
  "demo_procfs =
     \<lparr>pf_open = (\<lambda>path. None),
      pf_pread = (\<lambda>path offset.
        (8, if path = ''/proc/self/pagemap'' then 0x8000000000001234
            else if path = ''/proc/7/pagemap'' then 0
            else if path = ''/proc/kpageflags'' then 0x868 else 1, 0)),
      pf_strerror = (\<lambda>errno. ''error'')\<rparr>"

section \<open>The flag tables can be read back\<close>

lemma PAGE_MASK_eq: "PAGE_MASK = NOT (mask 12)"
  by (simp add: PAGE_MASK_def PAGE_SHIFT_def mask_eq_exp_minus_1)

lemma PM_PFRAME_MASK_eq: "PM_PFRAME_MASK = mask 55"
  by (simp add: PM_PFRAME_MASK_def mask_eq_exp_minus_1)

lemma KPF_FLAGS_eq: "KPF_FLAGS = mask 27"
  by (simp add: KPF_FLAGS_def KPF_PGTABLE_def mask_eq_exp_minus_1)

lemma table_mask_pm: "table_mask pm_flag_table = PM_FLAGS"
  by (simp add: table_mask_def pm_flag_table_def PM_FLAGS_def)

lemma table_mask_kpf: "table_mask kpf_flag_table = KPF_FLAGS AND NOT KPF_PGTABLE"
  by (simp add: table_mask_def kpf_flag_table_def KPF_FLAGS_def kpf_consts)

lemma table_mask_hack: "table_mask kpf_hack_table = KPF_HACK_FLAGS"
  by (simp add: table_mask_def kpf_hack_table_def KPF_HACK_FLAGS_def kpf_consts)

interpretation pm: flag_bits pm_flag_table
  by unfold_locales
    (simp_all add: pm_flag_table_def wf_table_simps pm_consts single_bit_shl1 del: push_bit_of_1)

interpretation kpf: flag_bits kpf_flag_table
  by unfold_locales
    (simp_all add: kpf_flag_table_def wf_table_simps kpf_consts single_bit_shl1 del: push_bit_of_1)

interpretation kpf_hack: flag_bits kpf_hack_table
  by unfold_locales
    (simp_all add: kpf_hack_table_def wf_table_simps kpf_consts single_bit_shl1 del: push_bit_of_1)

interpretation kpf_all: flag_bits "kpf_flag_table @ kpf_hack_table"
  by unfold_locales
    (simp_all add: kpf_flag_table_def kpf_hack_table_def wf_table_simps kpf_consts single_bit_shl1
      del: push_bit_of_1)


section \<open>Properties\<close>

subsection \<open>Addresses\<close>

lemma paddr_of_eq: "paddr_of pm vaddr = push_bit 12 (pm AND PM_PFRAME_MASK) OR take_bit 12 vaddr"
  by (simp add: paddr_of_def PAGE_SHIFT_def PAGE_MASK_eq flip: take_bit_eq_mask)

lemma unat_paddr_of:
  assumes "unat (pm AND PM_PFRAME_MASK) < 2 ^ 52"
  shows "unat (paddr_of pm vaddr) = unat (pm AND PM_PFRAME_MASK) * 4096 + unat vaddr mod 4096"
  using unat_frame_or_offset [of 12 12 "pm AND PM_PFRAME_MASK" vaddr] assms
  by (simp add: paddr_of_eq)

lemma frame_of_paddr_of:
  assumes "unat (pm AND PM_PFRAME_MASK) < 2 ^ 52"
  shows "drop_bit PAGE_SHIFT (paddr_of pm vaddr) = pm AND PM_PFRAME_MASK"
proof -
  have "take_bit 52 (pm AND PM_PFRAME_MASK) = pm AND PM_PFRAME_MASK"
    using assms by (rule take_bit_small)
  then show ?thesis
    using drop_bit_frame_or_offset [of 12 "pm AND PM_PFRAME_MASK" vaddr]
    by (simp add: paddr_of_eq PAGE_SHIFT_def)
qed

lemma pagemap_location_present:
  "has pm PM_PRESENT \<Longrightarrow>
   pagemap_location pm vaddr =
     ''Paddr: 0x'' @ fmt_lx (paddr_of pm vaddr) @
     '', page: 0x'' @ fmt_lx (push_bit PAGE_SHIFT (pm AND PM_PFRAME_MASK)) @
     '', PFN: 0x'' @ fmt_lx (pm AND PM_PFRAME_MASK) @ nl"
  by (simp add: pagemap_location_def Let_def)

text \<open>
  For a present page whose frame number is below 2^52 (the architectural limit of physical
  addresses), \<^verbatim>\<open>dump_pagemap\<close> first prints the physical address frame * 4096 + (virtual address
  mod 4096), written so that reading the number back gives that address.
\<close>

theorem dump_pagemap_paddr:
  assumes "has pm PM_PRESENT" and "unat (pm AND PM_PFRAME_MASK) < 2 ^ 52"
  shows "\<exists>paddr rest.
    stdout_of (fst (dump_pagemap pm vaddr)) = ''Paddr: '' @ (''0x'' @ fmt_lx paddr) @ '','' @ rest \<and>
    strtoul 0 (''0x'' @ fmt_lx paddr) = \<lparr>st_val = paddr, st_end = [], st_erange = False\<rparr> \<and>
    unat paddr = unat (pm AND PM_PFRAME_MASK) * 4096 + unat vaddr mod 4096"
proof (intro exI conjI)
  show "stdout_of (fst (dump_pagemap pm vaddr)) =
    ''Paddr: '' @ (''0x'' @ fmt_lx (paddr_of pm vaddr)) @ '','' @
    ('' page: 0x'' @ fmt_lx (push_bit PAGE_SHIFT (pm AND PM_PFRAME_MASK)) @
     '', PFN: 0x'' @ fmt_lx (pm AND PM_PFRAME_MASK) @ nl @
     stdout_of (tl (fst (dump_pagemap pm vaddr))))"
    using assms(1) by (simp add: dump_pagemap_def pagemap_location_present)
  show "strtoul 0 (''0x'' @ fmt_lx (paddr_of pm vaddr)) =
    \<lparr>st_val = paddr_of pm vaddr, st_end = [], st_erange = False\<rparr>"
    by (rule strtoul_0x_fmt_lx)
  show "unat (paddr_of pm vaddr) = unat (pm AND PM_PFRAME_MASK) * 4096 + unat vaddr mod 4096"
    using assms(2) by (rule unat_paddr_of)
qed

theorem dump_pagemap_paddr_witness:
  "\<exists>paddr rest.
    stdout_of (fst (dump_pagemap 0x8000000000001234 0x7f0000000abc)) =
      ''Paddr: '' @ (''0x'' @ fmt_lx paddr) @ '','' @ rest \<and>
    unat paddr = 0x1234abc"
proof -
  have "has 0x8000000000001234 PM_PRESENT"
    by (simp add: has_def PM_PRESENT_def)
  moreover have "unat (0x8000000000001234 AND PM_PFRAME_MASK) = 0x1234"
    by (simp add: PM_PFRAME_MASK_def)
  ultimately show ?thesis
    using dump_pagemap_paddr [of "0x8000000000001234" "0x7f0000000abc"] by auto
qed

subsection \<open>Flags\<close>

text \<open>
  The flags of a pagemap entry and their bits as \<^verbatim>\<open>admin-guide/mm/pagemap.rst\<close> lists them, in the order in which
  the program shows them; and what the other bits say, the frame number (bits 0 to 54) of a present page, and the
  type (bits 0 to 4) and offset (bits 5 to 54) of a swapped one.
\<close>

definition pagemap_bits :: "(nat \<times> string) list" where
  "pagemap_bits =
     [(63, '' PRESENT''), (62, '' SWAP''), (61, '' FILE(_OR_SHANON)''), (57, '' UFFD_WP''), (56, '' MMAP_EXCLUSIVE''),
      (55, '' SOFT_DIRTY'')]"

definition documented_names :: "u64 \<Rightarrow> string list" where
  "documented_names pm = map snd (filter (\<lambda>(n, name). bit pm n) pagemap_bits)"

definition documented_location :: "u64 \<Rightarrow> u64 \<Rightarrow> string" where
  "documented_location pm vaddr =
     (if bit pm 63 then
        ''Paddr: 0x'' @ fmt_lx (push_bit 12 (take_bit 55 pm) OR take_bit 12 vaddr) @
        '', page: 0x'' @ fmt_lx (push_bit 12 (take_bit 55 pm)) @ '', PFN: 0x'' @ fmt_lx (take_bit 55 pm) @ nl
      else if bit pm 62 then
        ''Swap type: 0x'' @ fmt_lx (take_bit 5 pm) @ '', offset: 0x'' @ fmt_lx (take_bit 50 (drop_bit 5 pm)) @ nl
      else [])"

lemma has_pm_flag:
  "has pm PM_PRESENT \<longleftrightarrow> bit pm 63" "has pm PM_SWAP \<longleftrightarrow> bit pm 62" "has pm PM_FILE \<longleftrightarrow> bit pm 61"
  "has pm PM_UFFD_WP \<longleftrightarrow> bit pm 57" "has pm PM_MMAP_EXCLUSIVE \<longleftrightarrow> bit pm 56" "has pm PM_SOFT_DIRTY \<longleftrightarrow> bit pm 55"
  unfolding PM_PRESENT_def PM_SWAP_def PM_FILE_def PM_UFFD_WP_def PM_MMAP_EXCLUSIVE_def PM_SOFT_DIRTY_def
  by (simp_all only: has_shl1)

lemma has_PM_FLAGS: "has pm PM_FLAGS \<longleftrightarrow> documented_names pm \<noteq> []"
  by (auto simp: PM_FLAGS_def has_or has_pm_flag documented_names_def pagemap_bits_def)

lemma pm_names: "tags (dump_flags pm_flag_table pm) = documented_names pm"
  unfolding pm.tags_dump by (simp add: pm_flag_table_def has_pm_flag documented_names_def pagemap_bits_def)

lemma swap_masks:
  fixes pm :: u64
  shows "pm AND PM_SWAP_TYPE_MASK = take_bit 5 pm"
    and "drop_bit PM_SWAP_OFFSET_SHIFT (pm AND PM_SWAP_OFFSET_MASK) = take_bit 50 (drop_bit 5 pm)"
proof -
  have "PM_SWAP_TYPE_MASK = mask 5" "PM_SWAP_OFFSET_MASK = push_bit 5 (mask 50)"
    by (simp_all add: PM_SWAP_TYPE_MASK_def PM_SWAP_OFFSET_MASK_def PM_SWAP_OFFSET_SHIFT_def mask_eq_exp_minus_1)
  note masks = this
  show "pm AND PM_SWAP_TYPE_MASK = take_bit 5 pm"
    unfolding masks by (rule take_bit_eq_mask [symmetric])
  show "drop_bit PM_SWAP_OFFSET_SHIFT (pm AND PM_SWAP_OFFSET_MASK) = take_bit 50 (drop_bit 5 pm)"
    unfolding masks PM_SWAP_OFFSET_SHIFT_def by (rule bit_word_eqI) (auto simp: bit_simps)
qed

lemma pagemap_location_documented: "pagemap_location pm vaddr = documented_location pm vaddr"
  by (simp only: pagemap_location_def documented_location_def has_pm_flag paddr_of_eq swap_masks Let_def
      PM_PFRAME_MASK_eq PAGE_SHIFT_def flip: take_bit_eq_mask)

text \<open>
  C25.  \<^verbatim>\<open>dump_pagemap\<close> shows a pagemap entry as the kernel's documentation defines its bits: where the page is, the
  whole word, and the names of exactly the documented flags that are set, each under its own name.  If none is
  set it says so and ends the process with status 1.
\<close>

theorem dump_pagemap_flags:
  "\<exists>flags. stdout_of (fst (dump_pagemap pm vaddr)) =
      documented_location pm vaddr @ ''/proc/[pid]/pagemap: 0x'' @ fmt_016lx pm @ '' ='' @ flags @ nl \<and>
    (if documented_names pm = []
     then flags = '' no flags set, page does not exist?'' \<and> snd (dump_pagemap pm vaddr) = Inl (Exit_now 1)
     else tags flags = documented_names pm \<and> snd (dump_pagemap pm vaddr) = Inr ())"
  by (rule exI [of _ "if has pm PM_FLAGS then dump_flags pm_flag_table pm else '' no flags set, page does not exist?''"])
    (simp add: dump_pagemap_def run_defs has_PM_FLAGS pm_names pagemap_location_documented)

lemma dump_kpf_Nil: "dump_flags kpf_flag_table kpf = [] \<longleftrightarrow> \<not> has kpf (table_mask kpf_flag_table)"
  by (rule dump_flags_eq_Nil) (simp add: kpf_flag_table_def)

lemma dump_hack_Nil: "dump_flags kpf_hack_table kpf = [] \<longleftrightarrow> \<not> has kpf KPF_HACK_FLAGS"
  unfolding table_mask_hack [symmetric] by (rule dump_flags_eq_Nil) (simp add: kpf_hack_table_def)

lemma KPF_FLAGS_split: "KPF_FLAGS = table_mask kpf_flag_table OR KPF_PGTABLE"
  by (simp add: table_mask_kpf KPF_FLAGS_def kpf_consts)


lemma kpf_names_not_prose:
  "\<forall>(m, on, off) \<in> set (kpf_flag_table @ kpf_hack_table).
     on \<notin> {'' no'', '' known'', '' flags'', '' set'', '' |'', '' hack:''}"
  by (simp add: kpf_flag_table_def kpf_hack_table_def)

lemma tags_prose:
  "tags '' no known flags set'' = ['' no'', '' known'', '' flags'', '' set'']"
  "tags '' | hack:'' = ['' |'', '' hack:'']" "tags '' hack:'' = ['' hack:'']"
  by simp_all

text \<open>The names in the text are those of the tables that apply, whatever the prose around them.\<close>

lemma tags_kpf_text:
  assumes "on \<notin> {'' no'', '' known'', '' flags'', '' set'', '' |'', '' hack:''}"
  shows "on \<in> set (tags (kpf_text kpf hack)) \<longleftrightarrow>
     on \<in> set (tags (dump_flags (kpf_flag_table @ (if hack then kpf_hack_table else [])) kpf))"
proof (cases "has kpf (kpf_mask hack)")
  case False
  then have "dump_flags kpf_flag_table kpf = []" and "hack \<longrightarrow> dump_flags kpf_hack_table kpf = []"
    by (auto simp: kpf_mask_def has_or KPF_FLAGS_split dump_kpf_Nil dump_hack_Nil)
  with False assms show ?thesis
    by (cases hack) (auto simp: kpf_text_def tags_prose simp del: tags.simps(2))
next
  case True
  let ?mid = "if has kpf KPF_FLAGS then '' | hack:'' else '' hack:''"
  have mid: "on \<notin> set (tags ?mid)" "hd (?mid @ s) = CHR '' ''" for s
    using assms by (simp_all add: tags_prose del: tags.simps)
  show ?thesis
  proof (cases "hack \<and> has kpf KPF_HACK_FLAGS")
    case False
    then have "hack \<longrightarrow> dump_flags kpf_hack_table kpf = []"
      by (simp add: dump_hack_Nil)
    with True False show ?thesis
      by (cases hack) (simp_all add: kpf_text_def)
  next
    case hack: True
    with True have "tags (kpf_text kpf hack) =
        tags (dump_flags kpf_flag_table kpf) @ tags ?mid @ tags (dump_flags kpf_hack_table kpf)"
      using tags_append_any [of "?mid @ dump_flags kpf_hack_table kpf" "dump_flags kpf_flag_table kpf"]
        tags_append_any [OF kpf_hack.dump_starts, of ?mid kpf] mid(2)
      by (simp add: kpf_text_def del: tags.simps)
    with hack mid(1) show ?thesis
      using tags_append_any [OF kpf_hack.dump_starts] by (auto simp del: tags.simps)
  qed
qed

text \<open>
  The text printed for a \<^verbatim>\<open>/proc/kpageflags\<close> word decodes to its documented flags, all but
  \<^verbatim>\<open>KPF_PGTABLE\<close>, together with the \<^verbatim>\<open>hack\<close> flags when these were asked for.
\<close>

theorem kpf_text_decodes:
  "read_flags (kpf_flag_table @ (if hack then kpf_hack_table else [])) (kpf_text kpf hack) =
     kpf AND ((KPF_FLAGS AND NOT KPF_PGTABLE) OR (if hack then KPF_HACK_FLAGS else 0))"
proof -
  let ?t = "kpf_flag_table @ (if hack then kpf_hack_table else [])"
  have "read_flags ?t (kpf_text kpf hack) = read_flags ?t (dump_flags ?t kpf)"
  proof (rule read_flags_cong)
    fix m on off
    assume "(m, on, off) \<in> set ?t"
    then have "(m, on, off) \<in> set (kpf_flag_table @ kpf_hack_table)"
      by (auto split: if_splits)
    then have "on \<notin> {'' no'', '' known'', '' flags'', '' set'', '' |'', '' hack:''}"
      using kpf_names_not_prose by fastforce
    then show "on \<in> set (tags (kpf_text kpf hack)) \<longleftrightarrow> on \<in> set (tags (dump_flags ?t kpf))"
      by (rule tags_kpf_text)
  qed
  also have "\<dots> = kpf AND table_mask ?t"
    using kpf.read_dump [of kpf] kpf_all.read_dump [of kpf] by (cases hack) simp_all
  also have "table_mask ?t = (KPF_FLAGS AND NOT KPF_PGTABLE) OR (if hack then KPF_HACK_FLAGS else 0)"
    by (simp add: table_mask_append table_mask_kpf table_mask_hack)
  finally show ?thesis .
qed

text \<open>
  \<^verbatim>\<open>KPF_PGTABLE\<close> is counted among the known flags but has no statement that prints it: the
  program prints an empty list of flags, and not \<^verbatim>\<open>no known flags set\<close> either, exactly for the words
  in which it is the only known flag.
\<close>

theorem kpf_text_silent_iff:
  "kpf_text kpf hack = [] \<longleftrightarrow> kpf AND kpf_mask hack = KPF_PGTABLE"
proof -
  have eq: "kpf_text kpf hack = [] \<longleftrightarrow>
      has kpf (kpf_mask hack) \<and> \<not> has kpf (table_mask kpf_flag_table) \<and> \<not> (hack \<and> has kpf KPF_HACK_FLAGS)"
    by (auto simp: kpf_text_def dump_kpf_Nil)
  have mask: "kpf_mask hack = table_mask kpf_flag_table OR KPF_PGTABLE OR (if hack then KPF_HACK_FLAGS else 0)"
    by (simp add: kpf_mask_def KPF_FLAGS_split or.assoc)
  have disj: "\<not> has KPF_PGTABLE (table_mask kpf_flag_table)" "\<not> has KPF_PGTABLE KPF_HACK_FLAGS"
    by (simp_all add: has_def table_mask_kpf KPF_FLAGS_def KPF_HACK_FLAGS_def kpf_consts)
  have pg: "kpf AND KPF_PGTABLE = (if has kpf KPF_PGTABLE then KPF_PGTABLE else 0)"
    unfolding KPF_PGTABLE_def by (rule single_bit_and [OF single_bit_shl1]) simp
  show ?thesis
  proof
    assume "kpf_text kpf hack = []"
    then have *: "has kpf KPF_PGTABLE" "kpf AND table_mask kpf_flag_table = 0"
      "kpf AND (if hack then KPF_HACK_FLAGS else 0) = 0"
      by (auto simp: eq mask has_or) (auto simp: has_def split: if_splits)
    then show "kpf AND kpf_mask hack = KPF_PGTABLE"
      using pg by (simp add: mask bit.conj_disj_distrib)
  next
    assume *: "kpf AND kpf_mask hack = KPF_PGTABLE"
    then have sub: "has kpf m \<longleftrightarrow> has KPF_PGTABLE m" if "m AND kpf_mask hack = m" for m
      using has_and_mask [OF that, of kpf] * by simp
    have "has kpf (kpf_mask hack)"
      using * by (simp add: has_def KPF_PGTABLE_def)
    moreover have "\<not> has kpf (table_mask kpf_flag_table)"
      using disj(1) sub [of "table_mask kpf_flag_table"] by (simp add: mask or.assoc and_or_absorb)
    moreover have "\<not> (hack \<and> has kpf KPF_HACK_FLAGS)"
      using disj(2) sub [of "KPF_HACK_FLAGS"] by (auto simp: mask and_or_absorb simp flip: or.assoc)
    ultimately show "kpf_text kpf hack = []"
      by (simp add: eq)
  qed
qed


subsection \<open>Offsets and files\<close>

lemma unat_pframe_less: "unat (pm AND PM_PFRAME_MASK) < 2 ^ 55"
  by (simp add: PM_PFRAME_MASK_eq unat_take_bit_word flip: take_bit_eq_mask)

lemma unat_frame_less: "unat (drop_bit PAGE_SHIFT (a :: u64)) < 2 ^ 55"
proof -
  have "unat a < 2 ^ 64"
    using unsigned_less [of a, where 'a = nat] by simp
  then show ?thesis
    by (simp add: PAGE_SHIFT_def unat_drop_bit_word less_mult_imp_div_less)
qed

lemma sint_frame_times_8: "sint (drop_bit PAGE_SHIFT a * 8) = int (unat a div 4096) * 8" for a :: u64
  unfolding sint_index_times_8 [OF unat_frame_less]
  by (simp only: PAGE_SHIFT_def unat_drop_bit_word) simp

text \<open>A file under \<^verbatim>\<open>/proc\<close> that can be opened and whose word number \<open>i\<close> is \<open>v\<close>.\<close>

definition word_at :: "procfs \<Rightarrow> string \<Rightarrow> nat \<Rightarrow> u64 \<Rightarrow> bool" where
  "word_at env path i v \<longleftrightarrow>
     pf_open env path = None \<and> fst (pf_pread env path (8 * int i)) = 8 \<and> fst (snd (pf_pread env path (8 * int i))) = v"

lemma read_word_at: "word_at env path i v \<Longrightarrow> read_ulong_at_offset env path (int i * 8) = ([Opened path, Closed path], Inr v)"
  by (cases "pf_pread env path (8 * int i)") (simp add: word_at_def read_ulong_at_offset_def mult.commute)

text \<open>The two lines about a frame, given the words of the two files.\<close>

definition frame_lines :: "bool \<Rightarrow> u64 \<Rightarrow> u64 \<Rightarrow> bool \<Rightarrow> string" where
  "frame_lines spacing kpf cnt hack =
     ''/proc/kpageflags'' @ (if spacing then ''   '' else []) @ '': 0x'' @ fmt_016lx kpf @ '' ='' @ kpf_text kpf hack @ nl @
     ''/proc/kpagecount'' @ (if spacing then ''   '' else []) @ '': '' @ fmt_d (sint cnt) @ nl"

lemma kpage_words:
  assumes "unat pfn < 2 ^ 55" and "word_at env ''/proc/kpageflags'' (unat pfn) kpf"
    and "word_at env ''/proc/kpagecount'' (unat pfn) cnt"
  shows "stdout_of (fst (dump_kpageflags_kpagecount env pfn hack spacing)) = frame_lines spacing kpf cnt hack"
    and "snd (dump_kpageflags_kpagecount env pfn hack spacing) = Inr ()"
  unfolding dump_kpageflags_kpagecount_def sint_index_times_8 [OF assms(1)]
    read_word_at [OF assms(2)] read_word_at [OF assms(3)]
  by (simp_all add: run_defs frame_lines_def)

text \<open>
  C35.  Each file is read at the word that belongs to the page, for every address and every frame number: the
  64-bit product with 8 never wraps and is never negative as an \<^verbatim>\<open>off_t\<close>.  Let the words number \<open>n\<close> of \<^verbatim>\<open>kpageflags\<close>
  and \<^verbatim>\<open>kpagecount\<close> be \<open>kpf\<close> and \<open>cnt\<close>.  Asked for a physical address of the page \<open>n\<close>, the program shows these
  two words.  Asked for a virtual address of a process whose path fits the buffer, it shows them if the word of
  the process's \<^verbatim>\<open>pagemap\<close> that belongs to the virtual page says that the page is present in the frame \<open>n\<close>.
\<close>

theorem file_offsets_exact:
  assumes "word_at env ''/proc/kpageflags'' n kpf" and "word_at env ''/proc/kpagecount'' n cnt"
    and "length pid \<le> 113" and "word_at env (''/proc/'' @ pid @ ''/pagemap'') (unat vaddr div 4096) pm"
  shows "(unat addr div 4096 = n \<longrightarrow>
      (\<exists>pre. stdout_of (fst (dump_page_info env None addr hack)) = pre @ frame_lines False kpf cnt hack) \<and>
      snd (dump_page_info env None addr hack) = Inr ()) \<and>
    (bit pm 63 \<and> unat (take_bit 55 pm) = n \<longrightarrow>
      (\<exists>pre. stdout_of (fst (dump_page_info env (Some pid) vaddr hack)) = pre @ frame_lines True kpf cnt hack) \<and>
      snd (dump_page_info env (Some pid) vaddr hack) = Inr ())"
proof (intro conjI impI)
  assume n: "unat addr div 4096 = n"
  have "unat (drop_bit PAGE_SHIFT addr) = n"
    using n by (simp add: PAGE_SHIFT_def unat_drop_bit_word)
  note words = kpage_words [OF unat_frame_less, of env addr, unfolded this, OF assms(1,2)]
  show "\<exists>pre. stdout_of (fst (dump_page_info env None addr hack)) = pre @ frame_lines False kpf cnt hack"
    and "snd (dump_page_info env None addr hack) = Inr ()"
    using words by (simp_all add: dump_page_info_def run_defs)
next
  assume pm: "bit pm 63 \<and> unat (take_bit 55 pm) = n"
  then have "unat (pm AND PM_PFRAME_MASK) = n" and present: "has pm PM_PRESENT" and flags: "has pm PM_FLAGS"
    by (simp_all add: PM_PFRAME_MASK_eq has_pm_flag PM_FLAGS_def has_or flip: take_bit_eq_mask)
  note words = kpage_words [OF unat_pframe_less, of env pm, unfolded this(1), OF assms(1,2)]
  have read: "read_pagemap env pid vaddr =
      ([Opened (''/proc/'' @ pid @ ''/pagemap''), Closed (''/proc/'' @ pid @ ''/pagemap'')], Inr pm)"
    using assms(3) read_word_at [OF assms(4)] by (simp add: read_pagemap_def sint_frame_times_8 Let_def)
  show "\<exists>pre. stdout_of (fst (dump_page_info env (Some pid) vaddr hack)) = pre @ frame_lines True kpf cnt hack"
    and "snd (dump_page_info env (Some pid) vaddr hack) = Inr ()"
    using words present flags by (simp_all add: dump_page_info_def read dump_pagemap_def run_defs)
qed

theorem file_offsets_exact_witness:
  "\<exists>pre pre'. stdout_of (fst (dump_page_info demo_procfs None 0x1234abc False)) = pre @ frame_lines False 0x868 1 False \<and>
    stdout_of (fst (dump_page_info demo_procfs (Some ''self'') 0x7f0000000abc False)) = pre' @ frame_lines True 0x868 1 False"
proof -
  have "word_at demo_procfs ''/proc/kpageflags'' 0x1234 0x868" "word_at demo_procfs ''/proc/kpagecount'' 0x1234 1"
    "word_at demo_procfs (''/proc/'' @ ''self'' @ ''/pagemap'') (unat (0x7f0000000abc :: u64) div 4096) 0x8000000000001234"
    by (simp_all add: word_at_def demo_procfs_def)
  note run = file_offsets_exact [OF this(1,2) _ this(3), of "0x1234abc" False]
  have "unat (0x1234abc :: u64) div 4096 = 0x1234" "bit (0x8000000000001234 :: u64) 63"
    "unat (take_bit 55 (0x8000000000001234 :: u64)) = 0x1234"
    by (simp_all add: bit_iff_odd_drop_bit)
  with run show ?thesis by simp
qed

subsection \<open>The command line\<close>

lemma bad_pid_iff: "bad_pid p \<longleftrightarrow> \<not> good_pid p"
proof (cases "strto_scan 10 p")
  case None
  then show ?thesis
    by (auto simp: bad_pid_def good_pid_def strtol_def Let_def)
next
  case (Some x)
  then have "st_end (strtol 10 p) \<noteq> p"
    by (simp add: strtol_end_eq)
  with Some show ?thesis
    by (cases x)
      (auto simp: bad_pid_def good_pid_def strtol_def Let_def INT_MAX_def split: list.splits bool.splits)
qed

lemma bad_addr_cases:
  "(if bad_addr a then Bad_address else Physical (st_val (strtoul 0 a)) hack) = physical_request a hack"
proof (cases "strto_scan 0 a")
  case None
  then show ?thesis
    by (simp add: bad_addr_def physical_request_def strtoul_def)
next
  case (Some x)
  then have "st_end (strtoul 0 a) \<noteq> a"
    by (simp add: strtoul_end_eq)
  with Some show ?thesis
    by (cases x) (auto simp: bad_addr_def physical_request_def strtoul_def split: list.splits)
qed

lemma perform_Usage: "perform env name Usage = usage_exit name"
  by (simp add: perform_def)

lemma perform_physical:
  "(if bad_addr a then thenR (emit [Stderr (''Invalid address!'' @ nl)]) (ret 1)
    else thenR (dump_page_info env None (st_val (strtoul 0 a)) hack) (ret 0)) =
   perform env name (physical_request a hack)"
  by (simp add: perform_def ret_def flip: bad_addr_cases)

lemma perform_virtual:
  "(if bad_pid p then thenR (emit [Stderr (''Invalid PID!'' @ nl)]) (ret 1)
    else if bad_addr a then thenR (emit [Stderr (''Invalid address!'' @ nl)]) (ret 1)
    else thenR (dump_page_info env (Some p) (st_val (strtoul 0 a)) hack) (ret 0)) =
   perform env name (virtual_request p a hack)"
  by (simp add: perform_def ret_def virtual_request_def bad_pid_iff flip: bad_addr_cases)

lemma main_eq_perform:
  "main env argv = perform env (if argv = [] then ''pageinfo'' else hd argv) (parse_args argv)"
proof (cases argv rule: parse_args.cases)
  case (1 name a)
  then show ?thesis
    by (simp add: main_def flip: perform_physical)
next
  case (2 name a b)
  then show ?thesis
    by (cases "b = ''hack''") (simp_all add: main_def flip: perform_physical perform_virtual)
next
  case (3 name p a h)
  then show ?thesis
    by (cases "h = ''hack''")
      (simp_all add: main_def perform_Usage numeral_eq_Suc flip: perform_virtual)
qed (simp_all add: main_def perform_Usage)

text \<open>
  C2.  \<^verbatim>\<open>main\<close> implements the command line of its usage message: for every argument vector it does
  exactly what the specification \<open>parse_args\<close> says, with the process id (\<^verbatim>\<open>self\<close> or a decimal number
  from 1 to \<^verbatim>\<open>INT_MAX\<close>) and the address (any number that fits 64 bits) checked first.
\<close>

theorem main_refines_parse_args:
  "main env argv = perform env (if argv = [] then ''pageinfo'' else hd argv) (parse_args argv)"
  by (rule main_eq_perform)


subsection \<open>Failures\<close>

lemma read_ulong_Inr:
  "read_ulong_at_offset env path offset = (es, Inr v) \<Longrightarrow> es = [Opened path, Closed path]"
  by (auto simp: read_ulong_at_offset_def split: option.splits prod.splits if_splits)

lemma read_pagemap_Inr:
  "read_pagemap env pid vaddr = (es, Inr pm) \<Longrightarrow>
   es = [Opened (''/proc/'' @ pid @ ''/pagemap''), Closed (''/proc/'' @ pid @ ''/pagemap'')]"
  by (auto simp: read_pagemap_def Let_def stop_def split: if_splits dest: read_ulong_Inr)

lemma main_virtual_hack:
  assumes "good_pid pid"
  shows "main env ([name, pid, ''0x'' @ fmt_lx vaddr] @ (if hack then [''hack''] else [])) =
    thenR (dump_page_info env (Some pid) vaddr hack) (ret 0)"
proof -
  have "physical_request (''0x'' @ fmt_lx vaddr) h = Physical vaddr h" for h
    unfolding physical_request_def strto_scan_0x
    using unsigned_less [of vaddr, where 'a = nat] by simp
  with assms show ?thesis
    by (cases hack) (simp_all add: main_eq_perform virtual_request_def perform_def)
qed

lemma main_virtual:
  "good_pid pid \<Longrightarrow> main env [name, pid, ''0x'' @ fmt_lx vaddr] = thenR (dump_page_info env (Some pid) vaddr False) (ret 0)"
  using main_virtual_hack [of pid env name vaddr False] by (simp only: if_False append_Nil2)

lemma read_pagemap_entry:
  assumes "length pid \<le> 113" and "pf_open env (''/proc/'' @ pid @ ''/pagemap'') = None"
    and "pf_pread env (''/proc/'' @ pid @ ''/pagemap'') (int (unat vaddr div 4096) * 8) = (8, pm, errno)"
  shows "\<exists>es. read_pagemap env pid vaddr = (es, Inr pm)"
  using assms by (simp add: read_pagemap_def read_ulong_at_offset_def Let_def sint_frame_times_8)

lemma main_prints_paddr:
  assumes "good_pid pid" and "read_pagemap env pid vaddr = (es, Inr pm)" and "has pm PM_PRESENT"
  shows "\<exists>pre rest. stdout_of (fst (main env [name, pid, ''0x'' @ fmt_lx vaddr])) =
    pre @ ''Paddr: 0x'' @ fmt_lx (paddr_of pm vaddr) @ '','' @ rest"
proof -
  have "\<exists>hdr tail. fst (main env [name, pid, ''0x'' @ fmt_lx vaddr]) =
      hdr @ Stdout (pagemap_location pm vaddr) # tail"
    unfolding main_virtual [OF assms(1)] dump_page_info_def dump_pagemap_def using assms(2)
    by (simp add: run_defs) (metis append_Cons)
  then obtain hdr tail where "fst (main env [name, pid, ''0x'' @ fmt_lx vaddr]) =
      hdr @ Stdout (pagemap_location pm vaddr) # tail"
    by (elim exE)
  moreover obtain rest where "pagemap_location pm vaddr = ''Paddr: 0x'' @ fmt_lx (paddr_of pm vaddr) @ '','' @ rest"
    using pagemap_location_present [OF assms(3)] by simp
  ultimately show ?thesis
    by (intro exI [of _ "stdout_of hdr"] exI [of _ "rest @ stdout_of tail"]) simp
qed

text \<open>The number on the line after the first one, if that is the line with the physical address.\<close>

definition paddr_field :: "string \<Rightarrow> string option" where
  "paddr_field out =
     (let line = drop 1 (dropWhile (\<lambda>c. c \<noteq> CHR 0x0A) out)
      in if take 7 line = ''Paddr: '' then Some (takeWhile (\<lambda>c. c \<noteq> CHR '','') (drop 7 line)) else None)"

lemma paddr_field_shown:
  "paddr_field (''Vaddr: 0x'' @ fmt_lx v @ '', page: 0x'' @ fmt_lx p @ nl @ ''Paddr: 0x'' @ fmt_lx a @ '','' @ rest) =
     Some (''0x'' @ fmt_lx a)"
proof -
  have "\<forall>c \<in> set (''Vaddr: 0x'' @ fmt_lx v @ '', page: 0x'' @ fmt_lx p). c \<noteq> CHR 0x0A"
    using fmt_lx_chars by fastforce
  then have "dropWhile (\<lambda>c. c \<noteq> CHR 0x0A) ((''Vaddr: 0x'' @ fmt_lx v @ '', page: 0x'' @ fmt_lx p) @ CHR 0x0A # s) = CHR 0x0A # s" for s
    by (subst dropWhile_append2) auto
  moreover have "takeWhile (\<lambda>c. c \<noteq> CHR '','') (''0x'' @ fmt_lx a @ '','' @ rest) = ''0x'' @ fmt_lx a"
    using fmt_lx_chars [of _ a] takeWhile_append2 [of "fmt_lx a" "\<lambda>c. c \<noteq> CHR '',''" "'','' @ rest"] by auto
  ultimately show ?thesis
    by (simp add: paddr_field_def nl_def)
qed

text \<open>
  C12.  The two modes of the program agree.  If the page of \<open>vaddr\<close> in process \<open>pid\<close> is present, in a frame whose
  number is below 2^52 (the architectural limit of physical addresses), a run of the program on the process and
  the virtual address prints a physical address and ends by dumping the flags and the count of the frame; a run
  on the physical address that the first one printed, as it printed it, dumps the flags and the count of the same
  frame.
\<close>

theorem main_paddr_fed_back:
  assumes "good_pid pid" and "read_pagemap env pid vaddr = (es, Inr pm)" and "has pm PM_PRESENT"
    and "unat (pm AND PM_PFRAME_MASK) < 2 ^ 52"
  shows "\<exists>paddr pre hdr.
    paddr_field (stdout_of (fst (main env ([name, pid, ''0x'' @ fmt_lx vaddr] @ (if hack then [''hack''] else []))))) =
      Some paddr \<and>
    main env ([name, pid, ''0x'' @ fmt_lx vaddr] @ (if hack then [''hack''] else [])) =
      thenR (emit pre) (thenR (dump_kpageflags_kpagecount env (pm AND PM_PFRAME_MASK) hack True) (ret 0)) \<and>
    main env ([name, paddr] @ (if hack then [''hack''] else [])) =
      thenR (emit [hdr]) (thenR (dump_kpageflags_kpagecount env (pm AND PM_PFRAME_MASK) hack False) (ret 0))"
proof -
  let ?a = "paddr_of pm vaddr" and ?run = "main env ([name, pid, ''0x'' @ fmt_lx vaddr] @ (if hack then [''hack''] else []))"
  let ?kpage = "\<lambda>spacing. thenR (dump_kpageflags_kpagecount env (pm AND PM_PFRAME_MASK) hack spacing) (ret 0)"
  define pre where "pre = Stdout (''Vaddr: 0x'' @ fmt_lx vaddr @ '', page: 0x'' @ fmt_lx (vaddr AND PAGE_MASK) @ nl) # es @
    fst (dump_pagemap pm vaddr)"
  have flags: "has pm PM_FLAGS"
    using assms(3) by (simp add: PM_FLAGS_def has_or)
  have "dump_page_info env (Some pid) vaddr hack =
      thenR (emit pre) (dump_kpageflags_kpagecount env (pm AND PM_PFRAME_MASK) hack True)"
    using assms(2,3) flags by (simp add: dump_page_info_def dump_pagemap_def run_defs pre_def)
  then have virt: "?run = thenR (emit pre) (?kpage True)"
    unfolding main_virtual_hack [OF assms(1)] by (simp only: thenR_assoc)
  have "stdout_of es = []"
    using read_pagemap_Inr [OF assms(2)] by simp
  then obtain rest where "stdout_of (fst ?run) =
      ''Vaddr: 0x'' @ fmt_lx vaddr @ '', page: 0x'' @ fmt_lx (vaddr AND PAGE_MASK) @ nl @ ''Paddr: 0x'' @ fmt_lx ?a @ '','' @ rest"
    unfolding virt pre_def using pagemap_location_present [OF assms(3)] by (simp add: dump_pagemap_def run_defs)
  then have field: "paddr_field (stdout_of (fst ?run)) = Some (''0x'' @ fmt_lx ?a)"
    by (simp only: paddr_field_shown)
  have "physical_request (''0x'' @ fmt_lx ?a) h = Physical ?a h" for h
    unfolding physical_request_def strto_scan_0x using unsigned_less [of ?a, where 'a = nat] by simp
  then have "main env ([name, ''0x'' @ fmt_lx ?a] @ (if hack then [''hack''] else [])) =
      thenR (dump_page_info env None ?a hack) (ret 0)"
    by (cases hack) (simp_all add: main_eq_perform perform_def)
  then have "\<exists>hdr. main env ([name, ''0x'' @ fmt_lx ?a] @ (if hack then [''hack''] else [])) =
      thenR (emit [hdr]) (?kpage False)"
    unfolding dump_page_info_def option.case frame_of_paddr_of [OF assms(4)] thenR_assoc by blast
  with virt field show ?thesis by blast
qed

theorem main_paddr_fed_back_witness:
  "\<exists>paddr pre hdr.
    paddr_field (stdout_of (fst (main demo_procfs [''pageinfo'', ''self'', ''0x'' @ fmt_lx 0x7f0000000abc, ''hack'']))) =
      Some paddr \<and>
    main demo_procfs [''pageinfo'', ''self'', ''0x'' @ fmt_lx 0x7f0000000abc, ''hack''] =
      thenR (emit pre) (thenR (dump_kpageflags_kpagecount demo_procfs 0x1234 True True) (ret 0)) \<and>
    main demo_procfs [''pageinfo'', paddr, ''hack''] =
      thenR (emit [hdr]) (thenR (dump_kpageflags_kpagecount demo_procfs 0x1234 True False) (ret 0))"
proof -
  have "good_pid ''self''" by (simp add: good_pid_def)
  moreover have "read_pagemap demo_procfs ''self'' 0x7f0000000abc =
      ([Opened ''/proc/self/pagemap'', Closed ''/proc/self/pagemap''], Inr 0x8000000000001234)"
    by (simp add: read_pagemap_def read_ulong_at_offset_def demo_procfs_def Let_def)
  moreover have "has 0x8000000000001234 PM_PRESENT"
    by (simp add: has_def PM_PRESENT_def)
  moreover have "0x8000000000001234 AND PM_PFRAME_MASK = 0x1234"
    by (simp add: PM_PFRAME_MASK_def)
  ultimately show ?thesis
    using main_paddr_fed_back [of "''self''" demo_procfs "0x7f0000000abc" _ "0x8000000000001234" "''pageinfo''" True] by simp
qed

text \<open>
  When standard output is not a terminal, asking for a page without pagemap flags fails without
  a word: the process ends with status 1, nothing is written to standard output, because \<^verbatim>\<open>_exit\<close>
  does not flush it, and nothing to standard error.  On a terminal the explanation appears.
\<close>

theorem no_flags_fails_silently:
  assumes "good_pid pid" and "read_pagemap env pid vaddr = (es, Inr pm)" and "\<not> has pm PM_FLAGS"
  shows "let r = main env [name, pid, ''0x'' @ fmt_lx vaddr]
    in exit_status r = Some 1 \<and> written False r = [] \<and> stderr_of (fst r) = [] \<and>
       (\<exists>s. written True r = s @ '' no flags set, page does not exist?'' @ nl)"
proof -
  have es: "stdout_of es = []" "stderr_of es = []"
    using read_pagemap_Inr [OF assms(2)] by simp_all
  define r where "r = main env [name, pid, ''0x'' @ fmt_lx vaddr]"
  define msg where "msg = '' no flags set, page does not exist?''"
  obtain hdr line where "r =
      (Stdout hdr # es @ [Stdout (pagemap_location pm vaddr), Stdout line, Stdout (msg @ nl)], Inl (Exit_now 1))"
    unfolding r_def main_virtual [OF assms(1)] using assms(2,3)
    by (simp add: dump_page_info_def dump_pagemap_def run_defs msg_def)
  then obtain s where r: "stdout_of (fst r) = (s @ msg) @ nl" "stderr_of (fst r) = []"
      "snd r = Inl (Exit_now 1)"
    using es by simp
  then have "written True r = s @ msg @ nl"
    unfolding written_def r complete_lines_nl by simp
  with r show ?thesis
    unfolding r_def [symmetric] msg_def [symmetric] Let_def
    by (auto simp: exit_status_def written_def)
qed

theorem no_flags_fails_silently_witness:
  "exit_status (main demo_procfs [''pageinfo'', ''7'', ''0x'' @ fmt_lx 0x1000]) = Some 1 \<and>
   written False (main demo_procfs [''pageinfo'', ''7'', ''0x'' @ fmt_lx 0x1000]) = []"
proof -
  have "good_pid ''7''"
    by (simp add: good_pid_def strto_scan_def scan_sign_def scan_prefix_def starts_digit_def isspace_def
      digit_of_char_def)
  moreover have "read_pagemap demo_procfs ''7'' 0x1000 =
      ([Opened ''/proc/7/pagemap'', Closed ''/proc/7/pagemap''], Inr 0)"
    by (simp add: read_pagemap_def read_ulong_at_offset_def demo_procfs_def Let_def)
  ultimately show ?thesis
    using no_flags_fails_silently [of "''7''" demo_procfs "0x1000" _ 0 "''pageinfo''"]
    by (simp add: Let_def)
qed

text \<open>
  C33.  The 128-byte path buffer of \<^verbatim>\<open>read_pagemap\<close> is overrun exactly by process ids of more than
  113 characters, and \<^verbatim>\<open>main\<close> lets such ids through: any number of leading zeros is accepted.
\<close>

theorem pagemap_path_overflow:
  "(snd (read_pagemap env pid vaddr) = Inl (Undefined ''sprintf past path[128]'') \<longleftrightarrow> length pid > 113) \<and>
   good_pid (replicate n (CHR ''0'') @ ''1'') \<and>
   (n \<ge> 113 \<longrightarrow>
      snd (main env [name, replicate n (CHR ''0'') @ ''1'', ''0x'' @ fmt_lx vaddr]) =
        Inl (Undefined ''sprintf past path[128]''))"
proof -
  have read: "snd (read_pagemap env p vaddr) = Inl (Undefined ''sprintf past path[128]'') \<longleftrightarrow> length p > 113"
    for p
    by (auto simp: read_pagemap_def read_ulong_at_offset_def Let_def stop_def
      split: option.splits prod.splits)
  have zeros: "scan_digits 10 (replicate n (CHR ''0'') @ ''1'') 0 = (1, [])"
    by (induction n) (simp_all add: digit_of_char_def)
  have good: "good_pid (replicate n (CHR ''0'') @ ''1'')"
    using zeros
    by (cases n) (simp_all add: good_pid_def strto_scan_def scan_sign_def scan_prefix_def
      starts_digit_def isspace_def digit_of_char_def)
  have "snd (main env [name, replicate n (CHR ''0'') @ ''1'', ''0x'' @ fmt_lx vaddr]) =
      Inl (Undefined ''sprintf past path[128]'')" if "n \<ge> 113"
    using that unfolding main_virtual [OF good]
    by (simp add: dump_page_info_def run_defs read_pagemap_def Let_def)
  with read good show ?thesis by blast
qed

theorem pagemap_path_overflow_witness:
  "snd (main demo_procfs [''pageinfo'', replicate 113 (CHR ''0'') @ ''1'', ''0x'' @ fmt_lx 0]) =
     Inl (Undefined ''sprintf past path[128]'')"
  using pagemap_path_overflow [of demo_procfs "''1''" 0 113 "''pageinfo''"] by simp

lemma settles_read_ulong [settles_intros]: "settles file_delta (read_ulong_at_offset env path offset)"
  by (auto simp: settles_def read_ulong_at_offset_def balanced_def split: option.splits prod.splits)

lemma settles_read_pagemap [settles_intros]: "settles file_delta (read_pagemap env pid vaddr)"
  unfolding read_pagemap_def Let_def by (intro settles_intros)

lemma settles_dump_pagemap [settles_intros]: "settles file_delta (dump_pagemap pm vaddr)"
  unfolding dump_pagemap_def by (intro settles_intros) (simp_all add: balanced_def)

lemma settles_kpage [settles_intros]:
  "settles file_delta (dump_kpageflags_kpagecount env pfn hack spacing)"
  unfolding dump_kpageflags_kpagecount_def by (intro settles_intros) (simp add: balanced_def)

lemma settles_dump_page_info: "settles file_delta (dump_page_info env pid addr hack)"
  unfolding dump_page_info_def
  by (cases pid; simp only: option.case; intro settles_intros) (simp_all add: balanced_def)

text \<open>
  A run that returns 0 has closed every file it opened, whatever the arguments and the system.
\<close>

theorem main_closes_files:
  assumes "snd (main env argv) = Inr 0"
  shows "balanced file_delta (fst (main env argv))"
proof -
  have "settles file_delta (main env argv)"
    unfolding main_eq_perform perform_def usage_exit_def
    by (auto split: request.splits intro!: settles_intros settles_dump_page_info)
      (auto simp: settles_def stop_def balanced_def)
  with assms show ?thesis
    by (simp add: settles_def)
qed

theorem main_closes_files_witness:
  "snd (main demo_procfs [''pageinfo'', ''0x'' @ fmt_lx 0x1234abc]) = Inr 0 \<and>
   balanced file_delta (fst (main demo_procfs [''pageinfo'', ''0x'' @ fmt_lx 0x1234abc]))"
proof -
  have "physical_request (''0x'' @ fmt_lx 0x1234abc) False = Physical 0x1234abc False"
    unfolding physical_request_def strto_scan_0x by simp
  then have "snd (main demo_procfs [''pageinfo'', ''0x'' @ fmt_lx 0x1234abc]) = Inr 0"
    by (simp add: main_eq_perform perform_def dump_page_info_def dump_kpageflags_kpagecount_def
      read_ulong_at_offset_def demo_procfs_def run_defs)
  with main_closes_files [OF this] show ?thesis by simp
qed

end
