(* ===== verification/Kernel.thy ===== *)
theory Kernel
  imports Libc
begin

text \<open>
  What the kernel modules share: the kernel log (\<^verbatim>\<open>pr_info\<close> and its kin, with the \<^verbatim>\<open>pr_fmt\<close> prefix
  every module defines), the error numbers they return, the outcome of a call that returns a pointer,
  the events and resources their runs are judged by, the lookup of a task by its pid, and the contract
  of loading and unloading.
\<close>

section \<open>The kernel log\<close>

datatype level = KERN_ERR | KERN_WARNING | KERN_INFO | KERN_DEBUG | KERN_CONT

text \<open>
  A log line is its level and its text.  \<^verbatim>\<open>pr_fmt\<close> puts the module's name before the format of every
  \<^verbatim>\<open>pr_*\<close> macro but \<^verbatim>\<open>pr_cont\<close>.
\<close>

type_synonym log_line = "level \<times> string"

definition pr :: "level \<Rightarrow> string \<Rightarrow> string \<Rightarrow> log_line" where
  "pr lvl modname s = (lvl, modname @ '': '' @ s)"

definition pr_cont :: "string \<Rightarrow> log_line" where
  "pr_cont s = (KERN_CONT, s)"

section \<open>Error numbers and pointers\<close>

definition ESRCH :: int where "ESRCH = 3"
definition ENOMEM :: int where "ENOMEM = 12"
definition EFAULT :: int where "EFAULT = 14"
definition EINVAL :: int where "EINVAL = 22"
definition ECANCELED :: int where "ECANCELED = 125"

lemmas errno_defs [const_simps] = ESRCH_def ENOMEM_def EFAULT_def EINVAL_def ECANCELED_def

text \<open>A pointer returned by the kernel: valid, null, or an error number in disguise.\<close>

datatype 'a kptr = Ptr 'a | Null | Err_ptr int

fun is_err :: "'a kptr \<Rightarrow> bool" where
  "is_err (Err_ptr _) = True"
| "is_err _ = False"

fun ptr_err :: "'a kptr \<Rightarrow> int" where
  "ptr_err (Err_ptr e) = e"
| "ptr_err _ = 0"

section \<open>What a module does that can be seen\<close>

text \<open>
  The calls of the kernel a module's behaviour is judged by: its log lines, the references it takes and
  gives back on a \<^verbatim>\<open>struct pid\<close>, a task and an address space, the locks it takes, the memory it
  allocates, the probes it registers, and the sections in which it cannot be moved to another processor.
\<close>

datatype kevent =
  Log log_line
| Get_pid nat
| Put_pid nat
| Get_task nat
| Put_task nat
| Task_lock nat
| Task_unlock nat
| Mmget nat
| Mmput nat
| Rcu_read_lock
| Rcu_read_unlock
| Kmalloc nat
| Kfree nat
| Register_kprobe string
| Unregister_kprobe string
| Get_cpu nat
| Put_cpu

fun logs :: "kevent list \<Rightarrow> log_line list" where
  "logs [] = []"
| "logs (Log l # es) = l # logs es"
| "logs (_ # es) = logs es"

datatype kresource =
  Pid_ref nat
| Task_ref nat
| Alloc_lock nat
| Mm_ref nat
| Rcu
| Node nat
| Kprobe string
| Preemption_off

fun kdelta :: "kevent \<Rightarrow> kresource \<Rightarrow> int" where
  "kdelta (Log l) r = 0"
| "kdelta (Get_pid p) r = of_bool (r = Pid_ref p)"
| "kdelta (Put_pid p) r = - of_bool (r = Pid_ref p)"
| "kdelta (Get_task t) r = of_bool (r = Task_ref t)"
| "kdelta (Put_task t) r = - of_bool (r = Task_ref t)"
| "kdelta (Task_lock t) r = of_bool (r = Alloc_lock t)"
| "kdelta (Task_unlock t) r = - of_bool (r = Alloc_lock t)"
| "kdelta (Mmget m) r = of_bool (r = Mm_ref m)"
| "kdelta (Mmput m) r = - of_bool (r = Mm_ref m)"
| "kdelta Rcu_read_lock r = of_bool (r = Rcu)"
| "kdelta Rcu_read_unlock r = - of_bool (r = Rcu)"
| "kdelta (Kmalloc a) r = of_bool (r = Node a)"
| "kdelta (Kfree a) r = - of_bool (r = Node a)"
| "kdelta (Register_kprobe s) r = of_bool (r = Kprobe s)"
| "kdelta (Unregister_kprobe s) r = - of_bool (r = Kprobe s)"
| "kdelta (Get_cpu c) r = of_bool (r = Preemption_off)"
| "kdelta Put_cpu r = - of_bool (r = Preemption_off)"

lemma logs_append [simp]: "logs (es @ fs) = logs es @ logs fs"
  by (induction es rule: logs.induct) simp_all

lemma logs_concat: "logs (concat ess) = concat (map logs ess)"
  by (induction ess) simp_all

lemma logs_map_Log [simp]: "logs (map Log ls) = ls"
  by (induction ls) simp_all

lemma net_map_Log [simp]: "net kdelta (map Log ls) r = 0"
  by (induction ls) simp_all

subsection \<open>A task from a pid number\<close>

text \<open>
  \<^verbatim>\<open>get_pid_task(find_get_pid(nr), PIDTYPE_PID)\<close>: both calls return their result with a reference on it,
  and the modules keep no pointer to the \<^verbatim>\<open>struct pid\<close>.
\<close>

definition find_pid_task ::
  "(int \<Rightarrow> nat option) \<Rightarrow> (nat option \<Rightarrow> nat option) \<Rightarrow> int \<Rightarrow> kevent list \<times> nat option" where
  "find_pid_task find_get_pid get_pid_task nr =
     (let p = find_get_pid nr; tsk = get_pid_task p
      in ((case p of None \<Rightarrow> [] | Some n \<Rightarrow> [Get_pid n]) @
          (case tsk of None \<Rightarrow> [] | Some t \<Rightarrow> [Get_task t]), tsk))"

lemma logs_find_pid_task [simp]: "logs (fst (find_pid_task f g nr)) = []"
  by (simp add: find_pid_task_def Let_def split: option.splits)

lemma snd_find_pid_task [simp]: "snd (find_pid_task f g nr) = g (f nr)"
  by (simp add: find_pid_task_def Let_def)

text \<open>The references it leaves the caller with.\<close>

definition pid_held :: "(int \<Rightarrow> nat option) \<Rightarrow> int \<Rightarrow> kresource \<Rightarrow> int" where
  "pid_held find_get_pid nr r = (case find_get_pid nr of None \<Rightarrow> 0 | Some p \<Rightarrow> of_bool (r = Pid_ref p))"

lemma net_find_pid_task [simp]:
  "net kdelta (fst (find_pid_task f g nr)) r =
     pid_held f nr r + (case g (f nr) of None \<Rightarrow> 0 | Some t \<Rightarrow> of_bool (r = Task_ref t))"
  by (simp add: find_pid_task_def pid_held_def Let_def split: option.splits)

section \<open>Loading and unloading\<close>

text \<open>
  A module is loaded by running its entry point, and unloaded, when that returned 0, by running its exit
  point; a failed load is not followed by the exit point.  \<open>load_cycles\<close> is what a sequence of such
  cycles does, the kernel being in the state \<open>e\<close> for each load.
\<close>

definition load_cycle :: "('e \<Rightarrow> 'v list \<times> int) \<Rightarrow> ('e \<Rightarrow> 'v list) \<Rightarrow> 'e \<Rightarrow> 'v list" where
  "load_cycle init exit e = fst (init e) @ (if snd (init e) = 0 then exit e else [])"

definition load_cycles :: "('e \<Rightarrow> 'v list \<times> int) \<Rightarrow> ('e \<Rightarrow> 'v list) \<Rightarrow> 'e list \<Rightarrow> 'v list" where
  "load_cycles init exit states = concat (map (load_cycle init exit) states)"

text \<open>
  What a well-behaved module promises: it gives back whatever it acquires, at the latest when it is
  unloaded, and at once when it refuses to load.  Then no number of loads adds up to anything.
\<close>

locale kernel_module =
  fixes init :: "'e \<Rightarrow> 'v list \<times> int"
    and exit :: "'e \<Rightarrow> 'v list"
    and delta :: "'v \<Rightarrow> 'r \<Rightarrow> int"
  assumes loaded: "snd (init e) = 0 \<Longrightarrow> balanced delta (fst (init e) @ exit e)"
    and refused: "snd (init e) \<noteq> 0 \<Longrightarrow> balanced delta (fst (init e))"
begin

lemma cycle_balanced: "balanced delta (load_cycle init exit e)"
  using loaded [of e] refused [of e] by (simp add: load_cycle_def)

lemma cycles_balanced: "balanced delta (load_cycles init exit states)"
  by (induction states) (simp_all add: load_cycles_def balanced_append cycle_balanced)

end

text \<open>
  A module that keeps a reference per load, \<open>leak e r\<close> on the resource \<open>r\<close> when the kernel is in the
  state \<open>e\<close>, adds them up.
\<close>

locale leaking_module =
  fixes init :: "'e \<Rightarrow> 'v list \<times> int"
    and exit :: "'e \<Rightarrow> 'v list"
    and delta :: "'v \<Rightarrow> 'r \<Rightarrow> int"
    and leak :: "'e \<Rightarrow> 'r \<Rightarrow> int"
  assumes net_cycle: "net delta (load_cycle init exit e) r = leak e r"
begin

lemma net_cycles: "net delta (load_cycles init exit states) r = (\<Sum>e\<leftarrow>states. leak e r)"
  by (simp add: load_cycles_def net_concat net_cycle comp_def)

lemma net_repeated: "net delta (load_cycles init exit (replicate n e)) r = int n * leak e r"
  by (simp add: net_cycles sum_list_replicate)

end

text \<open>A well-behaved module is one that leaks nothing.\<close>

sublocale kernel_module \<subseteq> leaking_module init exit delta "\<lambda>_ _. 0"
  using cycle_balanced by unfold_locales (simp add: balanced_def)

end
