(* ===== verification/Page_Entries.thy ===== *)
theory Page_Entries
  imports Kernel Flag_Tables
begin

text \<open>
  The first half of \<^verbatim>\<open>modules/page_table_walk.c\<close>: the dump of the page table macros, the physical
  address helpers, the inversion of PROTNONE entries and the dump of one entry of each level.  The
  macros and helpers that the module takes from the kernel headers are parameters, grouped in
  records; the module's own \<^verbatim>\<open>#if\<close> and \<^verbatim>\<open>#ifdef\<close> branches are tests of a parameter.
\<close>

section \<open>The kernel headers\<close>

text \<open>Sizes and masks.\<close>

record pt_macros =
  k_since_6_2 :: bool
  k_PGDIR_SHIFT :: nat
  k_P4D_SHIFT :: nat
  k_PUD_SHIFT :: nat
  k_PMD_SHIFT :: nat
  k_PAGE_SHIFT :: nat
  k_PTRS_PER_PGD :: nat
  k_PTRS_PER_P4D :: nat
  k_PTRS_PER_PUD :: nat
  k_PTRS_PER_PMD :: nat
  k_PTRS_PER_PTE :: nat
  k_PGDIR_MASK :: u64
  k_P4D_MASK :: u64
  k_PUD_MASK :: u64
  k_PUD_PAGE_MASK :: u64
  k_PMD_MASK :: u64
  k_PMD_PAGE_MASK :: u64
  k_PAGE_MASK :: u64
  k_PHYSICAL_PAGE_MASK :: u64
  k_PHYSICAL_PMD_PAGE_MASK :: u64
  k_PHYSICAL_PUD_PAGE_MASK :: u64
  k_PTE_PFN_MASK :: u64
  k_PAGE_OFFSET :: u64

text \<open>The \<^verbatim>\<open>_PAGE_*\<close> flags and the configuration options that the module tests.\<close>

record pt_flags =
  k_PAGE_PRESENT :: u64
  k_PAGE_RW :: u64
  k_PAGE_USER :: u64
  k_PAGE_PWT :: u64
  k_PAGE_PCD :: u64
  k_PAGE_ACCESSED :: u64
  k_PAGE_DIRTY :: u64
  k_PAGE_PROTNONE :: u64
  k_PAGE_UFFD_WP :: u64
  k_PAGE_SOFT_DIRTY :: u64
  k_PAGE_NX :: u64
  k_PAGE_PKEY_MASK :: u64
  k_PAGE_BIT_PKEY_BIT0 :: nat
  k_PAGE_SWP_UFFD_WP :: u64
  k_PAGE_SWP_SOFT_DIRTY :: u64
  k_PAGE_PAT :: u64
  k_PAGE_PAT_LARGE :: u64
  k_CONFIG_USERFAULTFD_WP :: bool
  k_CONFIG_SOFT_DIRTY :: bool
  k_CONFIG_THP_MIGRATION :: bool

text \<open>
  The helpers on entries.  An entry of any level is its 64-bit value, a pointer to an entry its
  address, and memory a function from addresses to entries.
\<close>

type_synonym memory = "u64 \<Rightarrow> u64"

record pt_ops =
  k_pgd_index :: "u64 \<Rightarrow> u64"
  k_p4d_index :: "u64 \<Rightarrow> u64"
  k_pud_index :: "u64 \<Rightarrow> u64"
  k_pmd_index :: "u64 \<Rightarrow> u64"
  k_pte_index :: "u64 \<Rightarrow> u64"
  k_pgd_present :: "u64 \<Rightarrow> bool"
  k_p4d_present :: "u64 \<Rightarrow> bool"
  k_pud_flags :: "u64 \<Rightarrow> u64"
  k_pud_leaf :: "u64 \<Rightarrow> bool"
  k_pmd_none :: "u64 \<Rightarrow> bool"
  k_pmd_present :: "u64 \<Rightarrow> bool"
  k_pmd_leaf :: "u64 \<Rightarrow> bool"
  k_pte_none :: "u64 \<Rightarrow> bool"
  k_pte_present :: "u64 \<Rightarrow> bool"
  k_pud_pfn :: "u64 \<Rightarrow> u64"
  k_pmd_pfn :: "u64 \<Rightarrow> u64"
  k_pte_pfn :: "u64 \<Rightarrow> u64"
  k_zero_pfn :: u64
  k_pte_needs_invert :: "u64 \<Rightarrow> bool"
  k_pmd_to_swp_entry :: "u64 \<Rightarrow> u64"
  k_pte_to_swp_entry :: "u64 \<Rightarrow> u64"
  k_swp_type :: "u64 \<Rightarrow> u32"
  k_swp_offset :: "u64 \<Rightarrow> u64"

record kernel =
  k_mac :: pt_macros
  k_flg :: pt_flags
  k_ops :: pt_ops

section \<open>Macros\<close>

text \<open>Before Linux 6.2 the module takes \<^verbatim>\<open>PMD_PAGE_MASK\<close> and \<^verbatim>\<open>PUD_PAGE_MASK\<close> for these two.\<close>

definition PMD_MASK :: "kernel \<Rightarrow> u64" where
  "PMD_MASK k = (if k_since_6_2 (k_mac k) then k_PMD_MASK (k_mac k) else k_PMD_PAGE_MASK (k_mac k))"

definition PUD_MASK :: "kernel \<Rightarrow> u64" where
  "PUD_MASK k = (if k_since_6_2 (k_mac k) then k_PUD_MASK (k_mac k) else k_PUD_PAGE_MASK (k_mac k))"

definition pr_info :: "string \<Rightarrow> log_line" where
  "pr_info s = pr KERN_INFO ''page_table_walk'' s"

definition dump_macros :: "kernel \<Rightarrow> log_line list" where
  "dump_macros k = (let m = k_mac k in
     [pr_info (''PGDIR_SHIFT            = '' @ fmt_d (int (k_PGDIR_SHIFT m)) @ nl),
      pr_info (''P4D_SHIFT              = '' @ fmt_d (int (k_P4D_SHIFT m)) @ nl),
      pr_info (''PUD_SHIFT              = '' @ fmt_d (int (k_PUD_SHIFT m)) @ nl),
      pr_info (''PMD_SHIFT              = '' @ fmt_d (int (k_PMD_SHIFT m)) @ nl),
      pr_info (''PAGE_SHIFT             = '' @ fmt_d (int (k_PAGE_SHIFT m)) @ nl),
      pr_info (''PTRS_PER_PGD           = '' @ fmt_d (int (k_PTRS_PER_PGD m)) @ nl),
      pr_info (''PTRS_PER_P4D           = '' @ fmt_d (int (k_PTRS_PER_P4D m)) @ nl),
      pr_info (''PTRS_PER_PUD           = '' @ fmt_d (int (k_PTRS_PER_PUD m)) @ nl),
      pr_info (''PTRS_PER_PMD           = '' @ fmt_d (int (k_PTRS_PER_PMD m)) @ nl),
      pr_info (''PTRS_PER_PTE           = '' @ fmt_d (int (k_PTRS_PER_PTE m)) @ nl),
      pr_info (''PGDIR_MASK             = 0x'' @ fmt_016lx (k_PGDIR_MASK m) @ nl),
      pr_info (''P4D_MASK               = 0x'' @ fmt_016lx (k_P4D_MASK m) @ nl),
      pr_info (''PUD_MASK               = 0x'' @ fmt_016lx (PUD_MASK k) @ nl),
      pr_info (''PMD_MASK               = 0x'' @ fmt_016lx (PMD_MASK k) @ nl),
      pr_info (''PAGE_MASK              = 0x'' @ fmt_016lx (k_PAGE_MASK m) @ nl),
      pr_info (''PHYSICAL_PAGE_MASK     = 0x'' @ fmt_016lx (k_PHYSICAL_PAGE_MASK m) @ nl),
      pr_info (''PHYSICAL_PMD_PAGE_MASK = 0x'' @ fmt_016lx (k_PHYSICAL_PMD_PAGE_MASK m) @ nl),
      pr_info (''PHYSICAL_PUD_PAGE_MASK = 0x'' @ fmt_016lx (k_PHYSICAL_PUD_PAGE_MASK m) @ nl),
      pr_info (''PTE_PFN_MASK           = 0x'' @ fmt_016lx (k_PTE_PFN_MASK m) @ nl),
      pr_info (''PAGE_OFFSET            = 0x'' @ fmt_016lx (k_PAGE_OFFSET m) @ nl)])"

section \<open>Addresses and values\<close>

definition pud_present_good :: "kernel \<Rightarrow> u64 \<Rightarrow> bool" where
  "pud_present_good k pud \<longleftrightarrow>
     has (k_pud_flags (k_ops k) pud) (k_PAGE_PRESENT (k_flg k) OR k_PAGE_PROTNONE (k_flg k))"

definition pud_paddr :: "kernel \<Rightarrow> u64 \<Rightarrow> u64 \<Rightarrow> u64" where
  "pud_paddr k pud vaddr =
     push_bit (k_PAGE_SHIFT (k_mac k)) (k_pud_pfn (k_ops k) pud) OR (vaddr AND NOT (PUD_MASK k))"

definition pmd_paddr :: "kernel \<Rightarrow> u64 \<Rightarrow> u64 \<Rightarrow> u64" where
  "pmd_paddr k pmd vaddr =
     push_bit (k_PAGE_SHIFT (k_mac k)) (k_pmd_pfn (k_ops k) pmd) OR (vaddr AND NOT (PMD_MASK k))"

definition pte_paddr :: "kernel \<Rightarrow> u64 \<Rightarrow> u64 \<Rightarrow> u64" where
  "pte_paddr k pte vaddr =
     push_bit (k_PAGE_SHIFT (k_mac k)) (k_pte_pfn (k_ops k) pte) OR (vaddr AND NOT (k_PAGE_MASK (k_mac k)))"

definition is_zero_page_pte :: "kernel \<Rightarrow> u64 \<Rightarrow> bool" where
  "is_zero_page_pte k pte \<longleftrightarrow> k_pte_pfn (k_ops k) pte = k_zero_pfn (k_ops k)"

definition invert_val_if_needed :: "kernel \<Rightarrow> u64 \<Rightarrow> u64" where
  "invert_val_if_needed k val =
     (let mask = k_PHYSICAL_PAGE_MASK (k_mac k)
      in if k_pte_needs_invert (k_ops k) val then (val AND NOT mask) OR (NOT val AND mask) else val)"

section \<open>Flags\<close>

definition common_table :: "kernel \<Rightarrow> flag_entry list" where
  "common_table k = (let f = k_flg k in
     [flag (k_PAGE_PRESENT f) '' PRESENT'',
      flag (k_PAGE_RW f) '' RW'',
      (k_PAGE_USER f, '' USER'', '' KERNEL''),
      flag (k_PAGE_PWT f) '' PWT'',
      flag (k_PAGE_PCD f) '' PCD'',
      flag (k_PAGE_ACCESSED f) '' ACCESSED''])"

text \<open>A flag dump whose statements are one \<^verbatim>\<open>pr_cont\<close> each.\<close>

definition cont_flags :: "flag_entry list \<Rightarrow> u64 \<Rightarrow> log_line list" where
  "cont_flags tbl val =
     concat (map (\<lambda>(m, on, off).
       if has val m then [pr_cont on] else if off = [] then [] else [pr_cont off]) tbl)"

definition dump_flags_common :: "kernel \<Rightarrow> u64 \<Rightarrow> log_line list" where
  "dump_flags_common k val = cont_flags (common_table k) val"

definition dump_flags_last_level :: "kernel \<Rightarrow> u64 \<Rightarrow> bool \<Rightarrow> log_line list" where
  "dump_flags_last_level k val pke = (let f = k_flg k in
     (if has val (k_PAGE_DIRTY f) then [pr_cont '' DIRTY''] else []) @
     (if has val (k_PAGE_PROTNONE f)
      then (if has val (k_PAGE_PRESENT f) then [pr_cont '' GLOBAL''] else [pr_cont '' PROTNONE'']) else []) @
     (if k_CONFIG_USERFAULTFD_WP f \<and> has val (k_PAGE_UFFD_WP f) then [pr_cont '' UFFD_WP''] else []) @
     (if k_CONFIG_SOFT_DIRTY f \<and> has val (k_PAGE_SOFT_DIRTY f) then [pr_cont '' SOFT_DIRTY''] else []) @
     (if has val (k_PAGE_NX f) then [pr_cont '' NX''] else []) @
     (if pke
      then [pr_cont ('' PKEY='' @ fmt_lx (drop_bit (k_PAGE_BIT_PKEY_BIT0 f) (val AND k_PAGE_PKEY_MASK f)))]
      else []))"

definition dump_swap_flags :: "kernel \<Rightarrow> u64 \<Rightarrow> log_line list" where
  "dump_swap_flags k val = (let f = k_flg k in
     (if has val (k_PAGE_PROTNONE f) then [pr_cont '' PROTNONE''] else []) @
     (if k_CONFIG_USERFAULTFD_WP f \<and> has val (k_PAGE_SWP_UFFD_WP f) then [pr_cont '' UFFD_WP''] else []) @
     (if k_CONFIG_SOFT_DIRTY f \<and> has val (k_PAGE_SWP_SOFT_DIRTY f) then [pr_cont '' SOFT_DIRTY''] else []))"

definition dump_swap_entry :: "kernel \<Rightarrow> u64 \<Rightarrow> log_line list" where
  "dump_swap_entry k entry =
     [pr_info (''Swap: type '' @ fmt_lx (ucast (k_swp_type (k_ops k) entry)) @ '' offset '' @
               fmt_lx (k_swp_offset (k_ops k) entry))]"

definition dump_paddr :: "u64 \<Rightarrow> bool \<Rightarrow> log_line list" where
  "dump_paddr paddr is_zero =
     [pr_info (''paddr: 0x'' @ fmt_lx paddr @ (if is_zero then '' (zero page)'' else []) @ nl)]"

section \<open>One entry of each level\<close>

text \<open>What a dump prints, and whether the walk ends there.\<close>

type_synonym dumped = "log_line list \<times> bool"

definition entry_line :: "string \<Rightarrow> u64 \<Rightarrow> u64 \<Rightarrow> log_line" where
  "entry_line label idx val = pr_info (label @ '': idx '' @ fmt_03lx idx @ '' val '' @ fmt_016lx val)"

definition dump_pgd :: "kernel \<Rightarrow> u64 \<Rightarrow> u64 \<Rightarrow> dumped" where
  "dump_pgd k pgd vaddr =
     (let val = pgd; head = [entry_line ''pgd'' (k_pgd_index (k_ops k) vaddr) val]
      in if \<not> k_pgd_present (k_ops k) pgd then (head @ [pr_info (''pgd not present'' @ nl)], True)
         else (head @ dump_flags_common k val @ [pr_cont nl], False))"

definition dump_p4d :: "kernel \<Rightarrow> u64 \<Rightarrow> u64 \<Rightarrow> dumped" where
  "dump_p4d k p4d vaddr =
     (let val = p4d; head = [entry_line ''p4d'' (k_p4d_index (k_ops k) vaddr) val]
      in if \<not> k_p4d_present (k_ops k) p4d then (head @ [pr_info (''p4d not present'' @ nl)], True)
         else (head @ dump_flags_common k val @ [pr_cont nl], False))"

definition dump_pud :: "kernel \<Rightarrow> u64 \<Rightarrow> u64 \<Rightarrow> bool \<Rightarrow> dumped" where
  "dump_pud k pud vaddr pke =
     (let val = invert_val_if_needed k pud;
          head = [entry_line ''pud'' (k_pud_index (k_ops k) vaddr) val]
      in if \<not> pud_present_good k pud then (head @ [pr_cont ('' not present'' @ nl)], True)
         else if k_pud_leaf (k_ops k) pud then
           (head @ dump_flags_common k val @ [pr_cont '' 1G''] @
            (if has val (k_PAGE_PAT_LARGE (k_flg k)) then [pr_cont '' PAT''] else []) @
            dump_flags_last_level k val pke @ [pr_cont nl] @ dump_paddr (pud_paddr k pud vaddr) False, True)
         else (head @ dump_flags_common k val @ [pr_cont nl], False))"

definition dump_pmd :: "kernel \<Rightarrow> u64 \<Rightarrow> u64 \<Rightarrow> bool \<Rightarrow> dumped" where
  "dump_pmd k pmd vaddr pke =
     (let val = invert_val_if_needed k pmd;
          head = [entry_line ''pmd'' (k_pmd_index (k_ops k) vaddr) val]
      in if k_pmd_none (k_ops k) pmd then (head @ [pr_cont ('' none'' @ nl)], True)
         else if \<not> k_pmd_present (k_ops k) pmd then
           (if k_CONFIG_THP_MIGRATION (k_flg k)
            then (head @ dump_swap_flags k val @ [pr_cont nl] @
                  dump_swap_entry k (k_pmd_to_swp_entry (k_ops k) pmd), True)
            else (head @ [pr_cont ('' not present'' @ nl)], True))
         else if k_pmd_leaf (k_ops k) pmd then
           (head @ dump_flags_common k val @ [pr_cont '' 2M''] @
            (if has val (k_PAGE_PAT_LARGE (k_flg k)) then [pr_cont '' PAT''] else []) @
            dump_flags_last_level k val pke @ [pr_cont nl] @ dump_paddr (pmd_paddr k pmd vaddr) False, True)
         else (head @ dump_flags_common k val @ [pr_cont nl], False))"

definition dump_pte :: "kernel \<Rightarrow> u64 \<Rightarrow> u64 \<Rightarrow> bool \<Rightarrow> log_line list" where
  "dump_pte k pte vaddr pke =
     (let val = invert_val_if_needed k pte;
          head = [entry_line ''pte'' (k_pte_index (k_ops k) vaddr) val]
      in if k_pte_none (k_ops k) pte then head @ [pr_cont ('' none'' @ nl)]
         else if \<not> k_pte_present (k_ops k) pte then
           head @ dump_swap_flags k val @ [pr_cont nl] @ dump_swap_entry k (k_pte_to_swp_entry (k_ops k) pte)
         else
           head @ dump_flags_common k val @
           (if has val (k_PAGE_PAT (k_flg k)) then [pr_cont '' PAT''] else []) @
           dump_flags_last_level k val pke @ [pr_cont nl] @
           dump_paddr (pte_paddr k pte vaddr) (is_zero_page_pte k pte))"

section \<open>The headers of x86-64\<close>

text \<open>
  The values of Linux on x86-64 with 52 physical address bits, for 4-level and (\<open>la57\<close>) 5-level
  tables.  With 4 levels the \<^verbatim>\<open>p4d\<close> level is folded into the \<^verbatim>\<open>pgd\<close> and \<^verbatim>\<open>pgd_present\<close> is constantly
  true.
\<close>

definition x86_mask :: "nat \<Rightarrow> u64" where
  "x86_mask n = mask 52 AND NOT (mask n)"

definition x86_index :: "nat \<Rightarrow> u64 \<Rightarrow> u64" where
  "x86_index n va = take_bit 9 (drop_bit n va)"

definition x86_needs_invert :: "u64 \<Rightarrow> bool" where
  "x86_needs_invert e \<longleftrightarrow> e \<noteq> 0 \<and> \<not> bit e 0"

definition x86_pfn :: "u64 \<Rightarrow> u64 \<Rightarrow> u64" where
  "x86_pfn msk e = drop_bit 12 ((e XOR (if x86_needs_invert e then - 1 else 0)) AND msk)"

definition x86_macros :: "bool \<Rightarrow> pt_macros" where
  "x86_macros la57 =
     \<lparr>k_since_6_2 = True, k_PGDIR_SHIFT = (if la57 then 48 else 39), k_P4D_SHIFT = 39, k_PUD_SHIFT = 30,
      k_PMD_SHIFT = 21, k_PAGE_SHIFT = 12, k_PTRS_PER_PGD = 512, k_PTRS_PER_P4D = (if la57 then 512 else 1),
      k_PTRS_PER_PUD = 512, k_PTRS_PER_PMD = 512, k_PTRS_PER_PTE = 512,
      k_PGDIR_MASK = NOT (mask (if la57 then 48 else 39)), k_P4D_MASK = NOT (mask 39),
      k_PUD_MASK = NOT (mask 30), k_PUD_PAGE_MASK = NOT (mask 30),
      k_PMD_MASK = NOT (mask 21), k_PMD_PAGE_MASK = NOT (mask 21), k_PAGE_MASK = NOT (mask 12),
      k_PHYSICAL_PAGE_MASK = x86_mask 12, k_PHYSICAL_PMD_PAGE_MASK = x86_mask 21,
      k_PHYSICAL_PUD_PAGE_MASK = x86_mask 30, k_PTE_PFN_MASK = x86_mask 12,
      k_PAGE_OFFSET = (if la57 then 0xff11000000000000 else 0xffff888000000000)\<rparr>"

definition x86_flags :: pt_flags where
  "x86_flags =
     \<lparr>k_PAGE_PRESENT = shl1 0, k_PAGE_RW = shl1 1, k_PAGE_USER = shl1 2, k_PAGE_PWT = shl1 3,
      k_PAGE_PCD = shl1 4, k_PAGE_ACCESSED = shl1 5, k_PAGE_DIRTY = shl1 6, k_PAGE_PROTNONE = shl1 8,
      k_PAGE_UFFD_WP = shl1 10, k_PAGE_SOFT_DIRTY = shl1 11, k_PAGE_NX = shl1 63,
      k_PAGE_PKEY_MASK = push_bit 59 15, k_PAGE_BIT_PKEY_BIT0 = 59,
      k_PAGE_SWP_UFFD_WP = shl1 2, k_PAGE_SWP_SOFT_DIRTY = shl1 1,
      k_PAGE_PAT = shl1 7, k_PAGE_PAT_LARGE = shl1 12,
      k_CONFIG_USERFAULTFD_WP = True, k_CONFIG_SOFT_DIRTY = True, k_CONFIG_THP_MIGRATION = True\<rparr>"

definition x86_ops :: "bool \<Rightarrow> pt_ops" where
  "x86_ops la57 =
     \<lparr>k_pgd_index = x86_index (if la57 then 48 else 39), k_p4d_index = x86_index 39,
      k_pud_index = x86_index 30, k_pmd_index = x86_index 21, k_pte_index = x86_index 12,
      k_pgd_present = (\<lambda>e. la57 \<longrightarrow> bit e 0), k_p4d_present = (\<lambda>e. bit e 0),
      k_pud_flags = (\<lambda>e. e AND NOT (x86_mask (if bit e 7 then 30 else 12))),
      k_pud_leaf = (\<lambda>e. bit e 0 \<and> bit e 7),
      k_pmd_none = (\<lambda>e. \<not> has e (NOT (shl1 5 OR shl1 6))),
      k_pmd_present = (\<lambda>e. bit e 0 \<or> bit e 8 \<or> bit e 7), k_pmd_leaf = (\<lambda>e. bit e 7),
      k_pte_none = (\<lambda>e. \<not> has e (NOT (shl1 5 OR shl1 6))),
      k_pte_present = (\<lambda>e. bit e 0 \<or> bit e 8),
      k_pud_pfn = (\<lambda>e. x86_pfn (x86_mask (if bit e 7 then 30 else 12)) e),
      k_pmd_pfn = (\<lambda>e. x86_pfn (x86_mask (if bit e 7 then 21 else 12)) e),
      k_pte_pfn = x86_pfn (x86_mask 12), k_zero_pfn = 1, k_pte_needs_invert = x86_needs_invert,
      k_pmd_to_swp_entry = (\<lambda>e. e), k_pte_to_swp_entry = (\<lambda>e. e),
      k_swp_type = (\<lambda>e. ucast (drop_bit 59 e)), k_swp_offset = (\<lambda>e. drop_bit 14 (push_bit 5 (NOT e)))\<rparr>"

definition x86_kernel :: "bool \<Rightarrow> kernel" where
  "x86_kernel la57 = \<lparr>k_mac = x86_macros la57, k_flg = x86_flags, k_ops = x86_ops la57\<rparr>"

lemmas x86_defs = x86_kernel_def x86_macros_def x86_flags_def x86_ops_def

section \<open>Reading the log back\<close>

text \<open>The address of a \<^verbatim>\<open>paddr\<close> line, read with \<^verbatim>\<open>strtoul\<close>; every other line has none.\<close>

fun strip_prefix :: "string \<Rightarrow> string \<Rightarrow> string option" where
  "strip_prefix [] s = Some s"
| "strip_prefix (p # ps) [] = None"
| "strip_prefix (p # ps) (c # cs) = (if c = p then strip_prefix ps cs else None)"

definition printed_paddr :: "log_line \<Rightarrow> u64 option" where
  "printed_paddr l =
     (if fst l = KERN_INFO
      then map_option (\<lambda>r. st_val (strtoul 0 r)) (strip_prefix ''page_table_walk: paddr: '' (snd l))
      else None)"

definition printed_paddrs :: "log_line list \<Rightarrow> u64 list" where
  "printed_paddrs ls = List.map_filter printed_paddr ls"

text \<open>What the continuation lines add to the line that they continue.\<close>

definition line_text :: "log_line list \<Rightarrow> string" where
  "line_text ls =
     takeWhile (\<lambda>c. c \<noteq> CHR 0x0A) (concat (map snd (filter (\<lambda>l. fst l = KERN_CONT) ls)))"

text \<open>
  The bits of an entry that maps a page, as the processor's manual and the kernel's headers document them: bits
  0 to 8 and 63 are the processor's (bit 8 is GLOBAL in a present entry, and the kernel's PROTNONE in one that is
  not), bits 10 and 11 are available to software, and bits 59 to 62 are the protection key.  The last two names
  exist in kernels with these features.
\<close>

definition pte_bits :: "bool \<Rightarrow> bool \<Rightarrow> (nat \<times> string) list" where
  "pte_bits uffd_wp soft_dirty =
     [(0, '' PRESENT''), (1, '' RW''), (2, '' USER''), (3, '' PWT''), (4, '' PCD''), (5, '' ACCESSED''), (6, '' DIRTY''),
      (7, '' PAT''), (8, '' GLOBAL''), (8, '' PROTNONE''), (63, '' NX'')] @
     (if uffd_wp then [(10, '' UFFD_WP'')] else []) @ (if soft_dirty then [(11, '' SOFT_DIRTY'')] else [])"

definition pte_names :: "bool \<Rightarrow> bool \<Rightarrow> flag_entry list" where
  "pte_names uffd_wp soft_dirty = map (\<lambda>(n, name). flag (shl1 n) name) (pte_bits uffd_wp soft_dirty)"

definition documented_bits :: "bool \<Rightarrow> bool \<Rightarrow> u64" where
  "documented_bits uffd_wp soft_dirty =
     0x80000000000001FF OR (if uffd_wp then 0x400 else 0) OR (if soft_dirty then 0x800 else 0)"

text \<open>The headers give the macros the positions of that documentation.\<close>

definition x86_positions :: "pt_flags \<Rightarrow> bool" where
  "x86_positions f \<longleftrightarrow>
     k_PAGE_PRESENT f = shl1 0 \<and> k_PAGE_RW f = shl1 1 \<and> k_PAGE_USER f = shl1 2 \<and> k_PAGE_PWT f = shl1 3 \<and>
     k_PAGE_PCD f = shl1 4 \<and> k_PAGE_ACCESSED f = shl1 5 \<and> k_PAGE_DIRTY f = shl1 6 \<and> k_PAGE_PAT f = shl1 7 \<and>
     k_PAGE_PROTNONE f = shl1 8 \<and> k_PAGE_UFFD_WP f = shl1 10 \<and> k_PAGE_SOFT_DIRTY f = shl1 11 \<and>
     k_PAGE_NX f = shl1 63 \<and> k_PAGE_PKEY_MASK f = push_bit 59 15 \<and> k_PAGE_BIT_PKEY_BIT0 f = 59"

lemma printed_paddrs_simps [simp]:
  "printed_paddrs [] = []"
  "printed_paddrs (l # ls) = (case printed_paddr l of None \<Rightarrow> [] | Some p \<Rightarrow> [p]) @ printed_paddrs ls"
  "printed_paddrs (ls @ ms) = printed_paddrs ls @ printed_paddrs ms"
  by (auto simp: printed_paddrs_def List.map_filter_def split: option.splits)

lemma printed_paddr_cont [simp]: "printed_paddr (pr_cont s) = None"
  by (simp add: printed_paddr_def pr_cont_def)

lemma printed_paddr_info:
  "printed_paddr (pr_info s) = map_option (\<lambda>r. st_val (strtoul 0 r)) (strip_prefix ''paddr: '' s)"
  by (simp add: printed_paddr_def pr_info_def pr_def)

lemma printed_paddr_entry_line [simp]:
  "printed_paddr (entry_line ''pgd'' i v) = None" "printed_paddr (entry_line ''p4d'' i v) = None"
  "printed_paddr (entry_line ''pud'' i v) = None" "printed_paddr (entry_line ''pmd'' i v) = None"
  "printed_paddr (entry_line ''pte'' i v) = None"
  by (simp_all add: entry_line_def printed_paddr_info)

lemma cont_lines_no_paddr:
  "\<forall>l \<in> set ls. \<exists>s. l = pr_cont s \<Longrightarrow> printed_paddrs ls = []"
  by (induction ls) auto

lemma printed_paddrs_flags [simp]:
  "printed_paddrs (dump_flags_common k v) = []" "printed_paddrs (dump_flags_last_level k v pke) = []"
  "printed_paddrs (dump_swap_flags k v) = []"
  by (intro cont_lines_no_paddr;
      auto simp: dump_flags_common_def cont_flags_def dump_flags_last_level_def dump_swap_flags_def Let_def
        split: if_splits)+

lemma printed_paddrs_swap_entry [simp]: "printed_paddrs (dump_swap_entry k e) = []"
  by (simp add: dump_swap_entry_def printed_paddr_info)

lemma printed_paddrs_paddr [simp]: "printed_paddrs (dump_paddr p z) = [p]"
proof -
  have "no_digit ((if z then '' (zero page)'' else []) @ nl)"
    by (simp add: nl_def digit_of_char_def)
  from strtoul_0x_rest [OF this, of p] show ?thesis
    by (simp add: dump_paddr_def printed_paddr_info)
qed

text \<open>What each dump says about the physical address.\<close>

lemma printed_paddrs_dumps:
  "printed_paddrs (fst (dump_pgd k e va)) = []"
  "printed_paddrs (fst (dump_p4d k e va)) = []"
  "printed_paddrs (fst (dump_pud k e va pke)) =
     (if pud_present_good k e \<and> k_pud_leaf (k_ops k) e then [pud_paddr k e va] else [])"
  "printed_paddrs (fst (dump_pmd k e va pke)) =
     (if \<not> k_pmd_none (k_ops k) e \<and> k_pmd_present (k_ops k) e \<and> k_pmd_leaf (k_ops k) e
      then [pmd_paddr k e va] else [])"
  "printed_paddrs (dump_pte k e va pke) =
     (if \<not> k_pte_none (k_ops k) e \<and> k_pte_present (k_ops k) e then [pte_paddr k e va] else [])"
  by (simp_all add: dump_pgd_def dump_p4d_def dump_pud_def dump_pmd_def dump_pte_def Let_def
        printed_paddr_info)

lemma dump_ends:
  "snd (dump_pgd k e va) \<longleftrightarrow> \<not> k_pgd_present (k_ops k) e"
  "snd (dump_p4d k e va) \<longleftrightarrow> \<not> k_p4d_present (k_ops k) e"
  "snd (dump_pud k e va pke) \<longleftrightarrow> \<not> pud_present_good k e \<or> k_pud_leaf (k_ops k) e"
  "snd (dump_pmd k e va pke) \<longleftrightarrow>
     k_pmd_none (k_ops k) e \<or> \<not> k_pmd_present (k_ops k) e \<or> k_pmd_leaf (k_ops k) e"
  by (simp_all add: dump_pgd_def dump_p4d_def dump_pud_def dump_pmd_def Let_def)

section \<open>Physical addresses\<close>

lemma unat_paddr:
  assumes "k_PAGE_SHIFT (k_mac k) = 12"
  shows
    "PUD_MASK k = NOT (mask 30) \<Longrightarrow> 2 ^ 18 dvd unat (k_pud_pfn (k_ops k) e) \<Longrightarrow>
      unat (k_pud_pfn (k_ops k) e) < 2 ^ 52 \<Longrightarrow>
      unat (pud_paddr k e va) = unat (k_pud_pfn (k_ops k) e) * 2 ^ 12 + unat va mod 2 ^ 30"
    "PMD_MASK k = NOT (mask 21) \<Longrightarrow> 2 ^ 9 dvd unat (k_pmd_pfn (k_ops k) e) \<Longrightarrow>
      unat (k_pmd_pfn (k_ops k) e) < 2 ^ 52 \<Longrightarrow>
      unat (pmd_paddr k e va) = unat (k_pmd_pfn (k_ops k) e) * 2 ^ 12 + unat va mod 2 ^ 21"
    "k_PAGE_MASK (k_mac k) = NOT (mask 12) \<Longrightarrow> unat (k_pte_pfn (k_ops k) e) < 2 ^ 52 \<Longrightarrow>
      unat (pte_paddr k e va) = unat (k_pte_pfn (k_ops k) e) * 2 ^ 12 + unat va mod 2 ^ 12"
  using unat_frame_or_offset [of 30 12 "k_pud_pfn (k_ops k) e" va]
    unat_frame_or_offset [of 21 12 "k_pmd_pfn (k_ops k) e" va]
    unat_frame_or_offset [of 12 12 "k_pte_pfn (k_ops k) e" va] assms
  by (simp_all only: pud_paddr_def pmd_paddr_def pte_paddr_def not_not_mask_and) simp_all

section \<open>Flags: decoding\<close>

interpretation common: flag_table "common_table k" for k
  by unfold_locales (simp add: common_table_def Let_def wf_table_simps)

text \<open>The words that the dump of a mapped \<^verbatim>\<open>pte\<close> puts after the value, absent ones being empty.\<close>

definition leaf_flag_words :: "kernel \<Rightarrow> u64 \<Rightarrow> string list" where
  "leaf_flag_words k v = (let f = k_flg k in
     map (\<lambda>(m, on, off). if has v m then on else off) (common_table k) @
     [if has v (k_PAGE_PAT f) then '' PAT'' else [],
      if has v (k_PAGE_DIRTY f) then '' DIRTY'' else [],
      if has v (k_PAGE_PROTNONE f) then (if has v (k_PAGE_PRESENT f) then '' GLOBAL'' else '' PROTNONE'') else [],
      if k_CONFIG_USERFAULTFD_WP f \<and> has v (k_PAGE_UFFD_WP f) then '' UFFD_WP'' else [],
      if k_CONFIG_SOFT_DIRTY f \<and> has v (k_PAGE_SOFT_DIRTY f) then '' SOFT_DIRTY'' else [],
      if has v (k_PAGE_NX f) then '' NX'' else []])"

definition key_word :: "kernel \<Rightarrow> u64 \<Rightarrow> bool \<Rightarrow> string" where
  "key_word k v pke =
     (if pke then '' PKEY='' @ fmt_lx (drop_bit (k_PAGE_BIT_PKEY_BIT0 (k_flg k)) (v AND k_PAGE_PKEY_MASK (k_flg k))) else [])"

definition leaf_words :: "kernel \<Rightarrow> u64 \<Rightarrow> bool \<Rightarrow> string list" where
  "leaf_words k v pke = leaf_flag_words k v @ [key_word k v pke]"

definition word_ok :: "string \<Rightarrow> bool" where
  "word_ok s \<longleftrightarrow> (s = [] \<or> tag s) \<and> CHR 0x0A \<notin> set s"

lemma word_ok_pkey: "word_ok ('' PKEY='' @ fmt_lx w)"
  using fmt_lx_chars [of _ w] by (auto simp: word_ok_def tag_def)

text \<open>What holds of every name holds of every word; the key apart.\<close>

lemma leaf_flag_words_all:
  assumes "list_all P
    ['' PRESENT'', '' RW'', '' USER'', '' KERNEL'', '' PWT'', '' PCD'', '' ACCESSED'', '' PAT'', '' DIRTY'',
     '' GLOBAL'', '' PROTNONE'', '' UFFD_WP'', '' SOFT_DIRTY'', '' NX'', []]"
  shows "list_all P (leaf_flag_words k v)"
proof -
  have "P (if b then x else y) = (if b then P x else P y)" for b x y by simp
  with assms show ?thesis
    by (simp only: leaf_flag_words_def common_table_def Let_def list.map prod.case list_all_append list.pred_inject
        simp_thms if_cancel append_Nil append_Cons)
qed

lemma leaf_words_ok: "list_all word_ok (leaf_words k v pke)"
proof -
  have "list_all word_ok (leaf_flag_words k v)"
    by (rule leaf_flag_words_all) (simp add: word_ok_def tag_def)
  moreover have "word_ok (key_word k v pke)"
    using word_ok_pkey by (simp add: key_word_def word_ok_def)
  ultimately show ?thesis by (simp add: leaf_words_def)
qed

lemma leaf_words_tags: "s \<in> set (leaf_words k v pke) \<Longrightarrow> (s = [] \<or> tag s) \<and> CHR 0x0A \<notin> set s"
  using leaf_words_ok [of k v pke] by (simp add: list_all_iff word_ok_def)

lemma cont_flags_text:
  "concat (map snd (filter (\<lambda>l. fst l = KERN_CONT) (cont_flags tbl v))) =
   concat (map (\<lambda>(m, on, off). if has v m then on else off) tbl)"
  by (induction tbl) (auto simp: cont_flags_def pr_cont_def)

lemma takeWhile_nl: "\<forall>c \<in> set s. c \<noteq> CHR 0x0A \<Longrightarrow> takeWhile (\<lambda>c. c \<noteq> CHR 0x0A) (s @ nl) = s"
  by (induction s) (simp_all add: nl_def)

text \<open>The entries of the upper levels: two values print the same flags exactly when these flags are the same.\<close>

lemma dump_flags_common_eq_iff:
  "concat (map snd (dump_flags_common k v)) = concat (map snd (dump_flags_common k w)) \<longleftrightarrow>
     (\<forall>(m, on, off) \<in> set (common_table k). has v m \<longleftrightarrow> has w m)"
proof -
  have "filter (\<lambda>l. fst l = KERN_CONT) (cont_flags tbl v) = cont_flags tbl v" for tbl v
    by (intro filter_True) (auto simp: cont_flags_def pr_cont_def split: if_splits)
  then have "concat (map snd (dump_flags_common k v)) = dump_flags (common_table k) v" for v
    using cont_flags_text [of "common_table k" v] by (simp add: dump_flags_common_def dump_flags_def)
  then show ?thesis by (simp only: common.dump_flags_eq_iff)
qed

lemma line_text_dump_pte:
  assumes "\<not> k_pte_none (k_ops k) e" and "k_pte_present (k_ops k) e"
  shows "line_text (dump_pte k e va pke) = concat (leaf_words k (invert_val_if_needed k e) pke)"
proof -
  let ?v = "invert_val_if_needed k e"
  have "concat (map snd (filter (\<lambda>l. fst l = KERN_CONT) (dump_pte k e va pke))) =
      concat (leaf_words k ?v pke) @ nl"
    using assms cont_flags_text [of "common_table k" ?v]
    by (simp add: dump_pte_def Let_def leaf_words_def leaf_flag_words_def key_word_def dump_flags_common_def dump_flags_last_level_def
        entry_line_def pr_info_def pr_def pr_cont_def dump_paddr_def)
  moreover have "\<forall>c \<in> set (concat (leaf_words k ?v pke)). c \<noteq> CHR 0x0A"
    using leaf_words_tags by (force simp del: set_concat simp add: set_concat)
  ultimately show ?thesis
    by (simp only: line_text_def takeWhile_nl)
qed

lemma tags_leaf_words:
  "tags (concat (leaf_words k v pke)) = filter (\<lambda>s. s \<noteq> []) (leaf_words k v pke)"
  using leaf_words_tags by (intro tags_concat) blast

text \<open>Which names a mapped \<^verbatim>\<open>pte\<close> is printed with.\<close>

lemma leaf_names:
  fixes v :: u64 and k :: kernel and pke :: bool
  defines "f \<equiv> k_flg k" and "ts \<equiv> set (tags (concat (leaf_words k v pke)))"
  shows "'' PRESENT'' \<in> ts \<longleftrightarrow> has v (k_PAGE_PRESENT f)" "'' RW'' \<in> ts \<longleftrightarrow> has v (k_PAGE_RW f)"
    "'' USER'' \<in> ts \<longleftrightarrow> has v (k_PAGE_USER f)" "'' PWT'' \<in> ts \<longleftrightarrow> has v (k_PAGE_PWT f)"
    "'' PCD'' \<in> ts \<longleftrightarrow> has v (k_PAGE_PCD f)" "'' ACCESSED'' \<in> ts \<longleftrightarrow> has v (k_PAGE_ACCESSED f)"
    "'' PAT'' \<in> ts \<longleftrightarrow> has v (k_PAGE_PAT f)" "'' DIRTY'' \<in> ts \<longleftrightarrow> has v (k_PAGE_DIRTY f)"
    "'' GLOBAL'' \<in> ts \<longleftrightarrow> has v (k_PAGE_PROTNONE f) \<and> has v (k_PAGE_PRESENT f)"
    "'' PROTNONE'' \<in> ts \<longleftrightarrow> has v (k_PAGE_PROTNONE f) \<and> \<not> has v (k_PAGE_PRESENT f)"
    "'' UFFD_WP'' \<in> ts \<longleftrightarrow> k_CONFIG_USERFAULTFD_WP f \<and> has v (k_PAGE_UFFD_WP f)"
    "'' SOFT_DIRTY'' \<in> ts \<longleftrightarrow> k_CONFIG_SOFT_DIRTY f \<and> has v (k_PAGE_SOFT_DIRTY f)"
    "'' NX'' \<in> ts \<longleftrightarrow> has v (k_PAGE_NX f)"
  unfolding ts_def tags_leaf_words f_def
  by (simp_all add: leaf_words_def leaf_flag_words_def key_word_def common_table_def Let_def)

lemma leaf_kernel: "'' KERNEL'' \<in> set (tags (concat (leaf_words k v pke))) \<longleftrightarrow> \<not> has v (k_PAGE_USER (k_flg k))"
  unfolding tags_leaf_words by (simp add: leaf_words_def leaf_flag_words_def key_word_def common_table_def Let_def)

text \<open>A word that shows a protection key.\<close>

definition pkey_word :: "string \<Rightarrow> bool" where
  "pkey_word s \<longleftrightarrow> take 6 s = '' PKEY=''"

lemma leaf_pkey:
  "filter pkey_word (tags (concat (leaf_words k v pke))) =
     (if pke then ['' PKEY='' @ fmt_lx (drop_bit (k_PAGE_BIT_PKEY_BIT0 (k_flg k)) (v AND k_PAGE_PKEY_MASK (k_flg k)))] else [])"
proof -
  have "list_all (\<lambda>s. \<not> pkey_word s) (leaf_flag_words k v)"
    by (rule leaf_flag_words_all) (simp add: pkey_word_def)
  then show ?thesis
    unfolding tags_leaf_words unfolding leaf_words_def
    by (auto simp: list_all_iff key_word_def pkey_word_def filter_empty_conv)
qed

lemma leaf_words_decode:
  fixes k :: kernel
  defines "f \<equiv> k_flg k"
  assumes pos: "x86_positions f"
  shows "read_flags (pte_names (k_CONFIG_USERFAULTFD_WP f) (k_CONFIG_SOFT_DIRTY f)) (concat (leaf_words k v pke)) =
    v AND documented_bits (k_CONFIG_USERFAULTFD_WP f) (k_CONFIG_SOFT_DIRTY f)"
proof -
  let ?s = "concat (leaf_words k v pke)"
  let ?pn = "[flag (shl1 8) '' GLOBAL'', flag (shl1 8) '' PROTNONE'']"
  define t1 where "t1 = map (\<lambda>(n, name). flag (shl1 n :: u64) name)
    [(0, '' PRESENT''), (1, '' RW''), (2, '' USER''), (3, '' PWT''), (4, '' PCD''), (5, '' ACCESSED''), (6, '' DIRTY''), (7, '' PAT'')]"
  define t2 where "t2 = map (\<lambda>(n, name). flag (shl1 n :: u64) name)
    ([(63, '' NX'')] @ (if k_CONFIG_USERFAULTFD_WP f then [(10, '' UFFD_WP'')] else []) @
     (if k_CONFIG_SOFT_DIRTY f then [(11, '' SOFT_DIRTY'')] else []))"
  have tbl: "pte_names (k_CONFIG_USERFAULTFD_WP f) (k_CONFIG_SOFT_DIRTY f) = t1 @ ?pn @ t2"
    by (simp add: pte_names_def pte_bits_def t1_def t2_def del: push_bit_of_1)
  note names = leaf_names [of k v pke, folded f_def] and pos' = pos [unfolded x86_positions_def]
  have "read_flags t1 ?s = v AND table_mask t1"
    by (intro read_flags_eqI) (simp add: t1_def names pos' single_bit_shl1 del: push_bit_of_1 One_nat_def)
  moreover have "read_flags ?pn ?s = v AND table_mask ?pn"
    by (simp add: read_flags_Cons table_mask_Cons names pos' single_bit_and single_bit_shl1 del: push_bit_of_1)
  moreover have "read_flags t2 ?s = v AND table_mask t2"
    by (intro read_flags_eqI) (auto simp: t2_def names pos' single_bit_shl1 simp del: push_bit_of_1)
  moreover have "table_mask t1 OR table_mask ?pn OR table_mask t2 =
      documented_bits (k_CONFIG_USERFAULTFD_WP f) (k_CONFIG_SOFT_DIRTY f)"
    by (simp add: t1_def t2_def table_mask_Cons documented_bits_def)
  ultimately show ?thesis
    unfolding tbl by (simp only: read_flags_append flip: bit.conj_disj_distrib)
qed

text \<open>
  C24.  The flags that the dump of a mapped page table entry prints are those of the entry, as the processor's
  manual and the kernel's headers document its bits.  Reading the names on the line back gives exactly the
  documented flag bits of the value, whatever options the kernel was configured with; the line says KERNEL exactly
  if the user bit is clear, GLOBAL and PROTNONE depending on the present bit, and shows the protection key, bits
  59 to 62, exactly if protection keys are on.
\<close>

theorem pte_line_decodes:
  assumes "\<not> k_pte_none (k_ops k) e" and "k_pte_present (k_ops k) e" and "x86_positions (k_flg k)"
  shows "let line = line_text (dump_pte k e va pke); v = invert_val_if_needed k e;
      uffd_wp = k_CONFIG_USERFAULTFD_WP (k_flg k); soft_dirty = k_CONFIG_SOFT_DIRTY (k_flg k)
    in read_flags (pte_names uffd_wp soft_dirty) line = v AND documented_bits uffd_wp soft_dirty \<and>
       ('' KERNEL'' \<in> set (tags line) \<longleftrightarrow> \<not> bit v 2) \<and>
       ('' GLOBAL'' \<in> set (tags line) \<longleftrightarrow> bit v 8 \<and> bit v 0) \<and>
       ('' PROTNONE'' \<in> set (tags line) \<longleftrightarrow> bit v 8 \<and> \<not> bit v 0) \<and>
       filter pkey_word (tags line) = (if pke then ['' PKEY='' @ fmt_lx (take_bit 4 (drop_bit 59 v))] else [])"
proof -
  have "15 = (mask 4 :: u64)" by (simp add: mask_eq_exp_minus_1)
  then have key: "v AND 15 = take_bit 4 v" for v :: u64 by (simp add: take_bit_eq_mask)
  show ?thesis
    using assms(3) leaf_words_decode [OF assms(3)]
    by (simp add: line_text_dump_pte [OF assms(1,2)] Let_def leaf_kernel leaf_pkey leaf_names x86_positions_def
        has_shl1 key del: push_bit_of_1)
qed

text \<open>A read-only, present page of user memory with protection key 3, that was never executed.\<close>

theorem pte_line_decodes_witness:
  "read_flags (pte_names True True) (line_text (dump_pte (x86_kernel False) 0x9800000012345025 0 True)) =
     0x8000000000000025 \<and>
   '' KERNEL'' \<notin> set (tags (line_text (dump_pte (x86_kernel False) 0x9800000012345025 0 True)))"
proof -
  let ?k = "x86_kernel False"
  have "\<not> k_pte_none (k_ops ?k) 0x9800000012345025" "k_pte_present (k_ops ?k) 0x9800000012345025"
    by (simp_all add: x86_defs has_def)
  moreover have "x86_positions (k_flg ?k)"
    by (simp add: x86_positions_def x86_defs)
  ultimately have "let line = line_text (dump_pte ?k 0x9800000012345025 0 True); v = invert_val_if_needed ?k 0x9800000012345025;
      uffd_wp = k_CONFIG_USERFAULTFD_WP (k_flg ?k); soft_dirty = k_CONFIG_SOFT_DIRTY (k_flg ?k)
    in read_flags (pte_names uffd_wp soft_dirty) line = v AND documented_bits uffd_wp soft_dirty \<and>
       ('' KERNEL'' \<in> set (tags line) \<longleftrightarrow> \<not> bit v 2) \<and>
       ('' GLOBAL'' \<in> set (tags line) \<longleftrightarrow> bit v 8 \<and> bit v 0) \<and>
       ('' PROTNONE'' \<in> set (tags line) \<longleftrightarrow> bit v 8 \<and> \<not> bit v 0) \<and>
       filter pkey_word (tags line) = (if True then ['' PKEY='' @ fmt_lx (take_bit 4 (drop_bit 59 v))] else [])"
    by (rule pte_line_decodes)
  moreover have "invert_val_if_needed ?k 0x9800000012345025 = 0x9800000012345025"
    by (simp add: invert_val_if_needed_def x86_defs x86_needs_invert_def)
  moreover have "k_CONFIG_USERFAULTFD_WP (k_flg ?k)" "k_CONFIG_SOFT_DIRTY (k_flg ?k)"
    by (simp_all add: x86_defs)
  ultimately show ?thesis by (simp add: documented_bits_def Let_def)
qed

text \<open>What the kernel documents of the inversion of entries that are not present.\<close>

definition inverts_protnone :: "kernel \<Rightarrow> bool" where
  "inverts_protnone k \<longleftrightarrow>
     k_PTE_PFN_MASK (k_mac k) = k_PHYSICAL_PAGE_MASK (k_mac k) \<and>
     \<not> has (k_PAGE_PRESENT (k_flg k)) (k_PHYSICAL_PAGE_MASK (k_mac k)) \<and>
     \<not> has (k_PAGE_PROTNONE (k_flg k)) (k_PHYSICAL_PAGE_MASK (k_mac k)) \<and>
     (\<forall>v. k_pte_needs_invert (k_ops k) v \<longleftrightarrow> v \<noteq> 0 \<and> \<not> has v (k_PAGE_PRESENT (k_flg k))) \<and>
     (\<forall>v. k_pte_pfn (k_ops k) v = drop_bit (k_PAGE_SHIFT (k_mac k))
        ((v XOR (if k_pte_needs_invert (k_ops k) v then - 1 else 0)) AND k_PTE_PFN_MASK (k_mac k)))"

text \<open>
  Entries without the present bit keep their frame number inverted in memory.  For a PROTNONE
  entry the value that the module shows is the entry with the inversion undone: its frame field is
  the frame number of the physical address printed, everything outside the physical mask is the
  entry's own, and inverting it again gives back the entry in memory.
\<close>

theorem protnone_value_shown:
  assumes "inverts_protnone k" and "has v (k_PAGE_PROTNONE (k_flg k))" and "\<not> has v (k_PAGE_PRESENT (k_flg k))"
  shows "drop_bit (k_PAGE_SHIFT (k_mac k)) (invert_val_if_needed k v AND k_PTE_PFN_MASK (k_mac k)) =
      k_pte_pfn (k_ops k) v \<and>
    invert_val_if_needed k v AND NOT (k_PHYSICAL_PAGE_MASK (k_mac k)) =
      v AND NOT (k_PHYSICAL_PAGE_MASK (k_mac k)) \<and>
    invert_val_if_needed k (invert_val_if_needed k v) = v"
proof -
  let ?M = "k_PHYSICAL_PAGE_MASK (k_mac k)" and ?P = "k_PAGE_PRESENT (k_flg k)"
  let ?N = "k_PAGE_PROTNONE (k_flg k)" and ?w = "(v AND NOT (k_PHYSICAL_PAGE_MASK (k_mac k))) OR (NOT v AND k_PHYSICAL_PAGE_MASK (k_mac k))"
  have inv: "k_pte_needs_invert (k_ops k) v"
    using assms by (auto simp: inverts_protnone_def)
  have w: "invert_val_if_needed k v = ?w"
    using inv by (simp add: invert_val_if_needed_def Let_def)
  have "has ?w ?N" and np: "\<not> has ?w ?P"
    using assms by (simp_all add: inverts_protnone_def has_inverted)
  then have "k_pte_needs_invert (k_ops k) ?w"
    using assms(1) by (auto simp: inverts_protnone_def)
  then have "invert_val_if_needed k ?w = v"
    by (auto simp: invert_val_if_needed_def Let_def bit_eq_iff bit_simps)
  moreover have "?w AND ?M = (v XOR - 1) AND ?M" "?w AND NOT ?M = v AND NOT ?M"
    by (auto simp: bit_eq_iff bit_simps)
  moreover have "k_PTE_PFN_MASK (k_mac k) = ?M"
    and "k_pte_pfn (k_ops k) v = drop_bit (k_PAGE_SHIFT (k_mac k))
      ((v XOR (if k_pte_needs_invert (k_ops k) v then - 1 else 0)) AND k_PTE_PFN_MASK (k_mac k))"
    using assms(1) unfolding inverts_protnone_def by blast+
  ultimately show ?thesis
    using inv by (simp only: w if_True)
qed

lemma x86_mask_12: "x86_mask 12 = 0x000FFFFFFFFFF000"
  by (simp add: x86_mask_def mask_eq_exp_minus_1)

theorem protnone_value_shown_witness:
  "invert_val_if_needed (x86_kernel False) 0x000FFFFFEDCBA120 = 0x0000000012345120 \<and>
   k_pte_pfn (k_ops (x86_kernel False)) 0x000FFFFFEDCBA120 = 0x12345"
proof -
  let ?k = "x86_kernel False" and ?v = "0x000FFFFFEDCBA120 :: u64"
  have "inverts_protnone ?k"
    by (simp add: inverts_protnone_def x86_defs x86_pfn_def x86_needs_invert_def has_shl1 has_shl1_left
        x86_mask_def bit_mask_iff bit_and_iff bit_not_iff del: push_bit_of_1)
  moreover have "has ?v (k_PAGE_PROTNONE (k_flg ?k))" "\<not> has ?v (k_PAGE_PRESENT (k_flg ?k))"
    by (simp_all add: x86_defs has_def)
  ultimately have "drop_bit (k_PAGE_SHIFT (k_mac ?k)) (invert_val_if_needed ?k ?v AND k_PTE_PFN_MASK (k_mac ?k)) =
      k_pte_pfn (k_ops ?k) ?v"
    using protnone_value_shown [of ?k ?v] by blast
  moreover have "invert_val_if_needed ?k ?v = 0x0000000012345120"
    by (simp add: invert_val_if_needed_def x86_defs x86_needs_invert_def x86_mask_12)
  moreover have "k_PTE_PFN_MASK (k_mac ?k) = 0x000FFFFFFFFFF000" "k_PAGE_SHIFT (k_mac ?k) = 12"
    by (simp_all add: x86_defs x86_mask_12)
  ultimately show ?thesis by simp
qed

end
