(* ===== verification/Page_Table_Walk.thy ===== *)
theory Page_Table_Walk
  imports Page_Entries
begin

text \<open>
  The second half of \<^verbatim>\<open>modules/page_table_walk.c\<close>: the 4-level and 5-level walks, the checks of the
  control registers, the kernel and user entry points with their reference counts and locks, and
  the module's entry point.  The functions that follow an entry to the next table, the registers
  and the task structures are parameters (\<open>walk_env\<close>).  The main property compares the walk with the
  translation that the processor's manual defines on physical memory (\<open>hw_walk\<close>).
\<close>

section \<open>The machine and the tasks\<close>

record walk_env =
  w_kernel :: kernel
  w_memory :: memory
  w_p4d_offset :: "memory \<Rightarrow> u64 \<Rightarrow> u64 \<Rightarrow> u64"
  w_pud_offset :: "memory \<Rightarrow> u64 \<Rightarrow> u64 \<Rightarrow> u64"
  w_pmd_offset :: "memory \<Rightarrow> u64 \<Rightarrow> u64 \<Rightarrow> u64"
  w_pte_offset_kernel :: "memory \<Rightarrow> u64 \<Rightarrow> u64 \<Rightarrow> u64"
  w_pgd_offset_pgd :: "u64 \<Rightarrow> u64 \<Rightarrow> u64"
  w_phys_to_virt :: "u64 \<Rightarrow> u64"
  w_EFER_LME :: u64
  w_EFER_LMA :: u64
  w_X86_CR0_PG :: u64
  w_X86_CR4_PAE :: u64
  w_X86_CR4_PKE :: u64
  w_X86_CR4_LA57 :: u64
  w_CONFIG_PROTECTION_KEYS :: bool
  w_rdmsrl_safe_EFER :: "int \<times> u64"
  w_read_cr0 :: u64
  w_read_cr3 :: u64
  w_read_cr4 :: u64
  w_current :: nat
  w_find_get_pid :: "int \<Rightarrow> nat option"
  w_get_pid_task :: "nat option \<Rightarrow> nat option"
  w_comm :: "nat \<Rightarrow> string"
  w_pid :: "nat \<Rightarrow> int"
  w_mm :: "nat \<Rightarrow> nat option"
  w_active_mm :: "nat \<Rightarrow> nat option"
  w_pgd_offset :: "nat \<Rightarrow> u64 \<Rightarrow> u64"

section \<open>The walk\<close>

text \<open>\<^verbatim>\<open>if (dump_...(...)) return;\<close>\<close>

fun unless_done :: "dumped \<Rightarrow> log_line list \<Rightarrow> log_line list" where
  "unless_done (ls, done) rest = (if done then ls else ls @ rest)"

definition walk_4l :: "walk_env \<Rightarrow> u64 \<Rightarrow> u64 \<Rightarrow> bool \<Rightarrow> u64 option \<Rightarrow> log_line list" where
  "walk_4l w pgdp vaddr pke p4dp0 =
     (let k = w_kernel w; m = w_memory w;
          from_p4d = (\<lambda>p4dp.
            let pudp = w_pud_offset w m p4dp vaddr
            in unless_done (dump_pud k (m pudp) vaddr pke)
              (let pmdp = w_pmd_offset w m pudp vaddr
               in unless_done (dump_pmd k (m pmdp) vaddr pke)
                 (let ptep = w_pte_offset_kernel w m pmdp vaddr
                  in dump_pte k (m ptep) vaddr pke)))
      in case p4dp0 of
           None \<Rightarrow> unless_done (dump_pgd k (m pgdp) vaddr) (from_p4d (w_p4d_offset w m pgdp vaddr))
         | Some p4dp \<Rightarrow> from_p4d p4dp)"

definition walk_5l :: "walk_env \<Rightarrow> u64 \<Rightarrow> u64 \<Rightarrow> bool \<Rightarrow> log_line list" where
  "walk_5l w pgdp vaddr pke =
     (let k = w_kernel w; m = w_memory w
      in unless_done (dump_pgd k (m pgdp) vaddr)
        (let p4dp = w_p4d_offset w m pgdp vaddr
         in unless_done (dump_p4d k (m p4dp) vaddr) (walk_4l w pgdp vaddr pke (Some p4dp))))"

definition pr_err :: "string \<Rightarrow> log_line" where
  "pr_err s = pr KERN_ERR ''page_table_walk'' s"

definition rdmsrl_wrap :: "string \<Rightarrow> int \<times> u64 \<Rightarrow> log_line list \<times> int" where
  "rdmsrl_wrap name result =
     ((if fst result \<noteq> 0 then [pr_err (''rdmsrl_safe('' @ name @ '') failed, aborting.'' @ nl)] else []),
      fst result)"

definition walk :: "walk_env \<Rightarrow> u64 \<Rightarrow> u64 \<Rightarrow> log_line list \<times> int" where
  "walk w pgdp vaddr =
     (let (ls, err) = rdmsrl_wrap ''MSR_EFER'' (w_rdmsrl_safe_EFER w);
          efer = snd (w_rdmsrl_safe_EFER w);
          ia32e = w_EFER_LME w OR w_EFER_LMA w;
          cr4 = w_read_cr4 w
      in if err \<noteq> 0 then (ls, err)
         else if \<not> has (w_read_cr0 w) (w_X86_CR0_PG w) then
           (ls @ [pr_err (''Paging disabled, aborting.'' @ nl)], 0)
         else if efer AND ia32e \<noteq> ia32e then
           (ls @ [pr_err (''Not in IA-32e mode, aborting.'' @ nl)], 0)
         else if \<not> has cr4 (w_X86_CR4_PAE w) then
           (ls @ [pr_err (''PAE disabled, aborting.'' @ nl)], 0)
         else
           (let pke = (w_CONFIG_PROTECTION_KEYS w \<and> has cr4 (w_X86_CR4_PKE w))
            in (ls @ (if has cr4 (w_X86_CR4_LA57 w) then walk_5l w pgdp vaddr pke
                      else walk_4l w pgdp vaddr pke None), 0)))"

definition walk_kernel :: "walk_env \<Rightarrow> u64 \<Rightarrow> kevent list \<times> int" where
  "walk_kernel w vaddr =
     (let pgdp = w_phys_to_virt w (w_read_cr3 w AND NOT 0xFFF);
          (ls, res) = walk w (w_pgd_offset_pgd w pgdp vaddr) vaddr
      in (Log (pr_info (''Examining kernel vaddr 0x'' @ fmt_lx vaddr @ nl)) # map Log ls, res))"

definition get_user_pid_task :: "walk_env \<Rightarrow> int \<Rightarrow> kevent list \<times> nat option" where
  "get_user_pid_task w pid = find_pid_task (w_find_get_pid w) (w_get_pid_task w) pid"

definition walk_user :: "walk_env \<Rightarrow> int \<Rightarrow> u64 \<Rightarrow> kevent list \<times> int" where
  "walk_user w user_pid vaddr =
     (case (if user_pid = -1 then ([Get_task (w_current w)], Some (w_current w))
            else get_user_pid_task w user_pid) of
        (es, None) \<Rightarrow> (es @ [Log (pr_err (''No task with user PID = '' @ fmt_d user_pid @ ''.'' @ nl))], - ESRCH)
      | (es, Some task) \<Rightarrow>
          (let es1 = es @ [Log (pr_info (''Examining '' @ w_comm w task @ ''['' @ fmt_d (w_pid w task) @
                       ''] vaddr 0x'' @ fmt_lx vaddr @ nl)), Task_lock task];
               finish = (\<lambda>warn mm.
                 let (ls, res) = walk w (w_pgd_offset w mm vaddr) vaddr
                 in (es1 @ warn @ [Mmget mm, Task_unlock task, Put_task task] @ map Log ls @ [Mmput mm], res))
           in case w_mm w task of
                Some mm \<Rightarrow> finish [] mm
              | None \<Rightarrow>
                  (case w_active_mm w task of
                     Some mm \<Rightarrow>
                       finish [Log (pr KERN_WARNING ''page_table_walk''
                         (''Task does not have own mm, using active_mm.'' @ nl))] mm
                   | None \<Rightarrow>
                       (es1 @ [Log (pr_err (''Task has no own mm nor active mm, aborting.'' @ nl)),
                               Task_unlock task, Put_task task], - ESRCH))))"

definition page_table_walk_init :: "walk_env \<Rightarrow> bool \<Rightarrow> int \<Rightarrow> u64 \<Rightarrow> kevent list \<times> int" where
  "page_table_walk_init w dump user_pid vaddr =
     (if dump then (map Log (dump_macros (w_kernel w)), - ECANCELED)
      else
        (let (es, err) = (if user_pid \<noteq> 0 then walk_user w user_pid vaddr else walk_kernel w vaddr)
         in (es, if err \<noteq> 0 then err else - ECANCELED)))"

section \<open>Specification: address translation\<close>

text \<open>
  The processor's translation in terms of physical memory and numbers, following the description of
  4-level and 5-level paging: the index of a level is nine bits of the address, an entry with bit 0
  clear ends the translation, bit 7 of a PDPTE or PDE makes it the leaf of a 1G or 2M page, and the
  address of a table or page is bits 51 and below of the entry, down to the alignment.
\<close>

definition hw_index :: "nat \<Rightarrow> u64 \<Rightarrow> nat" where
  "hw_index n va = unat va div 2 ^ n mod 512"

definition hw_frame :: "nat \<Rightarrow> u64 \<Rightarrow> nat" where
  "hw_frame n e = unat e div 2 ^ n mod 2 ^ (52 - n) * 2 ^ n"

definition hw_page :: "nat \<Rightarrow> u64 \<Rightarrow> u64 \<Rightarrow> nat" where
  "hw_page n e va = hw_frame n e + unat va mod 2 ^ n"

text \<open>\<open>Inl (n, e)\<close> is a translation that stops at an entry \<open>e\<close> of the level whose index starts at bit \<open>n\<close>.\<close>

type_synonym phys_memory = "nat \<Rightarrow> u64"
type_synonym translation = "(nat \<times> u64) + nat"

definition hw_pt :: "phys_memory \<Rightarrow> nat \<Rightarrow> u64 \<Rightarrow> translation" where
  "hw_pt pm table va =
     (let e = pm (table + 8 * hw_index 12 va) in if bit e 0 then Inr (hw_page 12 e va) else Inl (12, e))"

definition hw_pd :: "phys_memory \<Rightarrow> nat \<Rightarrow> u64 \<Rightarrow> translation" where
  "hw_pd pm table va =
     (let e = pm (table + 8 * hw_index 21 va)
      in if \<not> bit e 0 then Inl (21, e) else if bit e 7 then Inr (hw_page 21 e va)
         else hw_pt pm (hw_frame 12 e) va)"

definition hw_pdpt :: "phys_memory \<Rightarrow> nat \<Rightarrow> u64 \<Rightarrow> translation" where
  "hw_pdpt pm table va =
     (let e = pm (table + 8 * hw_index 30 va)
      in if \<not> bit e 0 then Inl (30, e) else if bit e 7 then Inr (hw_page 30 e va)
         else hw_pd pm (hw_frame 12 e) va)"

definition hw_pml4 :: "phys_memory \<Rightarrow> nat \<Rightarrow> u64 \<Rightarrow> translation" where
  "hw_pml4 pm table va =
     (let e = pm (table + 8 * hw_index 39 va)
      in if bit e 0 then hw_pdpt pm (hw_frame 12 e) va else Inl (39, e))"

definition hw_pml5 :: "phys_memory \<Rightarrow> nat \<Rightarrow> u64 \<Rightarrow> translation" where
  "hw_pml5 pm table va =
     (let e = pm (table + 8 * hw_index 48 va)
      in if bit e 0 then hw_pml4 pm (hw_frame 12 e) va else Inl (48, e))"

definition hw_walk :: "bool \<Rightarrow> phys_memory \<Rightarrow> nat \<Rightarrow> u64 \<Rightarrow> translation" where
  "hw_walk la57 pm table va = (if la57 then hw_pml5 pm table va else hw_pml4 pm table va)"

text \<open>Physical memory as the kernel sees it through its direct map.\<close>

definition phys :: "walk_env \<Rightarrow> phys_memory" where
  "phys w a = w_memory w (w_phys_to_virt w (of_nat a))"

section \<open>Documented behaviour of the headers\<close>

text \<open>Entries: what the helpers say about an entry with the present bit, and about one without.\<close>

definition entry_helpers :: "bool \<Rightarrow> kernel \<Rightarrow> bool" where
  "entry_helpers la57 k \<longleftrightarrow> (let ko = k_ops k in
     k_PAGE_SHIFT (k_mac k) = 12 \<and> k_PAGE_MASK (k_mac k) = NOT (mask 12) \<and>
     PMD_MASK k = NOT (mask 21) \<and> PUD_MASK k = NOT (mask 30) \<and>
     k_PAGE_PRESENT (k_flg k) = shl1 0 \<and> k_PAGE_PROTNONE (k_flg k) = shl1 8 \<and>
     (\<forall>e. k_pgd_present ko e \<longleftrightarrow> (la57 \<longrightarrow> bit e 0)) \<and> (\<forall>e. k_p4d_present ko e \<longleftrightarrow> bit e 0) \<and>
     (\<forall>e. bit (k_pud_flags ko e) 0 = bit e 0 \<and> bit (k_pud_flags ko e) 8 = bit e 8) \<and>
     (\<forall>e. bit e 0 \<longrightarrow> \<not> k_pmd_none ko e \<and> \<not> k_pte_none ko e) \<and>
     (\<forall>e. k_pmd_present ko e \<longleftrightarrow> bit e 0 \<or> bit e 8 \<or> bit e 7) \<and>
     (\<forall>e. k_pte_present ko e \<longleftrightarrow> bit e 0 \<or> bit e 8) \<and>
     (\<forall>e. bit e 0 \<longrightarrow> (k_pud_leaf ko e \<longleftrightarrow> bit e 7) \<and> (k_pmd_leaf ko e \<longleftrightarrow> bit e 7)) \<and>
     (\<forall>e. bit e 0 \<longrightarrow> unat (k_pte_pfn ko e) * 2 ^ 12 = hw_frame 12 e) \<and>
     (\<forall>e. bit e 0 \<and> bit e 7 \<longrightarrow>
        unat (k_pmd_pfn ko e) * 2 ^ 12 = hw_frame 21 e \<and> unat (k_pud_pfn ko e) * 2 ^ 12 = hw_frame 30 e))"

text \<open>Tables: where the entry of the next level is, through the direct map.\<close>

definition table_helpers :: "bool \<Rightarrow> walk_env \<Rightarrow> bool" where
  "table_helpers la57 w \<longleftrightarrow>
     (\<forall>a va. w_pgd_offset_pgd w (w_phys_to_virt w a) va =
        w_phys_to_virt w (a + of_nat (8 * hw_index (if la57 then 48 else 39) va))) \<and>
     (\<forall>m p va. w_p4d_offset w m p va =
        (if la57 then w_phys_to_virt w (of_nat (hw_frame 12 (m p) + 8 * hw_index 39 va)) else p)) \<and>
     (\<forall>m p va. w_pud_offset w m p va = w_phys_to_virt w (of_nat (hw_frame 12 (m p) + 8 * hw_index 30 va))) \<and>
     (\<forall>m p va. \<not> bit (m p) 7 \<longrightarrow>
        w_pmd_offset w m p va = w_phys_to_virt w (of_nat (hw_frame 12 (m p) + 8 * hw_index 21 va))) \<and>
     (\<forall>m p va. \<not> bit (m p) 7 \<longrightarrow>
        w_pte_offset_kernel w m p va = w_phys_to_virt w (of_nat (hw_frame 12 (m p) + 8 * hw_index 12 va)))"

text \<open>The processor is in the mode that the module expects, with 4-level or 5-level tables.\<close>

definition long_mode :: "bool \<Rightarrow> walk_env \<Rightarrow> bool" where
  "long_mode la57 w \<longleftrightarrow>
     fst (w_rdmsrl_safe_EFER w) = 0 \<and> has (w_read_cr0 w) (w_X86_CR0_PG w) \<and>
     snd (w_rdmsrl_safe_EFER w) AND (w_EFER_LME w OR w_EFER_LMA w) = w_EFER_LME w OR w_EFER_LMA w \<and>
     has (w_read_cr4 w) (w_X86_CR4_PAE w) \<and> (has (w_read_cr4 w) (w_X86_CR4_LA57 w) \<longleftrightarrow> la57)"

section \<open>An x86-64 machine\<close>

text \<open>
  A machine in long mode with the headers of x86-64, a direct map at \<^verbatim>\<open>PAGE_OFFSET\<close>, one user process
  (pid 42, task 1, \<^verbatim>\<open>mm\<close> 5) with page tables of its own, and a kernel thread (pid 2, task 2).
\<close>

definition x86_phys_to_virt :: "bool \<Rightarrow> u64 \<Rightarrow> u64" where
  "x86_phys_to_virt la57 a = a + k_PAGE_OFFSET (x86_macros la57)"

definition x86_entry_at :: "bool \<Rightarrow> nat \<Rightarrow> memory \<Rightarrow> u64 \<Rightarrow> u64 \<Rightarrow> u64" where
  "x86_entry_at la57 n m p va = x86_phys_to_virt la57 ((m p AND x86_mask 12) + 8 * x86_index n va)"

definition x86_env :: "bool \<Rightarrow> (u64 \<Rightarrow> u64) \<Rightarrow> u64 \<Rightarrow> walk_env" where
  "x86_env la57 phys_mem user_table =
     \<lparr>w_kernel = x86_kernel la57, w_memory = (\<lambda>a. phys_mem (a - k_PAGE_OFFSET (x86_macros la57))),
      w_p4d_offset = (\<lambda>m p va. if la57 then x86_entry_at la57 39 m p va else p),
      w_pud_offset = x86_entry_at la57 30, w_pmd_offset = x86_entry_at la57 21,
      w_pte_offset_kernel = x86_entry_at la57 12,
      w_pgd_offset_pgd = (\<lambda>pgdp va. pgdp + 8 * x86_index (if la57 then 48 else 39) va),
      w_phys_to_virt = x86_phys_to_virt la57,
      w_EFER_LME = shl1 8, w_EFER_LMA = shl1 10, w_X86_CR0_PG = shl1 31, w_X86_CR4_PAE = shl1 5,
      w_X86_CR4_PKE = shl1 22, w_X86_CR4_LA57 = shl1 12, w_CONFIG_PROTECTION_KEYS = True,
      w_rdmsrl_safe_EFER = (0, 0xD01), w_read_cr0 = 0x80050033, w_read_cr3 = 0x1003,
      w_read_cr4 = (if la57 then 0x4010A0 else 0x4000A0),
      w_current = 1, w_find_get_pid = (\<lambda>pid. if pid = 42 \<or> pid = 2 then Some (nat pid) else None),
      w_get_pid_task = (\<lambda>p. if p = Some 42 then Some 1 else if p = Some 2 then Some 2 else None),
      w_comm = (\<lambda>t. if t = 1 then ''cat'' else ''kthreadd''), w_pid = (\<lambda>t. if t = 1 then 42 else 2),
      w_mm = (\<lambda>t. if t = 1 then Some 5 else None), w_active_mm = (\<lambda>t. None),
      w_pgd_offset = (\<lambda>mm va. x86_phys_to_virt la57 (user_table + 8 * x86_index (if la57 then 48 else 39) va))\<rparr>"

text \<open>Two table hierarchies: the kernel's at 0x1000, with a 1G page, and the user's at 0x5000.\<close>

definition demo_memory :: "u64 \<Rightarrow> u64" where
  "demo_memory a =
     (if a = 0x1880 then 0x2063 else if a = 0x2000 then 0x801E3 else if a = 0x2008 then 0x400001E3
      else if a = 0x5000 then 0x6067 else if a = 0x6000 then 0x7067 else if a = 0x7008 then 0x8067
      else if a = 0x8018 then 0x8000000012345067
      else if a = 0x10 then 0x800000E3
      else 0)"

lemmas x86_env_defs = x86_env_def x86_defs x86_phys_to_virt_def x86_entry_at_def

section \<open>The walk finds what the processor finds\<close>

lemma hw_frame_bound: "n \<le> 52 \<Longrightarrow> hw_frame n e < 2 ^ 52"
proof -
  assume "n \<le> 52"
  have "unat e div 2 ^ n mod 2 ^ (52 - n) * 2 ^ n < 2 ^ (52 - n) * 2 ^ n"
    by simp
  also have "\<dots> = (2::nat) ^ 52"
    using \<open>n \<le> 52\<close> by (simp flip: power_add)
  finally show ?thesis by (simp add: hw_frame_def)
qed

lemma frame_of_pfn:
  fixes p :: u64
  assumes "unat p * 2 ^ 12 = hw_frame n e" and "12 \<le> n" and "n \<le> 52"
  shows "unat p < 2 ^ 52" and "2 ^ (n - 12) dvd unat p"
proof -
  have "unat p * 2 ^ 12 < 2 ^ 52"
    using hw_frame_bound [OF assms(3), of e] assms(1) by simp
  then show "unat p < 2 ^ 52"
    by simp
  have "(2::nat) ^ (n - 12) * 2 ^ 12 = 2 ^ n"
    using assms(2) by (simp only: power_add [symmetric] le_add_diff_inverse2)
  then have "2 ^ (n - 12) * 2 ^ 12 dvd unat p * 2 ^ 12"
    unfolding assms(1) hw_frame_def by simp
  then show "2 ^ (n - 12) dvd unat p"
    by simp
qed

lemma paddr_hw_page:
  assumes "entry_helpers la57 k" and "bit e 0"
  shows "unat (pte_paddr k e va) = hw_page 12 e va"
    and "bit e 7 \<Longrightarrow> unat (pmd_paddr k e va) = hw_page 21 e va"
    and "bit e 7 \<Longrightarrow> unat (pud_paddr k e va) = hw_page 30 e va"
proof -
  note H = assms(1) [unfolded entry_helpers_def Let_def]
  have shift: "k_PAGE_SHIFT (k_mac k) = 12" and masks: "k_PAGE_MASK (k_mac k) = NOT (mask 12)"
    "PMD_MASK k = NOT (mask 21)" "PUD_MASK k = NOT (mask 30)"
    using H by blast+
  have pte: "unat (k_pte_pfn (k_ops k) e) * 2 ^ 12 = hw_frame 12 e"
    using H assms(2) by blast
  have large: "unat (k_pmd_pfn (k_ops k) e) * 2 ^ 12 = hw_frame 21 e"
    "unat (k_pud_pfn (k_ops k) e) * 2 ^ 12 = hw_frame 30 e" if "bit e 7"
    using H assms(2) that by blast+
  show "unat (pte_paddr k e va) = hw_page 12 e va"
    using unat_paddr(3) [OF shift masks(1) frame_of_pfn(1) [OF pte], of va] pte
    by (simp only: hw_page_def)
  show "unat (pmd_paddr k e va) = hw_page 21 e va" if "bit e 7"
    using unat_paddr(2) [OF shift masks(2) _ frame_of_pfn(1) [OF large(1) [OF that]], of va]
      frame_of_pfn(2) [OF large(1) [OF that]] large(1) [OF that]
    by (simp only: hw_page_def) simp
  show "unat (pud_paddr k e va) = hw_page 30 e va" if "bit e 7"
    using unat_paddr(1) [OF shift masks(3) _ frame_of_pfn(1) [OF large(2) [OF that]], of va]
      frame_of_pfn(2) [OF large(2) [OF that]] large(2) [OF that]
    by (simp only: hw_page_def) simp
qed

text \<open>A translation keeps the offset in the 4K page and stays below 2^52.\<close>

lemma hw_page_offset:
  assumes "12 \<le> n" and "n \<le> 52"
  shows "hw_page n e va mod 4096 = unat va mod 4096" and "hw_page n e va < 2 ^ 52"
proof -
  let ?f = "unat e div 2 ^ n mod 2 ^ (52 - n)"
  have dvd: "(4096::nat) dvd 2 ^ n"
    using le_imp_power_dvd [OF assms(1), of "2::nat"] by simp
  then obtain k where k: "(2::nat) ^ n = 4096 * k" by (elim dvdE)
  have "hw_page n e va = unat va mod 2 ^ n + 4096 * (?f * k)"
    by (simp add: hw_page_def hw_frame_def k)
  then have "hw_page n e va mod 4096 = (unat va mod 2 ^ n) mod 4096"
    by (simp only: mod_mult_self2)
  then show "hw_page n e va mod 4096 = unat va mod 4096"
    by (simp add: mod_mod_cancel [OF dvd])
  have "hw_page n e va < Suc ?f * 2 ^ n"
    by (simp add: hw_page_def hw_frame_def)
  also have "\<dots> \<le> 2 ^ (52 - n) * 2 ^ n"
    by (intro mult_le_mono1 Suc_leI) simp
  also have "\<dots> = (2::nat) ^ 52"
    using assms(2) by (simp flip: power_add)
  finally show "hw_page n e va < 2 ^ 52" .
qed

lemma hw_walk_offset:
  assumes "hw_walk la57 pm table va = Inr p"
  shows "p mod 4096 = unat va mod 4096 \<and> p < 2 ^ 52"
proof -
  have "\<exists>n e. n \<in> {12, 21, 30} \<and> p = hw_page n e va"
    using assms by (auto simp: hw_walk_def hw_pml5_def hw_pml4_def hw_pdpt_def hw_pd_def hw_pt_def Let_def split: if_splits)
  then show ?thesis
    using hw_page_offset by auto
qed

lemma printed_paddrs_unless_done:
  "printed_paddrs (unless_done d rest) = printed_paddrs (fst d) @ (if snd d then [] else printed_paddrs rest)"
  by (cases d) simp

text \<open>What the headers say of an entry, as equations for the dumps.\<close>

lemma entry_helpers_present:
  assumes "entry_helpers la57 k"
  shows "k_pgd_present (k_ops k) e \<longleftrightarrow> (la57 \<longrightarrow> bit e 0)" "k_p4d_present (k_ops k) e \<longleftrightarrow> bit e 0"
    "pud_present_good k e \<longleftrightarrow> bit e 0 \<or> bit e 8"
    "k_pmd_present (k_ops k) e \<longleftrightarrow> bit e 0 \<or> bit e 8 \<or> bit e 7"
    "k_pte_present (k_ops k) e \<longleftrightarrow> bit e 0 \<or> bit e 8"
    "bit e 0 \<Longrightarrow> k_pud_leaf (k_ops k) e \<longleftrightarrow> bit e 7" "bit e 0 \<Longrightarrow> k_pmd_leaf (k_ops k) e \<longleftrightarrow> bit e 7"
    "bit e 0 \<Longrightarrow> \<not> k_pmd_none (k_ops k) e" "bit e 0 \<Longrightarrow> \<not> k_pte_none (k_ops k) e"
  using assms
  by (simp_all add: entry_helpers_def Let_def pud_present_good_def has_or has_shl1 del: push_bit_of_1)

lemma table_helpers_offsets:
  assumes "table_helpers la57 w"
  shows "w_memory w (w_pud_offset w (w_memory w) p va) = phys w (hw_frame 12 (w_memory w p) + 8 * hw_index 30 va)"
    "\<not> bit (w_memory w p) 7 \<Longrightarrow>
      w_memory w (w_pmd_offset w (w_memory w) p va) = phys w (hw_frame 12 (w_memory w p) + 8 * hw_index 21 va)"
    "\<not> bit (w_memory w p) 7 \<Longrightarrow> w_memory w (w_pte_offset_kernel w (w_memory w) p va) =
      phys w (hw_frame 12 (w_memory w p) + 8 * hw_index 12 va)"
    "w_memory w (w_p4d_offset w (w_memory w) p va) =
      (if la57 then phys w (hw_frame 12 (w_memory w p) + 8 * hw_index 39 va) else w_memory w p)"
    "w_memory w (w_pgd_offset_pgd w (w_phys_to_virt w (of_nat t)) va) =
      phys w (t + 8 * hw_index (if la57 then 48 else 39) va)"
  using assms by (simp_all add: table_helpers_def phys_def)

text \<open>
  An entry of the level \<open>n\<close> at which the translation stops and that the kernel does not count as mapped either:
  neither present nor PROTNONE, and for a PMD entry without the PSE bit too, because \<^verbatim>\<open>pmd_present\<close> holds of an
  entry with PSE alone, which a huge page has while it is being split.
\<close>

definition unmapped :: "nat \<Rightarrow> u64 \<Rightarrow> bool" where
  "unmapped n e \<longleftrightarrow> \<not> bit e 0 \<and> \<not> bit e 8 \<and> \<not> (n = 21 \<and> bit e 7)"

text \<open>
  How a list of printed addresses agrees with a translation: the address if there is one, nothing if
  the translation stops at an unmapped entry, and anything if it stops at another one.
\<close>

fun agrees :: "u64 list \<Rightarrow> translation \<Rightarrow> bool" where
  "agrees ps (Inr p) \<longleftrightarrow> map unat ps = [p]"
| "agrees ps (Inl (n, e)) \<longleftrightarrow> (unmapped n e \<longrightarrow> ps = [])"

lemma agrees_pte:
  assumes "entry_helpers la57 k"
  shows "agrees (printed_paddrs (dump_pte k e va pke))
    (if bit e 0 then Inr (hw_page 12 e va) else Inl (12, e))"
  using entry_helpers_present [OF assms] paddr_hw_page(1) [OF assms]
  by (simp add: printed_paddrs_dumps unmapped_def)

lemma agrees_pmd:
  assumes "entry_helpers la57 k" and "bit e 0 \<and> \<not> bit e 7 \<Longrightarrow> agrees (printed_paddrs rest) t"
  shows "agrees (printed_paddrs (unless_done (dump_pmd k e va pke) rest))
    (if \<not> bit e 0 then Inl (21, e) else if bit e 7 then Inr (hw_page 21 e va) else t)"
  using entry_helpers_present [OF assms(1)] paddr_hw_page(2) [OF assms(1)] assms(2)
  by (simp add: printed_paddrs_unless_done printed_paddrs_dumps dump_ends unmapped_def)

lemma agrees_pud:
  assumes "entry_helpers la57 k" and "bit e 0 \<and> \<not> bit e 7 \<Longrightarrow> agrees (printed_paddrs rest) t"
  shows "agrees (printed_paddrs (unless_done (dump_pud k e va pke) rest))
    (if \<not> bit e 0 then Inl (30, e) else if bit e 7 then Inr (hw_page 30 e va) else t)"
  using entry_helpers_present [OF assms(1)] paddr_hw_page(3) [OF assms(1)] assms(2)
  by (simp add: printed_paddrs_unless_done printed_paddrs_dumps dump_ends unmapped_def)

lemma agrees_from_p4d:
  assumes "entry_helpers la57 (w_kernel w)" and "table_helpers la57 w"
  shows "agrees (printed_paddrs (walk_4l w pgdp va pke (Some p4dp)))
    (hw_pdpt (phys w) (hw_frame 12 (w_memory w p4dp)) va)"
  unfolding walk_4l_def Let_def option.case hw_pdpt_def hw_pd_def hw_pt_def
    table_helpers_offsets(1) [OF assms(2)]
proof (rule agrees_pud [OF assms(1)], goal_cases)
  case 1
  then have *: "\<not> bit (w_memory w (w_pud_offset w (w_memory w) p4dp va)) 7"
    by (simp add: table_helpers_offsets(1) [OF assms(2)])
  show ?case
    unfolding table_helpers_offsets(2) [OF assms(2) *] table_helpers_offsets(1) [OF assms(2)]
  proof (rule agrees_pmd [OF assms(1)], goal_cases)
    case 1
    then have **: "\<not> bit (w_memory w (w_pmd_offset w (w_memory w) (w_pud_offset w (w_memory w) p4dp va) va)) 7"
      by (simp add: table_helpers_offsets(2) [OF assms(2) *] table_helpers_offsets(1) [OF assms(2)])
    show ?case
      unfolding table_helpers_offsets(3) [OF assms(2) **] table_helpers_offsets(2) [OF assms(2) *]
        table_helpers_offsets(1) [OF assms(2)]
      by (rule agrees_pte [OF assms(1)])
  qed
qed

lemma walk_4l_None:
  "printed_paddrs (walk_4l w pgdp va pke None) =
     (if k_pgd_present (k_ops (w_kernel w)) (w_memory w pgdp)
      then printed_paddrs (walk_4l w pgdp va pke (Some (w_p4d_offset w (w_memory w) pgdp va))) else [])"
  by (simp add: walk_4l_def Let_def printed_paddrs_unless_done printed_paddrs_dumps dump_ends)

text \<open>The level at which a 4-level translation stops, when it is not the first.\<close>

definition past_top :: "bool \<Rightarrow> translation \<Rightarrow> bool" where
  "past_top la57 t \<longleftrightarrow> (\<forall>e. t = Inl (39, e) \<longrightarrow> la57)"

lemma agrees_walk_4l:
  assumes "entry_helpers False (w_kernel w)" and "table_helpers False w"
    and "w_memory w pgdp = phys w (t + 8 * hw_index 39 va)" and "past_top False (hw_pml4 (phys w) t va)"
  shows "agrees (printed_paddrs (walk_4l w pgdp va pke None)) (hw_pml4 (phys w) t va)"
proof -
  have "bit (w_memory w pgdp) 0"
    using assms(3,4) by (auto simp: past_top_def hw_pml4_def Let_def split: if_splits)
  then show ?thesis
    using agrees_from_p4d [OF assms(1,2), of pgdp va pke "w_p4d_offset w (w_memory w) pgdp va"] assms(3)
    by (simp add: walk_4l_None entry_helpers_present [OF assms(1)] hw_pml4_def Let_def
        table_helpers_offsets(4) [OF assms(2)])
qed

lemma agrees_walk_5l:
  assumes "entry_helpers True (w_kernel w)" and "table_helpers True w"
    and "w_memory w pgdp = phys w (t + 8 * hw_index 48 va)"
  shows "agrees (printed_paddrs (walk_5l w pgdp va pke)) (hw_pml5 (phys w) t va)"
  using agrees_from_p4d [OF assms(1,2), of pgdp va pke "w_p4d_offset w (w_memory w) pgdp va"]
  by (simp add: walk_5l_def Let_def printed_paddrs_unless_done printed_paddrs_dumps dump_ends
      entry_helpers_present [OF assms(1)] assms(3) hw_pml5_def hw_pml4_def
      table_helpers_offsets(4) [OF assms(2)])

lemma walk_long_mode:
  assumes "long_mode la57 w"
  shows "walk w pgdp va =
    ((let pke = (w_CONFIG_PROTECTION_KEYS w \<and> has (w_read_cr4 w) (w_X86_CR4_PKE w))
      in if la57 then walk_5l w pgdp va pke else walk_4l w pgdp va pke None), 0)"
  using assms by (simp add: walk_def long_mode_def rdmsrl_wrap_def Let_def)

lemma agrees_walk:
  assumes "entry_helpers la57 (w_kernel w)" and "table_helpers la57 w" and "long_mode la57 w"
    and "w_memory w pgdp = phys w (t + 8 * hw_index (if la57 then 48 else 39) va)"
    and "past_top la57 (hw_walk la57 (phys w) t va)"
  shows "agrees (printed_paddrs (fst (walk w pgdp va))) (hw_walk la57 (phys w) t va) \<and> snd (walk w pgdp va) = 0"
proof (cases la57)
  case True
  then show ?thesis
    using assms agrees_walk_5l [of w pgdp t va] by (simp add: walk_long_mode hw_walk_def Let_def)
next
  case False
  then show ?thesis
    using assms agrees_walk_4l [of w pgdp t va] by (simp add: walk_long_mode hw_walk_def Let_def)
qed

definition kernel_table :: "walk_env \<Rightarrow> nat" where
  "kernel_table w = unat (w_read_cr3 w AND NOT 0xFFF)"

section \<open>The x86-64 machine has the documented behaviour\<close>

lemma and_x86_mask: "e AND x86_mask n = push_bit n (take_bit (52 - n) (drop_bit n e))"
  by (rule bit_word_eqI) (auto simp: x86_mask_def bit_simps)

lemma unat_and_x86_mask:
  assumes "n \<le> 52"
  shows "unat (e AND x86_mask n) = hw_frame n e"
proof -
  let ?p = "take_bit (52 - n) (drop_bit n e)"
  have p: "unat ?p = unat e div 2 ^ n mod 2 ^ (52 - n)"
    by (simp add: unat_take_bit_word unat_drop_bit_word)
  moreover have "unat e div 2 ^ n mod 2 ^ (52 - n) < 2 ^ (64 - n)"
    by (rule order_less_le_trans [of _ "2 ^ (52 - n)"]) (simp_all add: assms)
  ultimately show ?thesis
    using assms unat_push_bit_small [of ?p n] by (simp add: and_x86_mask hw_frame_def)
qed

lemma x86_pfn_frame:
  assumes "bit e 0" and "12 \<le> n" and "n \<le> 52"
  shows "unat (x86_pfn (x86_mask n) e) * 2 ^ 12 = hw_frame n e"
proof -
  have "(2::nat) ^ n = 2 ^ (n - 12) * 2 ^ 12"
    using assms(2) by (simp only: power_add [symmetric] le_add_diff_inverse2)
  then have "hw_frame n e div 2 ^ 12 * 2 ^ 12 = hw_frame n e"
    by (intro dvd_div_mult_self) (simp add: hw_frame_def)
  then show ?thesis
    using assms unat_and_x86_mask [OF assms(3), of e]
    by (simp only: x86_pfn_def x86_needs_invert_def unat_drop_bit_word) simp
qed

lemma bit_x86_mask: "bit (x86_mask n) i \<longleftrightarrow> n \<le> i \<and> i < 52"
  by (auto simp: x86_mask_def bit_simps)

lemma present_not_none: "bit e 0 \<Longrightarrow> has e (- 97)"
  by (auto simp: has_iff_bit intro!: exI [of _ 0])

lemma x86_entry_helpers: "entry_helpers la57 (x86_kernel la57)"
  unfolding entry_helpers_def Let_def
  by (intro conjI allI impI)
    (simp_all add: x86_defs PMD_MASK_def PUD_MASK_def bit_and_iff bit_not_iff bit_x86_mask present_not_none
      x86_pfn_frame [where n = 12, simplified] x86_pfn_frame [where n = 21, simplified]
      x86_pfn_frame [where n = 30, simplified])

lemma x86_index_hw: "x86_index n va = of_nat (hw_index n va)"
proof -
  have "unat (x86_index n va) = hw_index n va"
    by (simp add: x86_index_def hw_index_def unat_take_bit_word unat_drop_bit_word)
  then have "of_nat (unat (x86_index n va)) = (of_nat (hw_index n va) :: u64)" by (rule arg_cong)
  then show ?thesis by simp
qed

lemma and_x86_mask_12: "e AND x86_mask 12 = of_nat (hw_frame 12 e)"
proof -
  have "unat (e AND x86_mask 12) = hw_frame 12 e"
    by (rule unat_and_x86_mask) simp
  then have "of_nat (unat (e AND x86_mask 12)) = (of_nat (hw_frame 12 e) :: u64)" by (rule arg_cong)
  then show ?thesis by simp
qed

lemma x86_table_helpers: "table_helpers la57 (x86_env la57 pm ut)"
  unfolding table_helpers_def
  by (simp add: x86_env_def x86_entry_at_def x86_phys_to_virt_def x86_index_hw and_x86_mask_12 add.commute)

lemma x86_long_mode: "long_mode la57 (x86_env la57 pm ut)"
  by (simp add: long_mode_def x86_env_def has_def)

section \<open>The module\<close>

text \<open>The task that a pid names, and the address space that the module looks at.\<close>

definition task_of :: "walk_env \<Rightarrow> int \<Rightarrow> nat option" where
  "task_of w pid = (if pid = -1 then Some (w_current w) else w_get_pid_task w (w_find_get_pid w pid))"

definition mm_of :: "walk_env \<Rightarrow> int \<Rightarrow> nat option" where
  "mm_of w pid =
     (case task_of w pid of
        None \<Rightarrow> None
      | Some t \<Rightarrow> (case w_mm w t of Some mm \<Rightarrow> Some mm | None \<Rightarrow> w_active_mm w t))"

lemma snd_get_user_pid_task: "snd (get_user_pid_task w pid) = w_get_pid_task w (w_find_get_pid w pid)"
  by (simp add: get_user_pid_task_def)

text \<open>The first step of \<^verbatim>\<open>walk_user\<close>: taking a reference to the task.\<close>

definition take_task :: "walk_env \<Rightarrow> int \<Rightarrow> kevent list" where
  "take_task w pid = (if pid = -1 then [Get_task (w_current w)] else fst (get_user_pid_task w pid))"

lemma take_task_eq:
  "(if pid = -1 then ([Get_task (w_current w)], Some (w_current w)) else get_user_pid_task w pid) =
   (take_task w pid, task_of w pid)"
  by (simp add: take_task_def task_of_def snd_get_user_pid_task [symmetric])

lemma logs_take_task [simp]: "logs (take_task w pid) = []"
  by (simp add: take_task_def get_user_pid_task_def)

lemma walk_user_mm:
  assumes "mm_of w pid = Some mm"
  shows "\<exists>t pre warn. task_of w pid = Some t \<and> printed_paddrs (pre @ warn) = [] \<and>
    walk_user w pid va =
      (take_task w pid @ map Log pre @ [Task_lock t] @ map Log warn @ [Mmget mm, Task_unlock t, Put_task t] @
       map Log (fst (walk w (w_pgd_offset w mm va) va)) @ [Mmput mm], snd (walk w (w_pgd_offset w mm va) va))"
proof -
  obtain t where t: "task_of w pid = Some t"
    using assms by (auto simp: mm_of_def split: option.splits)
  let ?pre = "[pr_info (''Examining '' @ w_comm w t @ ''['' @ fmt_d (w_pid w t) @ ''] vaddr 0x'' @ fmt_lx va @ nl)]"
  let ?warn = "if w_mm w t = None then [pr KERN_WARNING ''page_table_walk''
    (''Task does not have own mm, using active_mm.'' @ nl)] else []"
  have "printed_paddrs (?pre @ ?warn) = []"
    by (simp add: printed_paddr_info) (simp add: printed_paddr_def pr_def)
  moreover have "walk_user w pid va =
      (take_task w pid @ map Log ?pre @ [Task_lock t] @ map Log ?warn @ [Mmget mm, Task_unlock t, Put_task t] @
       map Log (fst (walk w (w_pgd_offset w mm va) va)) @ [Mmput mm], snd (walk w (w_pgd_offset w mm va) va))"
    using assms t
    by (cases "w_mm w t") (simp_all add: walk_user_def take_task_eq mm_of_def Let_def split_beta)
  ultimately show ?thesis using t by blast
qed

lemma walk_user_log:
  assumes "mm_of w pid = Some mm"
  shows "snd (walk_user w pid va) = snd (walk w (w_pgd_offset w mm va) va)"
    and "printed_paddrs (logs (fst (walk_user w pid va))) =
      printed_paddrs (fst (walk w (w_pgd_offset w mm va) va))"
  using walk_user_mm [OF assms, of va] by auto

section \<open>The module on a machine with the documented behaviour\<close>

text \<open>What the module relies on: the helpers for entries and tables, and the mode of the processor.\<close>

locale x86_paging =
  fixes la57 :: bool
    and w :: walk_env
  assumes entries: "entry_helpers la57 (w_kernel w)"
    and tables: "table_helpers la57 w"
    and mode: "long_mode la57 w"
begin

lemma kernel_entry:
  "w_memory w (w_pgd_offset_pgd w (w_phys_to_virt w (w_read_cr3 w AND NOT 0xFFF)) va) =
     phys w (kernel_table w + 8 * hw_index (if la57 then 48 else 39) va)"
  using table_helpers_offsets(5) [OF tables, of "kernel_table w" va] by (simp add: kernel_table_def)

lemma kernel_agrees:
  assumes "past_top la57 (hw_walk la57 (phys w) (kernel_table w) va)"
  shows "\<exists>es. page_table_walk_init w False 0 va = (es, - ECANCELED) \<and>
    agrees (printed_paddrs (logs es)) (hw_walk la57 (phys w) (kernel_table w) va)"
  using agrees_walk [OF entries tables mode kernel_entry assms]
  by (simp add: page_table_walk_init_def walk_kernel_def Let_def split_beta printed_paddr_info)

lemma user_agrees:
  assumes "pid \<noteq> 0" and "mm_of w pid = Some mm"
    and "w_memory w (w_pgd_offset w mm va) = phys w (t + 8 * hw_index (if la57 then 48 else 39) va)"
    and "past_top la57 (hw_walk la57 (phys w) t va)"
  shows "\<exists>es. page_table_walk_init w False pid va = (es, - ECANCELED) \<and>
    agrees (printed_paddrs (logs es)) (hw_walk la57 (phys w) t va)"
  using agrees_walk [OF entries tables mode assms(3,4)] walk_user_log [OF assms(2), of va] assms(1)
  by (simp add: page_table_walk_init_def Let_def split_beta)

lemma kernel_prints:
  assumes "hw_walk la57 (phys w) (kernel_table w) va = Inr p"
  shows "\<exists>es. page_table_walk_init w False 0 va = (es, - ECANCELED) \<and> map unat (printed_paddrs (logs es)) = [p]"
  using kernel_agrees [of va] assms by (simp add: past_top_def)

lemma user_prints:
  assumes "pid \<noteq> 0" and "mm_of w pid = Some mm"
    and "w_memory w (w_pgd_offset w mm va) = phys w (t + 8 * hw_index (if la57 then 48 else 39) va)"
    and "hw_walk la57 (phys w) t va = Inr p"
  shows "\<exists>es. page_table_walk_init w False pid va = (es, - ECANCELED) \<and> map unat (printed_paddrs (logs es)) = [p]"
  using user_agrees [OF assms(1-3)] assms(4) by (simp add: past_top_def)

end

interpretation x86: x86_paging la57 "x86_env la57 pm ut" for la57 pm ut
proof
  show "entry_helpers la57 (w_kernel (x86_env la57 pm ut))"
    using x86_entry_helpers by (simp add: x86_env_def)
qed (rule x86_table_helpers x86_long_mode)+

text \<open>
  C1.  Kernel addresses (\<^verbatim>\<open>pid=0\<close>): whenever the processor, walking the 4-level or 5-level tables that
  CR3 points to, translates the address, through a 4K, 2M or 1G page, the module prints one physical
  address, the one that the processor would access.
\<close>

theorem kernel_walk_translates:
  assumes "entry_helpers la57 (w_kernel w)" and "table_helpers la57 w" and "long_mode la57 w"
    and "hw_walk la57 (phys w) (kernel_table w) va = Inr p"
  shows "\<exists>es. page_table_walk_init w False 0 va = (es, - ECANCELED) \<and>
    map unat (printed_paddrs (logs es)) = [p]"
  by (rule x86_paging.kernel_prints [OF x86_paging.intro [OF assms(1-3)] assms(4)])

theorem kernel_walk_translates_witness:
  "\<exists>es. page_table_walk_init (x86_env False demo_memory 0x5000) False 0 0xFFFF880040000123 = (es, - ECANCELED) \<and>
    map unat (printed_paddrs (logs es)) = [0x40000123]"
proof (rule kernel_walk_translates [OF x86.entries x86.tables x86.mode])
  show "hw_walk False (phys (x86_env False demo_memory 0x5000)) (kernel_table (x86_env False demo_memory 0x5000))
      0xFFFF880040000123 = Inr 0x40000123"
    by (simp add: hw_walk_def hw_pml4_def hw_pdpt_def hw_index_def hw_frame_def hw_page_def phys_def
        kernel_table_def x86_env_def x86_phys_to_virt_def x86_macros_def demo_memory_def)
qed

text \<open>
  User addresses: the same for the tables of the process that \<^verbatim>\<open>pid\<close> names (or the current one
  for \<^verbatim>\<open>-1\<close>), if the process has an address space.
\<close>

theorem user_walk_translates:
  assumes "entry_helpers la57 (w_kernel w)" and "table_helpers la57 w" and "long_mode la57 w"
    and "pid \<noteq> 0" and "mm_of w pid = Some mm"
    and "w_memory w (w_pgd_offset w mm va) = phys w (t + 8 * hw_index (if la57 then 48 else 39) va)"
    and "hw_walk la57 (phys w) t va = Inr p"
  shows "\<exists>es. page_table_walk_init w False pid va = (es, - ECANCELED) \<and>
    map unat (printed_paddrs (logs es)) = [p]"
  by (rule x86_paging.user_prints [OF x86_paging.intro [OF assms(1-3)] assms(4-7)])

theorem user_walk_translates_witness:
  "\<exists>es. page_table_walk_init (x86_env False demo_memory 0x5000) False 42 0x203456 = (es, - ECANCELED) \<and>
    map unat (printed_paddrs (logs es)) = [0x12345456]"
proof (rule user_walk_translates [OF x86.entries x86.tables x86.mode])
  let ?w = "x86_env False demo_memory 0x5000"
  show "mm_of ?w 42 = Some 5"
    by (simp add: mm_of_def task_of_def x86_env_def)
  show "w_memory ?w (w_pgd_offset ?w 5 0x203456) = phys ?w (0x5000 + 8 * hw_index (if False then 48 else 39) 0x203456)"
    by (simp add: hw_index_def x86_index_def phys_def x86_env_def x86_phys_to_virt_def)
  show "hw_walk False (phys ?w) 0x5000 0x203456 = Inr 0x12345456"
    by (simp add: hw_walk_def hw_pml4_def hw_pdpt_def hw_pd_def hw_pt_def hw_index_def hw_frame_def hw_page_def
        phys_def x86_env_def x86_phys_to_virt_def x86_macros_def demo_memory_def)
qed simp

text \<open>
  C10.  No address is made up: if the processor's translation stops at an entry that is neither present
  nor PROTNONE, the module prints no physical address.  Two conditions are needed: with 4-level tables, that the
  translation did not stop at the first entry; and if it stopped at a PMD entry, that the PSE bit of the entry
  is clear, since \<^verbatim>\<open>pmd_present\<close> holds of an entry in which only that bit is set.
\<close>

theorem kernel_walk_unmapped:
  assumes "entry_helpers la57 (w_kernel w)" and "table_helpers la57 w" and "long_mode la57 w"
    and "hw_walk la57 (phys w) (kernel_table w) va = Inl (n, e)" and "unmapped n e" and "la57 \<or> n \<noteq> 39"
  shows "\<exists>es. page_table_walk_init w False 0 va = (es, - ECANCELED) \<and> printed_paddrs (logs es) = []"
  using x86_paging.kernel_agrees [OF x86_paging.intro [OF assms(1-3)], of va] assms(4-6) by (auto simp: past_top_def)

theorem kernel_walk_unmapped_witness:
  "\<exists>es. page_table_walk_init (x86_env True demo_memory 0x5000) False 0 0x8080000000 = (es, - ECANCELED) \<and>
    printed_paddrs (logs es) = []"
proof (rule kernel_walk_unmapped [OF x86.entries x86.tables x86.mode])
  show "hw_walk True (phys (x86_env True demo_memory 0x5000)) (kernel_table (x86_env True demo_memory 0x5000))
      0x8080000000 = Inl (48, 0)"
    by (simp add: hw_walk_def hw_pml5_def hw_index_def phys_def
        kernel_table_def x86_env_def x86_phys_to_virt_def x86_macros_def demo_memory_def)
qed (simp_all add: unmapped_def)

text \<open>
  C29.  With 4-level tables the condition is needed.  The \<^verbatim>\<open>pgd\<close> level is folded, so \<^verbatim>\<open>pgd_present\<close> is
  always true, and the \<^verbatim>\<open>p4d\<close> that holds the real entry is not checked: for an address whose top-level
  entry is not present the module goes on and reads the next entry at the address that the dead entry
  holds (physical address 0 for an empty one).  If that word looks like a 1G page, it prints a physical
  address for an address that is not mapped.
\<close>

theorem walk_4l_missing_top_entry:
  assumes "entry_helpers False (w_kernel w)" and "table_helpers False w" and "long_mode False w"
    and "hw_walk False (phys w) (kernel_table w) va = Inl (39, e)"
    and "bit (phys w (hw_frame 12 e + 8 * hw_index 30 va)) 0"
    and "bit (phys w (hw_frame 12 e + 8 * hw_index 30 va)) 7"
  shows "\<exists>es. page_table_walk_init w False 0 va = (es, - ECANCELED) \<and>
    map unat (printed_paddrs (logs es)) = [hw_page 30 (phys w (hw_frame 12 e + 8 * hw_index 30 va)) va]"
proof -
  let ?pgdp = "w_pgd_offset_pgd w (w_phys_to_virt w (w_read_cr3 w AND NOT 0xFFF)) va"
  let ?pke = "w_CONFIG_PROTECTION_KEYS w \<and> has (w_read_cr4 w) (w_X86_CR4_PKE w)"
  have "w_memory w ?pgdp = phys w (kernel_table w + 8 * hw_index 39 va)"
    using x86_paging.kernel_entry [OF x86_paging.intro [OF assms(1-3)], of va] by simp
  then have e: "w_memory w ?pgdp = e"
    using assms(4) by (auto simp: hw_walk_def hw_pml4_def hw_pdpt_def hw_pd_def hw_pt_def Let_def split: if_splits)
  have "agrees (printed_paddrs (walk_4l w ?pgdp va ?pke (Some ?pgdp))) (hw_pdpt (phys w) (hw_frame 12 e) va)"
    using agrees_from_p4d [OF assms(1,2), of ?pgdp va ?pke ?pgdp] e by simp
  then have "map unat (printed_paddrs (walk_4l w ?pgdp va ?pke (Some ?pgdp))) =
      [hw_page 30 (phys w (hw_frame 12 e + 8 * hw_index 30 va)) va]"
    using assms(5,6) by (simp add: hw_pdpt_def)
  moreover have "w_p4d_offset w (w_memory w) ?pgdp va = ?pgdp"
    using assms(2) by (simp add: table_helpers_def)
  moreover have "k_pgd_present (k_ops (w_kernel w)) e"
    using entry_helpers_present(1) [OF assms(1)] by simp
  ultimately have "map unat (printed_paddrs (fst (walk w ?pgdp va))) =
      [hw_page 30 (phys w (hw_frame 12 e + 8 * hw_index 30 va)) va]" "snd (walk w ?pgdp va) = 0"
    using e by (simp_all add: walk_long_mode [OF assms(3)] Let_def walk_4l_None)
  then show ?thesis
    by (simp add: page_table_walk_init_def walk_kernel_def Let_def split_beta printed_paddr_info)
qed

theorem walk_4l_missing_top_entry_witness:
  "hw_walk False (phys (x86_env False demo_memory 0x5000)) (kernel_table (x86_env False demo_memory 0x5000))
     0x8080000abc = Inl (39, 0) \<and>
   (\<exists>es. page_table_walk_init (x86_env False demo_memory 0x5000) False 0 0x8080000abc = (es, - ECANCELED) \<and>
      map unat (printed_paddrs (logs es)) = [0x80000abc])"
proof -
  let ?w = "x86_env False demo_memory 0x5000" and ?va = "0x8080000abc :: u64"
  have hw: "hw_walk False (phys ?w) (kernel_table ?w) ?va = Inl (39, 0)"
    by (simp add: hw_walk_def hw_pml4_def hw_index_def phys_def
        kernel_table_def x86_env_def x86_phys_to_virt_def x86_macros_def demo_memory_def)
  have garbage: "phys ?w (hw_frame 12 0 + 8 * hw_index 30 ?va) = 0x800000E3"
    by (simp add: hw_frame_def hw_index_def phys_def x86_env_def x86_phys_to_virt_def x86_macros_def demo_memory_def)
  have "hw_page 30 0x800000E3 ?va = 0x80000abc"
    by (simp add: hw_page_def hw_frame_def)
  then show ?thesis
    using walk_4l_missing_top_entry [OF x86.entries x86.tables x86.mode hw] hw
    unfolding garbage by simp
qed

section \<open>References and results\<close>

definition pid_taken :: "walk_env \<Rightarrow> int \<Rightarrow> nat option" where
  "pid_taken w pid = (if pid = -1 then None else w_find_get_pid w pid)"

lemma net_take_task:
  "net kdelta (take_task w pid) r =
     (case pid_taken w pid of None \<Rightarrow> 0 | Some n \<Rightarrow> of_bool (r = Pid_ref n)) +
     (case task_of w pid of None \<Rightarrow> 0 | Some t \<Rightarrow> of_bool (r = Task_ref t))"
  by (auto simp: take_task_def pid_taken_def task_of_def get_user_pid_task_def pid_held_def split: option.splits)

lemma walk_user_no_mm:
  assumes "mm_of w pid = None"
  shows "snd (walk_user w pid va) = - ESRCH"
    and "net kdelta (fst (walk_user w pid va)) r =
      (case pid_taken w pid of None \<Rightarrow> 0 | Some n \<Rightarrow> of_bool (r = Pid_ref n))"
  using assms
  by (auto simp: walk_user_def take_task_eq mm_of_def Let_def split_beta net_take_task split: option.splits)

lemma net_walk_user:
  "net kdelta (fst (walk_user w pid va)) r =
     (case pid_taken w pid of None \<Rightarrow> 0 | Some n \<Rightarrow> of_bool (r = Pid_ref n))"
proof (cases "mm_of w pid")
  case None
  then show ?thesis by (rule walk_user_no_mm)
next
  case (Some mm)
  then show ?thesis
    using walk_user_mm [OF Some, of va] by (auto simp: net_take_task)
qed

text \<open>
  The module never stays loaded: its entry point returns \<^verbatim>\<open>-ESRCH\<close> for a pid without a task or a
  task without an address space, the error of reading the EFER register, and \<^verbatim>\<open>-ECANCELED\<close> otherwise.
\<close>

theorem page_table_walk_result:
  "snd (page_table_walk_init w dump pid va) =
     (if dump then - ECANCELED
      else if pid \<noteq> 0 \<and> mm_of w pid = None then - ESRCH
      else if fst (w_rdmsrl_safe_EFER w) \<noteq> 0 then fst (w_rdmsrl_safe_EFER w)
      else - ECANCELED) \<and>
   snd (page_table_walk_init w dump pid va) \<noteq> 0"
proof -
  have walk: "snd (walk w pgdp va) = fst (w_rdmsrl_safe_EFER w)" for pgdp
    by (simp add: walk_def rdmsrl_wrap_def Let_def split_beta)
  have user: "snd (walk_user w pid va) =
      (if mm_of w pid = None then - ESRCH else fst (w_rdmsrl_safe_EFER w))"
    using walk_user_no_mm(1) [of w pid va] walk_user_log(1) [of w pid _ va] walk by (cases "mm_of w pid") auto
  show ?thesis
    by (simp add: page_table_walk_init_def walk_kernel_def Let_def split_beta user walk errno_defs)
qed

lemma net_page_table_walk_init:
  "net kdelta (fst (page_table_walk_init w dump pid va)) r =
     (if dump \<or> pid = 0 \<or> pid = -1 then 0 else pid_held (w_find_get_pid w) pid r)"
  by (simp add: page_table_walk_init_def walk_kernel_def Let_def split_beta net_walk_user pid_taken_def pid_held_def)

interpretation walk_module: leaking_module "\<lambda>(w, dump, pid, va). page_table_walk_init w dump pid va" "\<lambda>_. []" kdelta
    "\<lambda>(w, dump, pid, va) r. if dump \<or> pid = 0 \<or> pid = -1 then 0 else pid_held (w_find_get_pid w) pid r"
  by unfold_locales (simp add: load_cycle_def page_table_walk_result net_page_table_walk_init split_beta)

text \<open>
  On every path, error paths included, the module gives back the task reference, the task's lock
  and the reference to the address space that it took; what it does not give back is the reference to
  the \<^verbatim>\<open>struct pid\<close>, one for each load with a pid other than 0 and -1.
\<close>

theorem page_table_walk_references:
  "net kdelta (load_cycles (\<lambda>(w, dump, pid, va). page_table_walk_init w dump pid va) (\<lambda>_. [])
      (replicate n (w, dump, pid, va))) r =
    (if dump \<or> pid = 0 \<or> pid = -1 then 0
     else case w_find_get_pid w pid of None \<Rightarrow> 0 | Some p \<Rightarrow> if r = Pid_ref p then int n else 0)"
  by (simp add: walk_module.net_repeated pid_held_def split: option.splits)

end
