(* ===== verification/Task_Queue.thy ===== *)
theory Task_Queue
  imports Kernel "HOL-Library.Sublist"
begin

text \<open>
  The queue of \<^verbatim>\<open>modules/task_bfs_dfs.c\<close>: \<^verbatim>\<open>struct queue\<close> nodes allocated with \<^verbatim>\<open>kmalloc\<close> and linked
  through \<^verbatim>\<open>next\<close>, a head pointer, and for breadth-first search a pointer to the last \<^verbatim>\<open>next\<close> field.
  The heap is explicit, so that using or freeing memory that is not allocated is an outcome of the
  model.  The interface at the end says what the queue is: a first-in first-out or last-in
  first-out list of tasks that owns every node of the heap.
\<close>

section \<open>Nodes, heap and state\<close>

type_synonym task = nat
type_synonym addr = nat

record qnode =
  q_task :: task
  q_next :: "addr option"

record qstate =
  q_heap :: "addr \<rightharpoonup> qnode"
  q_head :: "addr option"
  q_tail :: "addr option"
  q_calls :: nat

text \<open>
  \<open>q_tail\<close> is the address of the node whose \<^verbatim>\<open>next\<close> field \<^verbatim>\<open>tail\<close> points to; \<open>q_calls\<close> counts the calls
  of \<^verbatim>\<open>kmalloc\<close> made so far.
\<close>

datatype qstop = Bad_access "addr option" | Out_of_fuel | Nomem

type_synonym 'a qrun = "(kevent, qstop \<times> qstate, 'a) run"

section \<open>Operations\<close>

text \<open>\<^verbatim>\<open>tmp = q; q = q->next; kfree(tmp);\<close>\<close>

definition pop_node :: "qstate \<Rightarrow> qstate qrun" where
  "pop_node st =
     (case q_head st of
        None \<Rightarrow> stop (Bad_access None, st)
      | Some a \<Rightarrow>
          (case q_heap st a of
             None \<Rightarrow> stop (Bad_access (Some a), st)
           | Some n \<Rightarrow>
               ([Kfree a], Inr (st\<lparr>q_head := q_next n, q_heap := (q_heap st)(a := None)\<rparr>))))"

text \<open>Filling in a fresh node and linking it at the tail or at the head.\<close>

definition link_node :: "bool \<Rightarrow> task \<Rightarrow> addr \<Rightarrow> qstate \<Rightarrow> qstate qrun" where
  "link_node use_bfs child tmp st =
     (if use_bfs then
        (let h = (q_heap st)(tmp \<mapsto> \<lparr>q_task = child, q_next = None\<rparr>)
         in case q_tail st of
              None \<Rightarrow> stop (Bad_access None, st)
            | Some last_node \<Rightarrow>
                (case h last_node of
                   None \<Rightarrow> stop (Bad_access (Some last_node), st)
                 | Some n \<Rightarrow>
                     ret (st\<lparr>q_heap := h(last_node \<mapsto> n\<lparr>q_next := Some tmp\<rparr>), q_tail := Some tmp\<rparr>)))
      else
        ret (st\<lparr>q_heap := (q_heap st)(tmp \<mapsto> \<lparr>q_task = child, q_next = q_head st\<rparr>), q_head := Some tmp\<rparr>))"

text \<open>
  The \<^verbatim>\<open>list_for_each\<close> over the children.  \<^verbatim>\<open>kmalloc\<close> is a parameter: given the number of earlier calls
  and the heap it returns an address or nothing.
\<close>

type_synonym allocator = "nat \<Rightarrow> (addr \<rightharpoonup> qnode) \<Rightarrow> addr option"

fun push_children :: "allocator \<Rightarrow> bool \<Rightarrow> task list \<Rightarrow> qstate \<Rightarrow> qstate qrun" where
  "push_children km use_bfs [] st = ret st"
| "push_children km use_bfs (child # cs) st =
     thenR (emit [Get_task child])
       (case km (q_calls st) (q_heap st) of
          None \<Rightarrow> stop (Nomem, st\<lparr>q_calls := Suc (q_calls st)\<rparr>)
        | Some tmp \<Rightarrow>
            thenR (emit [Kmalloc tmp])
              (bindR (link_node use_bfs child tmp (st\<lparr>q_calls := Suc (q_calls st)\<rparr>))
                 (push_children km use_bfs cs)))"

text \<open>The loop after the label \<^verbatim>\<open>out_nomem\<close>: free what is left.\<close>

fun free_queue :: "nat \<Rightarrow> qstate \<Rightarrow> qstate qrun" where
  "free_queue 0 st = (case q_head st of None \<Rightarrow> ret st | Some _ \<Rightarrow> stop (Out_of_fuel, st))"
| "free_queue (Suc fuel) st =
     (case q_head st of None \<Rightarrow> ret st | Some _ \<Rightarrow> bindR (pop_node st) (free_queue fuel))"

section \<open>Resources\<close>

text \<open>What a queue that holds the tasks \<open>ws\<close> in the heap \<open>h\<close> owns: a reference per entry, its nodes.\<close>

definition owned :: "task list \<Rightarrow> qstate \<Rightarrow> kresource \<Rightarrow> int" where
  "owned ws st r =
     (case r of
        Task_ref t \<Rightarrow> int (count (mset ws) t)
      | Node a \<Rightarrow> of_bool (q_heap st a \<noteq> None)
      | _ \<Rightarrow> 0)"

section \<open>The representation invariant\<close>

text \<open>\<open>chain h p as ts e\<close>: from pointer \<open>p\<close>, the nodes at \<open>as\<close> hold \<open>ts\<close> and the last one leads to \<open>e\<close>.\<close>

fun chain :: "(addr \<rightharpoonup> qnode) \<Rightarrow> addr option \<Rightarrow> addr list \<Rightarrow> task list \<Rightarrow> addr option \<Rightarrow> bool" where
  "chain h p [] [] e \<longleftrightarrow> p = e"
| "chain h p (a # as) (t # ts) e \<longleftrightarrow>
     p = Some a \<and> (case h a of None \<Rightarrow> False | Some n \<Rightarrow> q_task n = t \<and> chain h (q_next n) as ts e)"
| "chain h p _ _ e \<longleftrightarrow> False"

definition qrep :: "bool \<Rightarrow> qstate \<Rightarrow> task list \<Rightarrow> bool" where
  "qrep use_bfs st ws \<longleftrightarrow>
     (\<exists>as. chain (q_heap st) (q_head st) as ws None \<and> distinct as \<and> dom (q_heap st) = set as \<and>
           (use_bfs \<longrightarrow> as \<noteq> [] \<longrightarrow> q_tail st = Some (last as)))"

lemma chain_length: "chain h p as ts e \<Longrightarrow> length as = length ts"
  by (induction h p as ts e rule: chain.induct) (auto split: option.splits)

lemma chain_append:
  "length as = length ts \<Longrightarrow>
   chain h p (as @ bs) (ts @ us) e \<longleftrightarrow> (\<exists>m. chain h p as ts m \<and> chain h m bs us e)"
  by (induction as ts arbitrary: p rule: list_induct2) (auto split: option.splits)

lemma chain_upd [simp]: "b \<notin> set as \<Longrightarrow> chain (h(b := x)) p as ts e \<longleftrightarrow> chain h p as ts e"
  by (induction h p as ts e rule: chain.induct) (auto split: option.splits)

lemma chain_None_Nil: "chain h None as ts None \<longleftrightarrow> as = [] \<and> ts = []"
  by (cases as; cases ts) auto

lemma chain_Nil_iff [simp]: "chain h p as [] e \<longleftrightarrow> as = [] \<and> p = e"
  by (cases as) auto

lemma chain_Cons_iff:
  "chain h p as (t # ts) e \<longleftrightarrow>
     (\<exists>a as' n. as = a # as' \<and> p = Some a \<and> h a = Some n \<and> q_task n = t \<and> chain h (q_next n) as' ts e)"
  by (cases as) (auto split: option.splits)

lemma qrep_head_None: "qrep use_bfs st ws \<Longrightarrow> q_head st = None \<longleftrightarrow> ws = []"
  by (cases ws) (auto simp: qrep_def chain_Cons_iff)

lemma qrep_Nil: "qrep use_bfs st [] \<Longrightarrow> q_head st = None \<and> q_heap st = Map.empty"
  by (auto simp: qrep_def dest: chain_length)

lemma qrep_finite: "qrep use_bfs st ws \<Longrightarrow> finite (dom (q_heap st))"
  by (auto simp: qrep_def)

lemma qrep_head_task:
  assumes "qrep use_bfs st (t # ws)"
  obtains a n where "q_head st = Some a" "q_heap st a = Some n" "q_task n = t"
  using assms by (auto simp: qrep_def chain_Cons_iff)

lemma qrep_calls [simp]: "qrep use_bfs (st\<lparr>q_calls := c\<rparr>) ws = qrep use_bfs st ws"
  by (simp add: qrep_def)

section \<open>The operations on the represented list\<close>

lemma pop_node_ok:
  assumes "qrep use_bfs st (t # ws)"
  obtains a st' where "pop_node st = ([Kfree a], Inr st')" and "qrep use_bfs st' ws"
    and "q_heap st a \<noteq> None" and "q_heap st' = (q_heap st)(a := None)" and "q_calls st' = q_calls st"
proof -
  from assms obtain a as n where as: "chain (q_heap st) (q_head st) (a # as) (t # ws) None"
    and d: "distinct (a # as)" and dom: "dom (q_heap st) = set (a # as)"
    and tail: "use_bfs \<longrightarrow> q_tail st = Some (last (a # as))"
    and n: "q_head st = Some a" "q_heap st a = Some n" "chain (q_heap st) (q_next n) as ws None"
    by (auto simp: qrep_def chain_Cons_iff)
  define st' where "st' = st\<lparr>q_head := q_next n, q_heap := (q_heap st)(a := None)\<rparr>"
  have "dom (q_heap st') = set as"
    using dom d by (auto simp: st'_def)
  then have "qrep use_bfs st' ws"
    unfolding qrep_def using n(3) d tail
    by (intro exI [of _ as]) (auto simp: st'_def)
  with n show thesis
    by (intro that [of a st']) (simp_all add: pop_node_def st'_def)
qed

lemma link_node_dfs:
  assumes "qrep False st ws" and "q_heap st tmp = None"
  obtains st' where "link_node False c tmp st = ret st'" and "qrep False st' (c # ws)"
    and "dom (q_heap st') = insert tmp (dom (q_heap st))" and "q_calls st' = q_calls st"
proof -
  from assms(1) obtain as where as: "chain (q_heap st) (q_head st) as ws None" "distinct as"
    and dom: "dom (q_heap st) = set as"
    by (auto simp: qrep_def)
  have fresh: "tmp \<notin> set as"
    using assms(2) dom by auto
  define st' where
    "st' = st\<lparr>q_heap := (q_heap st)(tmp \<mapsto> \<lparr>q_task = c, q_next = q_head st\<rparr>), q_head := Some tmp\<rparr>"
  have "qrep False st' (c # ws)"
    unfolding qrep_def using as fresh dom
    by (intro exI [of _ "tmp # as"]) (auto simp: st'_def)
  then show thesis
    by (intro that [of st']) (auto simp: link_node_def st'_def)
qed

lemma link_node_bfs:
  assumes "qrep True st ws" and "ws \<noteq> []" and "q_heap st tmp = None"
  obtains st' where "link_node True c tmp st = ret st'" and "qrep True st' (ws @ [c])"
    and "dom (q_heap st') = insert tmp (dom (q_heap st))" and "q_calls st' = q_calls st"
proof -
  from assms(1) obtain as where as: "chain (q_heap st) (q_head st) as ws None" "distinct as"
    and dom: "dom (q_heap st) = set as" and tail: "as \<noteq> [] \<longrightarrow> q_tail st = Some (last as)"
    by (auto simp: qrep_def)
  from as(1) assms(2) have "as \<noteq> []" by (auto dest: chain_length)
  then obtain bs b where bs: "as = bs @ [b]" by (cases as rule: rev_cases) auto
  obtain us u where us: "ws = us @ [u]" using assms(2) by (cases ws rule: rev_cases) auto
  have len: "length bs = length us"
    using chain_length [OF as(1)] by (simp add: bs us)
  with as(1) obtain n where n: "q_heap st b = Some n" "q_task n = u"
    and pre: "chain (q_heap st) (q_head st) bs us (Some b)"
    by (auto simp: bs us chain_append split: option.splits)
  have fresh: "tmp \<notin> set as" "tmp \<noteq> b" "b \<notin> set bs" "tmp \<notin> set bs"
    using assms(3) dom as(2) by (auto simp: bs)
  define h where "h = (q_heap st)(tmp \<mapsto> \<lparr>q_task = c, q_next = None\<rparr>, b \<mapsto> n\<lparr>q_next := Some tmp\<rparr>)"
  define st' where "st' = st\<lparr>q_heap := h, q_tail := Some tmp\<rparr>"
  have "chain h (q_head st) bs us (Some b)"
    using pre fresh by (simp add: h_def)
  then have "chain h (q_head st) (as @ [tmp]) (ws @ [c]) None"
    using len n fresh by (auto simp: bs us chain_append h_def)
  moreover have domh: "dom h = insert tmp (dom (q_heap st))"
    using n by (auto simp: h_def)
  ultimately have "qrep True st' (ws @ [c])"
    unfolding qrep_def using as(2) fresh dom
    by (intro exI [of _ "as @ [tmp]"]) (auto simp: st'_def)
  moreover have "link_node True c tmp st = ret st'"
    using tail n fresh \<open>as \<noteq> []\<close> by (simp add: link_node_def st'_def h_def bs)
  ultimately show thesis
    using domh by (intro that [of st']) (simp_all add: st'_def)
qed

section \<open>The interface of the queue\<close>

text \<open>What the code relies on when it calls \<^verbatim>\<open>kmalloc\<close>: the memory it gets is not in use.\<close>

definition fresh_allocator :: "allocator \<Rightarrow> bool" where
  "fresh_allocator km \<longleftrightarrow> (\<forall>n h a. km n h = Some a \<longrightarrow> h a = None)"

text \<open>Whether it can fail while memory is left.\<close>

definition may_fail :: "allocator \<Rightarrow> bool" where
  "may_fail km \<longleftrightarrow> (\<exists>n h. finite (dom h) \<and> km n h = None)"

text \<open>
  A discipline of the queue: where a linked task goes in the represented list, and when linking is
  allowed.  The client is the loop over the children.
\<close>

locale task_queue =
  fixes use_bfs :: bool
    and add :: "task list \<Rightarrow> task \<Rightarrow> task list"
    and ready :: "task list \<Rightarrow> bool"
  assumes link_ok: "qrep use_bfs st ws \<Longrightarrow> ready ws \<Longrightarrow> q_heap st tmp = None \<Longrightarrow>
      \<exists>st'. link_node use_bfs c tmp st = ret st' \<and> qrep use_bfs st' (add ws c) \<and>
            dom (q_heap st') = insert tmp (dom (q_heap st)) \<and> q_calls st' = q_calls st"
    and ready_add: "ready ws \<Longrightarrow> ready (add ws c)"
    and mset_add: "mset (add ws c) = add_mset c (mset ws)"
begin

lemma owned_add:
  assumes "dom (q_heap st') = insert tmp (dom (q_heap st))" and "q_heap st tmp = None"
  shows "owned (add ws c) st' r = owned ws st r + of_bool (r = Task_ref c) + of_bool (r = Node tmp)"
proof (cases r)
  case (Node a)
  have "q_heap st' a \<noteq> None \<longleftrightarrow> a = tmp \<or> q_heap st a \<noteq> None"
    using assms(1) by (auto simp: dom_def)
  with Node assms(2) show ?thesis
    by (auto simp: owned_def)
qed (auto simp: owned_def mset_add)

text \<open>One child: allocated, filled in, linked, and the rest.\<close>

lemma push_children_Cons:
  assumes "fresh_allocator km" and "qrep use_bfs st ws" and "ready ws" and "km (q_calls st) (q_heap st) = Some tmp"
  obtains st1 where
    "push_children km use_bfs (c # cs) st =
       (Get_task c # Kmalloc tmp # fst (push_children km use_bfs cs st1), snd (push_children km use_bfs cs st1))"
    and "qrep use_bfs st1 (add ws c)"
    and "\<And>r. owned (add ws c) st1 r = owned ws st r + of_bool (r = Task_ref c) + of_bool (r = Node tmp)"
proof -
  have free: "q_heap st tmp = None"
    using assms(1,4) by (auto simp: fresh_allocator_def)
  then obtain st1 where st1: "link_node use_bfs c tmp (st\<lparr>q_calls := Suc (q_calls st)\<rparr>) = ret st1"
    "qrep use_bfs st1 (add ws c)" "dom (q_heap st1) = insert tmp (dom (q_heap st))"
    using link_ok [of "st\<lparr>q_calls := Suc (q_calls st)\<rparr>" ws tmp c] assms(2,3) by auto
  show thesis
    by (rule that [OF _ st1(2) owned_add [OF st1(3) free]]) (use assms(4) st1(1) in simp)
qed

lemma push_children_ok:
  assumes "fresh_allocator km" and "qrep use_bfs st ws" and "ready ws"
  shows "(\<exists>es st'. push_children km use_bfs cs st = (es, Inr st') \<and>
            qrep use_bfs st' (foldl add ws cs) \<and>
            (\<forall>r. net kdelta es r = owned (foldl add ws cs) st' r - owned ws st r)) \<or>
         (\<exists>es st' done c rest. push_children km use_bfs cs st = (es, Inl (Nomem, st')) \<and>
            cs = done @ c # rest \<and> qrep use_bfs st' (foldl add ws done) \<and>
            may_fail km \<and>
            (\<forall>r. net kdelta es r =
               owned (foldl add ws done) st' r - owned ws st r + of_bool (r = Task_ref c)))"
  using assms(2,3)
proof (induction cs arbitrary: st ws)
  case Nil
  then show ?case by (simp add: ret_def)
next
  case (Cons c cs)
  let ?st = "st\<lparr>q_calls := Suc (q_calls st)\<rparr>"
  have own: "owned ws ?st r = owned ws st r" for r
    by (simp add: owned_def split: kresource.splits)
  show ?case
  proof (cases "km (q_calls st) (q_heap st)")
    case None
    show ?thesis
    proof (rule disjI2, intro exI conjI)
      show "push_children km use_bfs (c # cs) st = ([Get_task c], Inl (Nomem, ?st))"
        using None by (simp add: stop_def)
      show "c # cs = [] @ c # cs" by simp
      show "may_fail km"
        unfolding may_fail_def using None qrep_finite [OF Cons.prems(1)] by blast
    qed (use Cons.prems own in simp_all)
  next
    case (Some tmp)
    then obtain st1 where push: "push_children km use_bfs (c # cs) st =
        (Get_task c # Kmalloc tmp # fst (push_children km use_bfs cs st1), snd (push_children km use_bfs cs st1))"
      and st1: "qrep use_bfs st1 (add ws c)"
      and step: "\<And>r. owned (add ws c) st1 r = owned ws st r + of_bool (r = Task_ref c) + of_bool (r = Node tmp)"
      using push_children_Cons [OF assms(1) Cons.prems, of tmp c cs] by blast
    from Cons.IH [OF st1 ready_add [OF Cons.prems(2), of c]] show ?thesis
    proof (elim disjE exE conjE, goal_cases)
      case (1 es st')
      then show ?case
        using push step by (intro disjI1 exI [of _ "Get_task c # Kmalloc tmp # es"] exI [of _ st']) auto
    next
      case (2 es st' don d rest)
      then show ?case
        using push step
        by (intro disjI2 exI [of _ "Get_task c # Kmalloc tmp # es"] exI [of _ st'] exI [of _ "c # don"]
              exI [of _ d] exI [of _ rest]) auto
    qed
  qed
qed

end

interpretation bfs: task_queue True "\<lambda>ws c. ws @ [c]" "\<lambda>ws. ws \<noteq> []"
  by unfold_locales (use link_node_bfs in \<open>blast | simp\<close>)+

interpretation dfs: task_queue False "\<lambda>ws c. c # ws" "\<lambda>ws. True"
  by unfold_locales (use link_node_dfs in \<open>blast | simp\<close>)+

lemma foldl_snoc [simp]: "foldl (\<lambda>ws c. ws @ [c]) ws cs = ws @ cs"
  by (induction cs arbitrary: ws) simp_all

lemma foldl_push [simp]: "foldl (\<lambda>ws c. c # ws) ws cs = rev cs @ ws"
  by (induction cs arbitrary: ws) simp_all

text \<open>
  C8.  The queue stays well formed: linking the children of a task in never touches memory that is not the
  queue's, and whether or not memory runs out on the way, the result is again a list of distinct nodes that
  are all of the heap, with the tail pointer at the last one, that holds the old tasks and a prefix of the
  children, at the end for breadth-first and at the front for depth-first search.
\<close>

theorem push_children_well_formed:
  assumes "fresh_allocator km" and "qrep use_bfs st ws" and "use_bfs \<longrightarrow> ws \<noteq> []"
  shows "\<exists>es st' linked. prefix linked cs \<and>
    push_children km use_bfs cs st = (es, if linked = cs then Inr st' else Inl (Nomem, st')) \<and>
    qrep use_bfs st' (if use_bfs then ws @ linked else rev linked @ ws)"
proof -
  have "(\<exists>es st'. push_children km use_bfs cs st = (es, Inr st') \<and>
      qrep use_bfs st' (if use_bfs then ws @ cs else rev cs @ ws)) \<or>
    (\<exists>es st' don c rest. push_children km use_bfs cs st = (es, Inl (Nomem, st')) \<and> cs = don @ c # rest \<and>
      qrep use_bfs st' (if use_bfs then ws @ don else rev don @ ws))"
  proof (cases use_bfs)
    case True
    with assms have "qrep True st ws" "ws \<noteq> []" by simp_all
    from bfs.push_children_ok [OF assms(1) this, of cs] show ?thesis
      by (simp only: True if_True foldl_snoc) blast
  next
    case False
    with assms have "qrep False st ws" by simp
    from dfs.push_children_ok [OF assms(1) this TrueI, of cs] show ?thesis
      by (simp only: False if_False foldl_push) blast
  qed
  then show ?thesis
  proof (elim disjE exE conjE)
    fix es st'
    assume "push_children km use_bfs cs st = (es, Inr st')" "qrep use_bfs st' (if use_bfs then ws @ cs else rev cs @ ws)"
    then show ?thesis by (intro exI [of _ es] exI [of _ st'] exI [of _ cs]) simp
  next
    fix es st' don c rest
    assume "push_children km use_bfs cs st = (es, Inl (Nomem, st'))" "cs = don @ c # rest"
      "qrep use_bfs st' (if use_bfs then ws @ don else rev don @ ws)"
    then show ?thesis by (intro exI [of _ es] exI [of _ st'] exI [of _ don]) simp
  qed
qed

text \<open>A queue of one node, and an allocator that has room for one more.\<close>

definition one_node :: qstate where
  "one_node = \<lparr>q_heap = [0 \<mapsto> \<lparr>q_task = 1, q_next = None\<rparr>], q_head = Some 0, q_tail = Some 0, q_calls = 1\<rparr>"

definition one_more :: allocator where
  "one_more n h = (if h 1 = None then Some 1 else None)"

theorem push_children_well_formed_witness:
  "\<exists>es st' linked. prefix linked [7, 8] \<and>
    push_children one_more True [7, 8] one_node = (es, if linked = [7, 8] then Inr st' else Inl (Nomem, st')) \<and>
    qrep True st' ([1] @ linked)"
proof -
  have fresh: "fresh_allocator one_more"
    by (simp add: fresh_allocator_def one_more_def)
  have rep: "qrep True one_node [1]"
    unfolding qrep_def by (intro exI [of _ "[0]"]) (auto simp: one_node_def)
  from push_children_well_formed [OF fresh rep, of "[7, 8]"] show ?thesis by simp
qed

text \<open>Popping the head gives up what the queue owned for it: the node, while the reference moves on.\<close>

lemma owned_pop:
  assumes "q_heap st a \<noteq> None" and "q_heap st' = (q_heap st)(a := None)"
  shows "owned ws st' r = owned (t # ws) st r - of_bool (r = Task_ref t) - of_bool (r = Node a)"
  using assms by (cases r) (auto simp: owned_def)

text \<open>Freeing the queue returns every node, and no reference.\<close>

lemma free_queue_ok:
  assumes "qrep use_bfs st ws" and "length ws \<le> fuel"
  shows "\<exists>es st'. free_queue fuel st = (es, Inr st') \<and> q_heap st' = Map.empty \<and>
    (\<forall>a. net kdelta es (Node a) = - of_bool (q_heap st a \<noteq> None)) \<and>
    (\<forall>r. (\<forall>a. r \<noteq> Node a) \<longrightarrow> net kdelta es r = 0)"
  using assms
proof (induction fuel arbitrary: st ws)
  case 0
  then show ?case by (auto simp: ret_def dest!: qrep_Nil)
next
  case (Suc fuel)
  show ?case
  proof (cases ws)
    case Nil
    with Suc.prems show ?thesis by (auto simp: ret_def dest!: qrep_Nil)
  next
    case (Cons t ws')
    with Suc.prems(1) obtain a st1 where pop: "pop_node st = ([Kfree a], Inr st1)" "qrep use_bfs st1 ws'"
      and h: "q_heap st a \<noteq> None" "q_heap st1 = (q_heap st)(a := None)"
      by (auto elim: pop_node_ok)
    have "q_head st \<noteq> None"
      using qrep_head_None [OF Suc.prems(1)] Cons by simp
    moreover obtain es st' where IH: "free_queue fuel st1 = (es, Inr st')" "q_heap st' = Map.empty"
      "\<forall>a. net kdelta es (Node a) = - of_bool (q_heap st1 a \<noteq> None)"
      "\<forall>r. (\<forall>a. r \<noteq> Node a) \<longrightarrow> net kdelta es r = 0"
      using Suc.IH [OF pop(2)] Suc.prems(2) Cons by auto
    ultimately show ?thesis
      using pop(1) h by (intro exI [of _ "Kfree a # es"] exI [of _ st']) auto
  qed
qed

end
