(* ===== verification/Task_Tree.thy ===== *)
theory Task_Tree
  imports Task_Queue
begin

text \<open>
  \<^verbatim>\<open>modules/task_bfs_dfs.c\<close>: the dump of a task and its threads, the traversal loop with its two
  disciplines, the out-of-memory exit and \<^verbatim>\<open>modinit\<close>.  The process tree, the fields of a
  \<^verbatim>\<open>task_struct\<close>, the pid table and \<^verbatim>\<open>kmalloc\<close> are parameters (\<open>task_env\<close>).  The properties: the
  traversal prints every task of the tree exactly once, in preorder with the children of a task
  reversed or in level order; it never touches memory it does not own, frees all its nodes on every
  path, and gives back every task reference unless an allocation fails.
\<close>

section \<open>The kernel as the module sees it\<close>

record task_env =
  t_find_get_pid :: "int \<Rightarrow> nat option"
  t_get_pid_task :: "nat option \<Rightarrow> task option"
  t_real_parent :: "task \<Rightarrow> task"
  t_pid :: "task \<Rightarrow> int"
  t_comm :: "task \<Rightarrow> string"
  t_state :: "task \<Rightarrow> u64"
  t_children :: "task \<Rightarrow> task list"
  t_threads :: "task \<Rightarrow> task list"
  t_since_5_14 :: bool
  t_kmalloc :: allocator

section \<open>Printing a task\<close>

text \<open>The state field is an \<^verbatim>\<open>unsigned\<close> since Linux 5.14 and a \<^verbatim>\<open>long\<close> before.\<close>

definition task_state :: "task_env \<Rightarrow> task \<Rightarrow> string" where
  "task_state env t =
     (if t_since_5_14 env then fmt_u (unat (ucast (t_state env t) :: u32))
      else fmt_d (sint (t_state env t)))"

definition task_line :: "task_env \<Rightarrow> string \<Rightarrow> task \<Rightarrow> log_line" where
  "task_line env label t =
     pr KERN_INFO ''task_bfs_dfs''
       (label @ pad_right 20 (t_comm env t) @ '' State: '' @ task_state env t @ tab @
        ''PID: '' @ fmt_d (t_pid env t) @ tab @ ''PPID: '' @ fmt_d (t_pid env (t_real_parent env t)) @ nl)"

definition dump_task_threads :: "task_env \<Rightarrow> task \<Rightarrow> kevent list" where
  "dump_task_threads env t =
     concat (map (\<lambda>thread.
       [Get_task thread, Rcu_read_lock, Rcu_read_unlock, Log (task_line env ''  Thead: '' thread),
        Put_task thread]) (t_threads env t))"

definition dump_task :: "task_env \<Rightarrow> bool \<Rightarrow> task \<Rightarrow> kevent list" where
  "dump_task env dump_threads t =
     [Rcu_read_lock, Rcu_read_unlock, Log (task_line env ''Name: '' t)] @
     (if dump_threads then dump_task_threads env t else [])"

section \<open>The traversal\<close>

text \<open>One round of the \<^verbatim>\<open>while\<close> loop.\<close>

definition tree_step :: "task_env \<Rightarrow> bool \<Rightarrow> bool \<Rightarrow> qstate \<Rightarrow> qstate qrun" where
  "tree_step env use_bfs dump_threads st =
     (case q_head st of
        None \<Rightarrow> stop (Bad_access None, st)
      | Some q \<Rightarrow>
          (case q_heap st q of
             None \<Rightarrow> stop (Bad_access (Some q), st)
           | Some node \<Rightarrow>
               let t = q_task node
               in bindR (if use_bfs then ret st else pop_node st) (\<lambda>st1.
                  thenR (emit (dump_task env dump_threads t))
                  (bindR (push_children (t_kmalloc env) use_bfs (t_children env t) st1) (\<lambda>st2.
                   thenR (emit [Put_task t])
                   (if use_bfs then pop_node st2 else ret st2))))))"

text \<open>The loop; running out of fuel is an outcome of its own.\<close>

fun tree_loop :: "task_env \<Rightarrow> bool \<Rightarrow> bool \<Rightarrow> nat \<Rightarrow> qstate \<Rightarrow> qstate qrun" where
  "tree_loop env use_bfs dump_threads 0 st =
     (case q_head st of None \<Rightarrow> ret st | Some _ \<Rightarrow> stop (Out_of_fuel, st))"
| "tree_loop env use_bfs dump_threads (Suc fuel) st =
     (case q_head st of
        None \<Rightarrow> ret st
      | Some _ \<Rightarrow>
          bindR (tree_step env use_bfs dump_threads st) (tree_loop env use_bfs dump_threads fuel))"

definition dump_children_tree :: "task_env \<Rightarrow> bool \<Rightarrow> bool \<Rightarrow> nat \<Rightarrow> task \<Rightarrow> qstate qrun" where
  "dump_children_tree env use_bfs dump_threads fuel t =
     (case t_kmalloc env 0 Map.empty of
        None \<Rightarrow> ret \<lparr>q_heap = Map.empty, q_head = None, q_tail = None, q_calls = 1\<rparr>
      | Some q \<Rightarrow>
          (let st = \<lparr>q_heap = [q \<mapsto> \<lparr>q_task = t, q_next = None\<rparr>], q_head = Some q,
                     q_tail = (if use_bfs then Some q else None), q_calls = 1\<rparr>
           in thenR (emit [Kmalloc q])
                (case tree_loop env use_bfs dump_threads fuel st of
                   (es, Inl (Nomem, st')) \<Rightarrow> thenR (emit es) (free_queue fuel st')
                 | r \<Rightarrow> r)))"

definition get_user_pid_task :: "task_env \<Rightarrow> int \<Rightarrow> kevent list \<times> task option" where
  "get_user_pid_task env pid = find_pid_task (t_find_get_pid env) (t_get_pid_task env) pid"

definition modinit :: "task_env \<Rightarrow> bool \<Rightarrow> bool \<Rightarrow> int \<Rightarrow> nat \<Rightarrow> int qrun" where
  "modinit env use_bfs dump_threads user_pid fuel =
     (case get_user_pid_task env user_pid of
        (es, None) \<Rightarrow>
          (es @ [Log (pr KERN_ERR ''task_bfs_dfs'' (''No process with user PID = '' @ fmt_d user_pid @ ''.'' @ nl))],
           Inr (- ESRCH))
      | (es, Some tsk) \<Rightarrow>
          thenR (emit (es @ [Log (pr KERN_INFO ''task_bfs_dfs''
            (''Running '' @ (if use_bfs then ''BFS'' else ''DFS'') @ '' on task '' @ quot @ t_comm env tsk @ quot @
             '' (PID: '' @ fmt_d (t_pid env tsk) @ '')'' @ nl))]))
            (bindR (dump_children_tree env use_bfs dump_threads fuel tsk) (\<lambda>_. ret (- ECANCELED))))"

text \<open>A concrete kernel: task 1 has the children 2 and 3, task 2 the child 4.\<close>

definition demo_kmalloc :: allocator where
  "demo_kmalloc n h = (if finite (dom h) then Some (Suc (Max (insert 0 (dom h)))) else None)"

definition demo_tasks :: task_env where
  "demo_tasks =
     \<lparr>t_find_get_pid = (\<lambda>pid. if pid = 1 then Some 7 else None),
      t_get_pid_task = (\<lambda>p. if p = Some 7 then Some 1 else None),
      t_real_parent = (\<lambda>t. if t = 4 then 2 else if t = 2 \<or> t = 3 then 1 else 0),
      t_pid = (\<lambda>t. int t), t_comm = (\<lambda>t. ''task''), t_state = (\<lambda>t. 1),
      t_children = (\<lambda>t. if t = 1 then [2, 3] else if t = 2 then [4] else []),
      t_threads = (\<lambda>t. [t]), t_since_5_14 = True, t_kmalloc = demo_kmalloc\<rparr>"

section \<open>Specification: the orders of a tree\<close>

datatype ptree = PNode (root: task) (kids: "ptree list")

text \<open>\<open>matches env t\<close>: the children lists of the kernel are those of the tree \<open>t\<close>.\<close>

fun matches :: "task_env \<Rightarrow> ptree \<Rightarrow> bool" where
  "matches env (PNode t ks) \<longleftrightarrow> t_children env t = map root ks \<and> list_all (matches env) ks"

fun nodes :: "ptree \<Rightarrow> task multiset" where
  "nodes (PNode t ks) = add_mset t (sum_list (map nodes ks))"

fun tree_size :: "ptree \<Rightarrow> nat" where
  "tree_size (PNode t ks) = Suc (sum_list (map tree_size ks))"

fun rev_preorder :: "ptree \<Rightarrow> task list" where
  "rev_preorder (PNode t ks) = t # concat (rev (map rev_preorder ks))"

lemma tree_size_positive: "0 < tree_size t"
  by (cases t) simp

lemma length_le_tree_sizes: "length fs \<le> sum_list (map tree_size fs)"
proof (induction fs)
  case (Cons t fs)
  then show ?case using tree_size_positive [of t] by simp
qed simp

lemma tree_sizes_kids:
  "fs \<noteq> [] \<Longrightarrow> sum_list (map tree_size (concat (map kids fs))) < sum_list (map tree_size fs)"
proof (induction fs)
  case (Cons t fs)
  then show ?case
    by (cases t; cases "fs = []") simp_all
qed simp

text \<open>All roots of a forest, then all roots of the forest of their children, and so on.\<close>

function level_order :: "ptree list \<Rightarrow> task list" where
  "level_order fs =
     (if fs = [] then [] else map root fs @ level_order (concat (map kids fs)))"
  by auto
termination
  by (relation "measure (\<lambda>fs. sum_list (map tree_size fs))")
    (rule wf_measure, simp only: in_measure, erule tree_sizes_kids)

declare level_order.simps [simp del]

text \<open>The order in which a worklist of trees is emptied, for the two disciplines.\<close>

function forest_order :: "bool \<Rightarrow> ptree list \<Rightarrow> task list" where
  "forest_order use_bfs [] = []"
| "forest_order use_bfs (PNode t ks # fs) =
     t # forest_order use_bfs (if use_bfs then fs @ ks else rev ks @ fs)"
  by pat_completeness auto
termination
  by (relation "measure (\<lambda>(b, fs). sum_list (map tree_size fs))") (auto simp: rev_map [symmetric])

lemma mset_forest_order: "mset (forest_order use_bfs fs) = sum_list (map nodes fs)"
  by (induction use_bfs fs rule: forest_order.induct)
    (auto simp: rev_map [symmetric] ac_simps)

lemma forest_order_dfs: "forest_order False fs = concat (map rev_preorder fs)"
  by (induction False fs rule: forest_order.induct) (auto simp: rev_map)

lemma forest_order_bfs_append:
  "forest_order True (fs @ gs) = map root fs @ forest_order True (gs @ concat (map kids fs))"
proof (induction fs arbitrary: gs)
  case Nil
  then show ?case by simp
next
  case (Cons t fs)
  obtain x ks where t: "t = PNode x ks" by (cases t)
  have "forest_order True ((t # fs) @ gs) = x # forest_order True (fs @ (gs @ ks))"
    by (simp add: t)
  also have "\<dots> = x # map root fs @ forest_order True ((gs @ ks) @ concat (map kids fs))"
    by (simp only: Cons.IH)
  finally show ?case by (simp add: t)
qed

lemma forest_order_bfs: "forest_order True fs = level_order fs"
proof (induction fs rule: level_order.induct)
  case (1 fs)
  then show ?case
    using forest_order_bfs_append [of fs "[]"] by (simp add: level_order.simps [of fs])
qed

section \<open>One round of the loop\<close>

text \<open>The lines of a task: its own and, if asked for, those of its threads.\<close>

definition task_lines :: "task_env \<Rightarrow> bool \<Rightarrow> task \<Rightarrow> log_line list" where
  "task_lines env dump_threads t =
     task_line env ''Name: '' t #
     (if dump_threads then map (task_line env ''  Thead: '') (t_threads env t) else [])"

lemma logs_threads: "logs (dump_task_threads env t) = map (task_line env ''  Thead: '') (t_threads env t)"
proof -
  have "logs (concat (map (\<lambda>thread. [Get_task thread, Rcu_read_lock, Rcu_read_unlock,
      Log (task_line env ''  Thead: '' thread), Put_task thread]) ts)) = map (task_line env ''  Thead: '') ts" for ts
    by (induction ts) simp_all
  then show ?thesis by (simp add: dump_task_threads_def)
qed

lemma net_threads: "net kdelta (dump_task_threads env t) r = 0"
proof -
  have "net kdelta (concat (map (\<lambda>thread. [Get_task thread, Rcu_read_lock, Rcu_read_unlock,
      Log (task_line env ''  Thead: '' thread), Put_task thread]) ts)) r = 0" for ts
    by (induction ts) simp_all
  then show ?thesis by (simp add: dump_task_threads_def)
qed

lemma logs_dump_task [simp]: "logs (dump_task env dump_threads t) = task_lines env dump_threads t"
  by (simp add: dump_task_def task_lines_def logs_threads)

lemma net_dump_task [simp]: "net kdelta (dump_task env dump_threads t) r = 0"
  by (simp add: dump_task_def net_threads)

lemma logs_push_children: "push_children km use_bfs cs st = (es, r) \<Longrightarrow> logs es = []"
proof (induction cs arbitrary: st es r)
  case Nil
  then show ?case by (simp add: ret_def)
next
  case (Cons c cs)
  show ?case
  proof (cases "km (q_calls st) (q_heap st)")
    case None
    with Cons.prems show ?thesis by (auto simp: stop_def)
  next
    case (Some tmp)
    let ?l = "link_node use_bfs c tmp (st\<lparr>q_calls := Suc (q_calls st)\<rparr>)"
    have "fst ?l = []"
      by (auto simp: link_node_def Let_def ret_def stop_def split: option.splits)
    with Some Cons show ?thesis
      by (cases ?l; cases "snd ?l") (auto simp: prod_eq_iff)
  qed
qed

definition next_list :: "bool \<Rightarrow> task list \<Rightarrow> task list \<Rightarrow> task list" where
  "next_list use_bfs ws cs = (if use_bfs then ws @ cs else rev cs @ ws)"

text \<open>
  What a round that fails to allocate leaves behind: a queue \<open>ws'\<close> still in memory, and references
  (\<open>leak\<close>) that nothing owns any more, at least the one just taken on a child \<open>c\<close>.
\<close>

definition nomem_leaves ::
  "bool \<Rightarrow> qstate \<Rightarrow> task list \<Rightarrow> task list \<Rightarrow> task list \<Rightarrow> kevent list \<Rightarrow> qstate \<Rightarrow> bool" where
  "nomem_leaves use_bfs st ws cs ws' es st' \<longleftrightarrow>
     qrep use_bfs st' ws' \<and>
     (\<exists>c leak. c \<in> set cs \<and> 0 < leak (Task_ref c) \<and> (\<forall>r. 0 \<le> leak r) \<and>
        (\<forall>r. (\<forall>t. r \<noteq> Task_ref t) \<longrightarrow> leak r = 0) \<and>
        (\<forall>r. net kdelta es r = owned ws' st' r - owned ws st r + leak r))"

lemma tree_step_bfs:
  assumes fresh: "fresh_allocator (t_kmalloc env)" and rep: "qrep True st (t # ws)"
  shows "(\<exists>es st'. tree_step env True thr st = (es, Inr st') \<and>
            qrep True st' (ws @ t_children env t) \<and> logs es = task_lines env thr t \<and>
            (\<forall>r. net kdelta es r = owned (ws @ t_children env t) st' r - owned (t # ws) st r)) \<or>
         (\<exists>es st' ws'. tree_step env True thr st = (es, Inl (Nomem, st')) \<and>
            nomem_leaves True st (t # ws) (t_children env t) ws' es st' \<and>
            length ws' \<le> length ws + length (t_children env t) \<and> may_fail (t_kmalloc env) \<and> logs es = task_lines env thr t)"
proof -
  from rep obtain a n where hd: "q_head st = Some a" "q_heap st a = Some n" "q_task n = t"
    by (rule qrep_head_task)
  let ?push = "push_children (t_kmalloc env) True (t_children env t) st"
  from bfs.push_children_ok [OF fresh rep list.distinct(2), of "t_children env t"] show ?thesis
  proof (elim disjE exE conjE)
    fix es st2
    assume push: "?push = (es, Inr st2)"
      and rep2: "qrep True st2 (foldl (\<lambda>ws c. ws @ [c]) (t # ws) (t_children env t))"
      and net: "\<forall>r. net kdelta es r =
        owned (foldl (\<lambda>ws c. ws @ [c]) (t # ws) (t_children env t)) st2 r - owned (t # ws) st r"
    from rep2 have "qrep True st2 (t # (ws @ t_children env t))" by simp
    then obtain b st' where pop: "pop_node st2 = ([Kfree b], Inr st')"
      "qrep True st' (ws @ t_children env t)" "q_heap st2 b \<noteq> None" "q_heap st' = (q_heap st2)(b := None)"
      by (rule pop_node_ok)
    have "tree_step env True thr st = (dump_task env thr t @ es @ [Put_task t, Kfree b], Inr st')"
      using hd push pop(1) by (simp add: tree_step_def Let_def)
    moreover note owned_pop [OF pop(3,4), of "ws @ t_children env t" _ t]
    ultimately show ?thesis
      using pop(2) net logs_push_children [OF push] by (intro disjI1 exI conjI) auto
  next
    fix es st2 don c rest
    assume push: "?push = (es, Inl (Nomem, st2))" and cs: "t_children env t = don @ c # rest"
      and rep2: "qrep True st2 (foldl (\<lambda>ws c. ws @ [c]) (t # ws) don)"
      and fail: "may_fail (t_kmalloc env)"
      and net: "\<forall>r. net kdelta es r =
        owned (foldl (\<lambda>ws c. ws @ [c]) (t # ws) don) st2 r - owned (t # ws) st r + of_bool (r = Task_ref c)"
    have "tree_step env True thr st = (dump_task env thr t @ es, Inl (Nomem, st2))"
      using hd push by (simp add: tree_step_def Let_def)
    moreover have "nomem_leaves True st (t # ws) (t_children env t) (t # ws @ don)
        (dump_task env thr t @ es) st2"
      unfolding nomem_leaves_def using rep2 net cs
      by (intro conjI exI [of _ c] exI [of _ "\<lambda>r. of_bool (r = Task_ref c)"]) auto
    ultimately show ?thesis
      using cs fail logs_push_children [OF push] by (intro disjI2 exI conjI) auto
  qed
qed

lemma tree_step_dfs:
  assumes fresh: "fresh_allocator (t_kmalloc env)" and rep: "qrep False st (t # ws)"
  shows "(\<exists>es st'. tree_step env False thr st = (es, Inr st') \<and>
            qrep False st' (rev (t_children env t) @ ws) \<and> logs es = task_lines env thr t \<and>
            (\<forall>r. net kdelta es r = owned (rev (t_children env t) @ ws) st' r - owned (t # ws) st r)) \<or>
         (\<exists>es st' ws'. tree_step env False thr st = (es, Inl (Nomem, st')) \<and>
            nomem_leaves False st (t # ws) (t_children env t) ws' es st' \<and>
            length ws' \<le> length ws + length (t_children env t) \<and> may_fail (t_kmalloc env) \<and> logs es = task_lines env thr t)"
proof -
  from rep obtain a n where hd: "q_head st = Some a" "q_heap st a = Some n" "q_task n = t"
    by (rule qrep_head_task)
  from rep obtain b st1 where pop: "pop_node st = ([Kfree b], Inr st1)" "qrep False st1 ws"
    "q_heap st b \<noteq> None" "q_heap st1 = (q_heap st)(b := None)"
    by (rule pop_node_ok)
  note own = owned_pop [OF pop(3,4), of ws _ t]
  let ?push = "push_children (t_kmalloc env) False (t_children env t) st1"
  from dfs.push_children_ok [OF fresh pop(2) TrueI, of "t_children env t"] show ?thesis
  proof (elim disjE exE conjE)
    fix es st2
    assume push: "?push = (es, Inr st2)"
      and rep2: "qrep False st2 (foldl (\<lambda>ws c. c # ws) ws (t_children env t))"
      and net: "\<forall>r. net kdelta es r =
        owned (foldl (\<lambda>ws c. c # ws) ws (t_children env t)) st2 r - owned ws st1 r"
    have "tree_step env False thr st = (Kfree b # dump_task env thr t @ es @ [Put_task t], Inr st2)"
      using hd push pop(1) by (simp add: tree_step_def Let_def ret_def)
    then show ?thesis
      using rep2 net own logs_push_children [OF push] by (intro disjI1 exI conjI) auto
  next
    fix es st2 don c rest
    assume push: "?push = (es, Inl (Nomem, st2))" and cs: "t_children env t = don @ c # rest"
      and rep2: "qrep False st2 (foldl (\<lambda>ws c. c # ws) ws don)"
      and fail: "may_fail (t_kmalloc env)"
      and net: "\<forall>r. net kdelta es r =
        owned (foldl (\<lambda>ws c. c # ws) ws don) st2 r - owned ws st1 r + of_bool (r = Task_ref c)"
    have "tree_step env False thr st = (Kfree b # dump_task env thr t @ es, Inl (Nomem, st2))"
      using hd push pop(1) by (simp add: tree_step_def Let_def)
    moreover have "nomem_leaves False st (t # ws) (t_children env t) (rev don @ ws)
        (Kfree b # dump_task env thr t @ es) st2"
      unfolding nomem_leaves_def using rep2 net cs own
      by (intro conjI exI [of _ c] exI [of _ "\<lambda>r. of_bool (r = Task_ref c) + of_bool (r = Task_ref t)"]) auto
    ultimately show ?thesis
      using cs fail logs_push_children [OF push] by (intro disjI2 exI conjI) auto
  qed
qed

lemma tree_step_ok:
  assumes "fresh_allocator (t_kmalloc env)" and "qrep use_bfs st (t # ws)"
  shows "(\<exists>es st'. tree_step env use_bfs thr st = (es, Inr st') \<and>
            qrep use_bfs st' (next_list use_bfs ws (t_children env t)) \<and> logs es = task_lines env thr t \<and>
            (\<forall>r. net kdelta es r =
               owned (next_list use_bfs ws (t_children env t)) st' r - owned (t # ws) st r)) \<or>
         (\<exists>es st' ws'. tree_step env use_bfs thr st = (es, Inl (Nomem, st')) \<and>
            nomem_leaves use_bfs st (t # ws) (t_children env t) ws' es st' \<and>
            length ws' \<le> length ws + length (t_children env t) \<and> may_fail (t_kmalloc env) \<and> logs es = task_lines env thr t)"
  using tree_step_bfs [of env st t ws thr] tree_step_dfs [of env st t ws thr] assms
  by (cases use_bfs) (simp_all add: next_list_def)

section \<open>The loop\<close>

lemma nomem_leaves_compose:
  assumes "nomem_leaves use_bfs st1 ws1 cs ws' es2 st'"
    and "\<forall>r. net kdelta es1 r = owned ws1 st1 r - owned ws st r"
  shows "nomem_leaves use_bfs st ws cs ws' (es1 @ es2) st'"
proof -
  from assms(1) obtain c leak where
    "qrep use_bfs st' ws'" "c \<in> set cs" "0 < leak (Task_ref c)" "\<forall>r. 0 \<le> leak r"
    "\<forall>r. (\<forall>t. r \<noteq> Task_ref t) \<longrightarrow> leak r = 0"
    "\<forall>r. net kdelta es2 r = owned ws' st' r - owned ws1 st1 r + leak r"
    unfolding nomem_leaves_def by blast
  then show ?thesis
    unfolding nomem_leaves_def using assms(2)
    by (intro conjI exI [of _ c] exI [of _ leak]) auto
qed

lemma matches_kids:
  "matches env t \<Longrightarrow> t_children env (root t) = map root (kids t) \<and> list_all (matches env) (kids t)"
  by (cases t) simp

definition next_forest :: "bool \<Rightarrow> ptree list \<Rightarrow> ptree list \<Rightarrow> ptree list" where
  "next_forest use_bfs fs ks = (if use_bfs then fs @ ks else rev ks @ fs)"

lemma next_forest_props:
  "map root (next_forest b fs ks) = next_list b (map root fs) (map root ks)"
  "list_all P (next_forest b fs ks) \<longleftrightarrow> list_all P fs \<and> list_all P ks"
  "sum_list (map tree_size (next_forest b fs ks)) = sum_list (map tree_size fs) + sum_list (map tree_size ks)"
  "forest_order b (PNode t ks # fs) = t # forest_order b (next_forest b fs ks)"
  by (auto simp: next_forest_def next_list_def rev_map simp flip: rev_map)

text \<open>
  What the loop does from a queue that holds the roots of \<open>fs\<close>: it empties the queue and prints the whole
  forest, or an allocation failed after part of it.
\<close>

definition loop_ok :: "task_env \<Rightarrow> bool \<Rightarrow> bool \<Rightarrow> nat \<Rightarrow> ptree list \<Rightarrow> qstate \<Rightarrow> bool" where
  "loop_ok env use_bfs thr fuel fs st \<longleftrightarrow>
     (\<exists>es st'. tree_loop env use_bfs thr fuel st = (es, Inr st') \<and> qrep use_bfs st' [] \<and>
        logs es = concat (map (task_lines env thr) (forest_order use_bfs fs)) \<and>
        (\<forall>r. net kdelta es r = owned [] st' r - owned (map root fs) st r)) \<or>
     (\<exists>es st' ws' cs k. tree_loop env use_bfs thr fuel st = (es, Inl (Nomem, st')) \<and>
        nomem_leaves use_bfs st (map root fs) cs ws' es st' \<and> length ws' \<le> fuel \<and>
        may_fail (t_kmalloc env) \<and>
        logs es = concat (map (task_lines env thr) (take k (forest_order use_bfs fs))))"

lemma loop_ok_Nil:
  assumes "qrep use_bfs st []"
  shows "loop_ok env use_bfs thr fuel [] st"
proof -
  have "q_head st = None" using qrep_Nil [OF assms] by simp
  with assms show ?thesis
    unfolding loop_ok_def by (intro disjI1) (cases fuel; simp add: ret_def)
qed

text \<open>A round that succeeds, followed by the rest of the loop.\<close>

lemma loop_ok_step:
  assumes "loop_ok env use_bfs thr fuel (next_forest use_bfs gs ks) st1" and "q_head st \<noteq> None"
    and "tree_step env use_bfs thr st = (es1, Inr st1)" and "logs es1 = task_lines env thr t"
    and "\<forall>r. net kdelta es1 r = owned (map root (next_forest use_bfs gs ks)) st1 r - owned (t # map root gs) st r"
  shows "loop_ok env use_bfs thr (Suc fuel) (PNode t ks # gs) st"
proof -
  let ?gs = "next_forest use_bfs gs ks"
  have loop: "tree_loop env use_bfs thr (Suc fuel) st =
      (es1 @ fst (tree_loop env use_bfs thr fuel st1), snd (tree_loop env use_bfs thr fuel st1))"
    using assms(2,3) by auto
  note lines = next_forest_props(4) [of use_bfs t ks gs]
  from assms(1) show ?thesis
    unfolding loop_ok_def
  proof (elim disjE exE conjE, goal_cases)
    case (1 es2 st2)
    then show ?case
      using loop assms(4,5) lines by (intro disjI1 exI [of _ "es1 @ es2"] exI [of _ st2]) simp
  next
    case (2 es2 st2 ws' cs k)
    then show ?case
      using loop assms(4) lines nomem_leaves_compose [OF _ assms(5), of use_bfs cs ws' es2 st2]
      by (intro disjI2 exI [of _ "es1 @ es2"] exI [of _ st2] exI [of _ ws'] exI [of _ cs]
            exI [of _ "Suc k"]) auto
  qed
qed

text \<open>A round in which an allocation fails.\<close>

lemma loop_ok_nomem:
  assumes "q_head st \<noteq> None" and "tree_step env use_bfs thr st = (es, Inl (Nomem, st'))"
    and "nomem_leaves use_bfs st (t # map root gs) cs ws' es st'" and "length ws' \<le> Suc fuel"
    and "may_fail (t_kmalloc env)" and "logs es = task_lines env thr t"
  shows "loop_ok env use_bfs thr (Suc fuel) (PNode t ks # gs) st"
  unfolding loop_ok_def using assms next_forest_props(4) [of use_bfs t ks gs]
  by (intro disjI2 exI [of _ es] exI [of _ st'] exI [of _ ws'] exI [of _ cs] exI [of _ "1::nat"]) auto

lemma tree_loop_ok:
  assumes "fresh_allocator (t_kmalloc env)" and "list_all (matches env) fs"
    and "qrep use_bfs st (map root fs)" and "sum_list (map tree_size fs) \<le> fuel"
  shows "loop_ok env use_bfs thr fuel fs st"
  using assms(2-4)
proof (induction fuel arbitrary: fs st)
  case 0
  then have "fs = []"
    using length_le_tree_sizes [of fs] by (metis le_zero_eq length_0_conv)
  with 0 show ?case by (simp add: loop_ok_Nil)
next
  case (Suc fuel)
  show ?case
  proof (cases fs)
    case (Cons tr gs)
    obtain t ks where tr: "tr = PNode t ks" by (cases tr)
    let ?gs = "next_forest use_bfs gs ks"
    have ch: "t_children env t = map root ks" and m: "list_all (matches env) ?gs"
      and size: "sum_list (map tree_size ?gs) \<le> fuel" and rep: "qrep use_bfs st (t # map root gs)"
      using Suc.prems by (simp_all add: Cons tr next_forest_props)
    have hd: "q_head st \<noteq> None"
      using qrep_head_None [OF rep] by simp
    have len: "length (map root gs) + length (map root ks) \<le> fuel"
      using length_le_tree_sizes [of ?gs] size by (simp add: next_forest_def split: if_splits)
    have next_list: "next_list use_bfs (map root gs) (t_children env t) = map root ?gs"
      by (simp add: next_forest_props ch)
    from tree_step_ok [OF assms(1) rep, of thr] show ?thesis
      unfolding Cons tr next_list
    proof (elim disjE exE conjE, goal_cases)
      case (1 es1 st1)
      then show ?case
        using Suc.IH [OF m _ size] by (intro loop_ok_step [OF _ hd]) simp_all
    next
      case (2 es st' ws')
      then show ?case
        using len by (intro loop_ok_nomem [OF hd]) (simp_all add: ch, linarith)
    qed
  qed (use Suc.prems loop_ok_Nil in simp)
qed

section \<open>Properties\<close>

lemma free_queue_logs: "logs (fst (free_queue fuel st)) = []"
proof (induction fuel arbitrary: st)
  case (Suc fuel)
  have "logs (fst (pop_node st)) = []"
    by (auto simp: pop_node_def stop_def split: option.splits)
  with Suc show ?case
    by (auto simp: fst_bindR ret_def split: option.splits sum.splits)
qed (auto simp: ret_def stop_def split: option.splits)

text \<open>The state the loop starts in represents the one-task queue.\<close>

lemma qrep_initial:
  "qrep use_bfs \<lparr>q_heap = [q \<mapsto> \<lparr>q_task = t, q_next = None\<rparr>], q_head = Some q,
     q_tail = (if use_bfs then Some q else None), q_calls = 1\<rparr> [t]"
  unfolding qrep_def by (intro exI [of _ "[q]"]) auto

definition first_state :: "bool \<Rightarrow> addr \<Rightarrow> task \<Rightarrow> qstate" where
  "first_state use_bfs q t = \<lparr>q_heap = [q \<mapsto> \<lparr>q_task = t, q_next = None\<rparr>], q_head = Some q,
     q_tail = (if use_bfs then Some q else None), q_calls = 1\<rparr>"

lemma owned_first: "owned [t] (first_state use_bfs q t) r = of_bool (r = Task_ref t) + of_bool (r = Node q)"
  by (cases r) (auto simp: owned_def first_state_def)

lemma dump_children_tree_first:
  assumes "t_kmalloc env 0 Map.empty = Some q"
  shows "dump_children_tree env use_bfs thr fuel t =
    thenR (emit [Kmalloc q])
      (case tree_loop env use_bfs thr fuel (first_state use_bfs q t) of
         (es, Inl (Nomem, st')) \<Rightarrow> thenR (emit es) (free_queue fuel st')
       | r \<Rightarrow> r)"
  using assms unfolding dump_children_tree_def Let_def first_state_def by simp

text \<open>
  What a whole traversal does: it succeeds with the complete output, or an allocation failed and
  it has printed part of the output, freed its nodes and lost references.
\<close>

definition dump_complete :: "task_env \<Rightarrow> bool \<Rightarrow> bool \<Rightarrow> nat \<Rightarrow> ptree \<Rightarrow> bool" where
  "dump_complete env use_bfs thr fuel tr \<longleftrightarrow>
     (\<exists>es st'. dump_children_tree env use_bfs thr fuel (root tr) = (es, Inr st') \<and>
        q_heap st' = Map.empty \<and> logs es = concat (map (task_lines env thr) (forest_order use_bfs [tr])) \<and>
        (\<forall>r. net kdelta es r = - of_bool (r = Task_ref (root tr))))"

definition dump_cut_short :: "task_env \<Rightarrow> bool \<Rightarrow> bool \<Rightarrow> nat \<Rightarrow> ptree \<Rightarrow> bool" where
  "dump_cut_short env use_bfs thr fuel tr \<longleftrightarrow>
     (\<exists>es st' k. dump_children_tree env use_bfs thr fuel (root tr) = (es, Inr st') \<and>
        q_heap st' = Map.empty \<and> may_fail (t_kmalloc env) \<and>
        logs es = concat (map (task_lines env thr) (take k (forest_order use_bfs [tr]))) \<and>
        (\<forall>r. 0 \<le> net kdelta es r + of_bool (r = Task_ref (root tr))) \<and>
        (\<exists>t. 0 < net kdelta es (Task_ref t) + of_bool (t = root tr)) \<and>
        (\<forall>r. (\<forall>t. r \<noteq> Task_ref t) \<longrightarrow> net kdelta es r = 0))"

lemma dump_first_fails: "t_kmalloc env 0 Map.empty = None \<Longrightarrow> dump_cut_short env use_bfs thr fuel tr"
  unfolding dump_cut_short_def
  by (intro exI [of _ "[]"] exI [of _ "0::nat"]
    exI [of _ "\<lparr>q_heap = Map.empty, q_head = None, q_tail = None, q_calls = 1\<rparr>"])
    (auto simp: dump_children_tree_def ret_def may_fail_def intro!: exI [of _ "0::nat"] exI [of _ Map.empty])

lemma dump_loop_ends:
  assumes "t_kmalloc env 0 Map.empty = Some q"
    and "tree_loop env use_bfs thr fuel (first_state use_bfs q (root tr)) = (es, Inr st')" and "qrep use_bfs st' []"
    and "logs es = concat (map (task_lines env thr) (forest_order use_bfs [tr]))"
    and "\<forall>r. net kdelta es r = owned [] st' r - owned (map root [tr]) (first_state use_bfs q (root tr)) r"
  shows "dump_complete env use_bfs thr fuel tr"
proof -
  have "owned [] st' r = 0" for r
    using qrep_Nil [OF assms(3)] by (cases r) (auto simp: owned_def)
  with assms qrep_Nil [OF assms(3)] show ?thesis
    unfolding dump_complete_def
    by (intro exI [of _ "Kmalloc q # es"] exI [of _ st'])
      (auto simp: dump_children_tree_first owned_first)
qed

lemma dump_loop_nomem:
  assumes "t_kmalloc env 0 Map.empty = Some q"
    and loop: "tree_loop env use_bfs thr fuel (first_state use_bfs q (root tr)) = (es, Inl (Nomem, st'))"
    and lv: "nomem_leaves use_bfs (first_state use_bfs q (root tr)) (map root [tr]) cs ws' es st'"
    and len: "length ws' \<le> fuel" and fail: "may_fail (t_kmalloc env)"
    and log: "logs es = concat (map (task_lines env thr) (take k (forest_order use_bfs [tr])))"
  shows "dump_cut_short env use_bfs thr fuel tr"
proof -
  from lv obtain c leak where rep': "qrep use_bfs st' ws'" and c: "0 < leak (Task_ref c)"
    and leak: "\<forall>r. 0 \<le> leak r" "\<forall>r. (\<forall>t. r \<noteq> Task_ref t) \<longrightarrow> leak r = (0::int)"
    and net: "\<forall>r. net kdelta es r = owned ws' st' r - owned [root tr] (first_state use_bfs q (root tr)) r + leak r"
    unfolding nomem_leaves_def by auto
  obtain es2 st2 where free: "free_queue fuel st' = (es2, Inr st2)" "q_heap st2 = Map.empty"
    and freed: "\<forall>a. net kdelta es2 (Node a) = - of_bool (q_heap st' a \<noteq> None)"
    and other: "\<forall>r. (\<forall>a. r \<noteq> Node a) \<longrightarrow> net kdelta es2 r = 0"
    using free_queue_ok [OF rep' len] by blast
  have nolog: "logs es2 = []"
    using free_queue_logs [of fuel st'] free(1) by simp
  have tot: "net kdelta (Kmalloc q # es @ es2) r + of_bool (r = Task_ref (root tr)) =
      (case r of Task_ref t \<Rightarrow> int (count (mset ws') t) + leak r | _ \<Rightarrow> 0)" for r
    using net freed other leak(2) by (cases r) (auto simp: owned_def first_state_def)
  have run: "dump_children_tree env use_bfs thr fuel (root tr) = (Kmalloc q # es @ es2, Inr st2)"
    using assms(1) loop free(1) by (simp add: dump_children_tree_first)
  have "net kdelta (Kmalloc q # es @ es2) r = 0" if "\<forall>t. r \<noteq> Task_ref t" for r
    using tot [of r] that by (cases r) auto
  moreover have "0 \<le> net kdelta (Kmalloc q # es @ es2) r + of_bool (r = Task_ref (root tr))" for r
    using tot [of r] leak(1) by (auto split: kresource.splits)
  moreover have "\<exists>t. 0 < net kdelta (Kmalloc q # es @ es2) (Task_ref t) + of_bool (t = root tr)"
    using tot [of "Task_ref c"] c by (intro exI [of _ c]) auto
  ultimately show ?thesis
    unfolding dump_cut_short_def using run free(2) log nolog fail
    by (intro exI [of _ "Kmalloc q # es @ es2"] exI [of _ st2] exI [of _ k]) auto
qed

lemma dump_children_tree_ok:
  assumes "fresh_allocator (t_kmalloc env)" and "matches env tr" and "tree_size tr \<le> fuel"
  shows "dump_complete env use_bfs thr fuel tr \<or> dump_cut_short env use_bfs thr fuel tr"
proof (cases "t_kmalloc env 0 Map.empty")
  case (Some q)
  have "qrep use_bfs (first_state use_bfs q (root tr)) (map root [tr])"
    using qrep_initial by (simp add: first_state_def)
  then have "loop_ok env use_bfs thr fuel [tr] (first_state use_bfs q (root tr))"
    using assms by (intro tree_loop_ok) simp_all
  then show ?thesis
    unfolding loop_ok_def using dump_loop_ends [OF Some] dump_loop_nomem [OF Some] by (elim disjE exE conjE) auto
qed (simp add: dump_first_fails)

definition banner :: "task_env \<Rightarrow> bool \<Rightarrow> task \<Rightarrow> log_line" where
  "banner env use_bfs t = pr KERN_INFO ''task_bfs_dfs''
     (''Running '' @ (if use_bfs then ''BFS'' else ''DFS'') @ '' on task '' @ quot @ t_comm env t @ quot @
      '' (PID: '' @ fmt_d (t_pid env t) @ '')'' @ nl)"

lemma modinit_run:
  assumes "t_get_pid_task env (t_find_get_pid env pid) = Some t"
    and "dump_children_tree env use_bfs thr fuel t = (es, Inr st')"
  shows "modinit env use_bfs thr pid fuel =
    (fst (get_user_pid_task env pid) @ Log (banner env use_bfs t) # es, Inr (- ECANCELED))"
  using assms by (simp add: modinit_def get_user_pid_task_def find_pid_task_def Let_def ret_def banner_def)

text \<open>The traversal from a pid, when memory does not run out.\<close>

lemma modinit_complete:
  assumes "fresh_allocator (t_kmalloc env)" and "\<not> may_fail (t_kmalloc env)" and "matches env tr"
    and "t_get_pid_task env (t_find_get_pid env pid) = Some (root tr)" and "tree_size tr \<le> fuel"
  obtains es where "modinit env use_bfs thr pid fuel = (es, Inr (- ECANCELED))"
    and "logs es = banner env use_bfs (root tr) #
           concat (map (task_lines env thr) (forest_order use_bfs [tr]))"
    and "\<forall>r. net kdelta es r =
           (case t_find_get_pid env pid of None \<Rightarrow> 0 | Some p \<Rightarrow> of_bool (r = Pid_ref p))"
proof -
  obtain es st' where run: "dump_children_tree env use_bfs thr fuel (root tr) = (es, Inr st')"
    "logs es = concat (map (task_lines env thr) (forest_order use_bfs [tr]))"
    "\<forall>r. net kdelta es r = - of_bool (r = Task_ref (root tr))"
    using dump_children_tree_ok [OF assms(1,3,5), of use_bfs thr] assms(2)
    unfolding dump_complete_def dump_cut_short_def by blast
  show thesis
    using run assms(4)
    by (intro that [OF modinit_run [OF assms(4) run(1)]]) (simp_all add: get_user_pid_task_def pid_held_def)
qed

lemma demo_kmalloc_ok: "fresh_allocator demo_kmalloc" "\<not> may_fail demo_kmalloc"
proof -
  have "h (Suc (Max (insert 0 (dom h)))) = None" if "finite (dom h)" for h :: "addr \<rightharpoonup> qnode"
  proof (rule ccontr)
    assume "h (Suc (Max (insert 0 (dom h)))) \<noteq> None"
    then have "Suc (Max (insert 0 (dom h))) \<in> insert 0 (dom h)" by auto
    then have "Suc (Max (insert 0 (dom h))) \<le> Max (insert 0 (dom h))"
      using that by (intro Max_ge) simp_all
    then show False by simp
  qed
  then show "fresh_allocator demo_kmalloc"
    by (auto simp: fresh_allocator_def demo_kmalloc_def)
  show "\<not> may_fail demo_kmalloc"
    by (simp add: may_fail_def demo_kmalloc_def)
qed

definition demo_tree :: ptree where
  "demo_tree = PNode 1 [PNode 2 [PNode 4 []], PNode 3 []]"

lemma demo_tasks_ok:
  "fresh_allocator (t_kmalloc demo_tasks)" "\<not> may_fail (t_kmalloc demo_tasks)"
  "matches demo_tasks demo_tree" "t_get_pid_task demo_tasks (t_find_get_pid demo_tasks 1) = Some (root demo_tree)"
  "tree_size demo_tree \<le> 4"
  using demo_kmalloc_ok by (simp_all add: demo_tasks_def demo_tree_def)

text \<open>
  C4.  With \<^verbatim>\<open>bfs=0\<close> (the default) the module prints the tasks of the tree in preorder, visiting the
  children of a task last to first, each with its threads if asked for, and fails to load with
  \<^verbatim>\<open>-ECANCELED\<close>: fuel equal to the number of tasks is enough, so the loop ends.
\<close>

theorem modinit_dfs_order:
  assumes "fresh_allocator (t_kmalloc env)" and "\<not> may_fail (t_kmalloc env)" and "matches env tr"
    and "t_get_pid_task env (t_find_get_pid env pid) = Some (root tr)" and "tree_size tr \<le> fuel"
  shows "\<exists>es. modinit env False thr pid fuel = (es, Inr (- ECANCELED)) \<and>
    logs es = banner env False (root tr) # concat (map (task_lines env thr) (rev_preorder tr))"
  using modinit_complete [OF assms, of False thr] forest_order_dfs [of "[tr]"]
  by (metis concat.simps(1) concat.simps(2) append_Nil2 list.map(1) list.map(2))

theorem modinit_dfs_order_witness:
  "\<exists>es. modinit demo_tasks False True 1 4 = (es, Inr (- ECANCELED)) \<and>
    logs es = banner demo_tasks False 1 # concat (map (task_lines demo_tasks True) [1, 3, 2, 4])"
  using modinit_dfs_order [OF demo_tasks_ok, of True] by (simp add: demo_tree_def)

text \<open>
  C6.  With \<^verbatim>\<open>bfs=1\<close> it prints them level by level: the task, its children in order, their
  children, and so on.
\<close>

theorem modinit_bfs_order:
  assumes "fresh_allocator (t_kmalloc env)" and "\<not> may_fail (t_kmalloc env)" and "matches env tr"
    and "t_get_pid_task env (t_find_get_pid env pid) = Some (root tr)" and "tree_size tr \<le> fuel"
  shows "\<exists>es. modinit env True thr pid fuel = (es, Inr (- ECANCELED)) \<and>
    logs es = banner env True (root tr) # concat (map (task_lines env thr) (level_order [tr]))"
  using modinit_complete [OF assms, of True thr] forest_order_bfs [of "[tr]"] by metis

theorem modinit_bfs_order_witness:
  "\<exists>es. modinit demo_tasks True False 1 4 = (es, Inr (- ECANCELED)) \<and>
    logs es = banner demo_tasks True 1 # concat (map (task_lines demo_tasks False) [1, 2, 3, 4])"
proof -
  have "level_order [demo_tree] = [1, 2, 3, 4]"
    by (simp add: demo_tree_def level_order.simps)
  then show ?thesis
    using modinit_bfs_order [OF demo_tasks_ok, of False] by (simp add: demo_tree_def)
qed

text \<open>
  Whichever the discipline, every task of the tree is printed, and exactly once: the tasks
  printed are, as a multiset, the nodes of the tree.
\<close>

theorem modinit_each_task_once:
  assumes "fresh_allocator (t_kmalloc env)" and "\<not> may_fail (t_kmalloc env)" and "matches env tr"
    and "t_get_pid_task env (t_find_get_pid env pid) = Some (root tr)" and "tree_size tr \<le> fuel"
  shows "\<exists>es order. modinit env use_bfs thr pid fuel = (es, Inr (- ECANCELED)) \<and>
    logs es = banner env use_bfs (root tr) # concat (map (task_lines env thr) order) \<and>
    mset order = nodes tr"
proof -
  obtain es where "modinit env use_bfs thr pid fuel = (es, Inr (- ECANCELED))"
    "logs es = banner env use_bfs (root tr) # concat (map (task_lines env thr) (forest_order use_bfs [tr]))"
    by (rule modinit_complete [OF assms, of use_bfs thr])
  moreover have "mset (forest_order use_bfs [tr]) = nodes tr"
    by (simp add: mset_forest_order)
  ultimately show ?thesis by (intro exI conjI)
qed

theorem modinit_each_task_once_witness:
  "\<exists>es order. modinit demo_tasks True True 1 4 = (es, Inr (- ECANCELED)) \<and>
    logs es = banner demo_tasks True 1 # concat (map (task_lines demo_tasks True) order) \<and>
    mset order = {#1, 2, 3, 4#}"
proof -
  have "nodes demo_tree = {#1, 2, 3, 4#}" and "root demo_tree = 1"
    by (simp_all add: demo_tree_def)
  then show ?thesis
    using modinit_each_task_once [OF demo_tasks_ok, of True True] by (simp only:)
qed

text \<open>
  C26.  When memory does not run out every task reference, every queue node and every RCU section is
  given back; the reference that \<^verbatim>\<open>find_get_pid\<close> took on the \<^verbatim>\<open>struct pid\<close> is not: one is lost each
  time the module is loaded.
\<close>

theorem modinit_references:
  assumes "fresh_allocator (t_kmalloc env)" and "\<not> may_fail (t_kmalloc env)" and "matches env tr"
    and "t_get_pid_task env (t_find_get_pid env pid) = Some (root tr)" and "tree_size tr \<le> fuel"
    and "t_find_get_pid env pid = Some p"
  shows "\<forall>r. net kdelta (fst (modinit env use_bfs thr pid fuel)) r = of_bool (r = Pid_ref p)"
proof -
  obtain es where "modinit env use_bfs thr pid fuel = (es, Inr (- ECANCELED))"
    "logs es = banner env use_bfs (root tr) # concat (map (task_lines env thr) (forest_order use_bfs [tr]))"
    "\<forall>r. net kdelta es r =
       (case t_find_get_pid env pid of None \<Rightarrow> 0 | Some p \<Rightarrow> of_bool (r = Pid_ref p))"
    by (rule modinit_complete [OF assms(1-5), of use_bfs thr])
  then show ?thesis by (simp add: assms(6))
qed

theorem modinit_references_witness:
  "\<forall>r. net kdelta (fst (modinit demo_tasks True True 1 4)) r = of_bool (r = Pid_ref 7)"
  by (rule modinit_references [OF demo_tasks_ok]) (simp add: demo_tasks_def)

text \<open>The traversal itself never touches a \<^verbatim>\<open>struct pid\<close>, whether it succeeds, stops or runs out of memory.\<close>

definition pid_delta :: "kevent \<Rightarrow> nat \<Rightarrow> int" where
  "pid_delta e p = kdelta e (Pid_ref p)"

lemma balanced_pid: "balanced pid_delta es \<longleftrightarrow> (\<forall>p. net kdelta es (Pid_ref p) = 0)"
  by (simp add: balanced_def net_def pid_delta_def)

lemma no_pid_pop_node [settles_always_intros]: "settles_always pid_delta (pop_node st)"
  by (auto simp: pop_node_def settles_always_def balanced_pid stop_def split: option.split)

lemma no_pid_link_node [settles_always_intros]: "settles_always pid_delta (link_node use_bfs child tmp st)"
  unfolding link_node_def Let_def by (intro settles_always_intros)

lemma no_pid_push_children [settles_always_intros]: "settles_always pid_delta (push_children km use_bfs cs st)"
proof (induction cs arbitrary: st)
  case (Cons child cs)
  show ?case
    unfolding push_children.simps by (intro settles_always_intros Cons) (simp_all add: balanced_pid)
qed (simp add: settles_always_intros)

lemma no_pid_free_queue [settles_always_intros]: "settles_always pid_delta (free_queue fuel st)"
  by (induction fuel arbitrary: st) (auto intro!: settles_always_intros)

lemma no_pid_dump_task: "balanced pid_delta (dump_task env thr t)"
  by (simp add: balanced_pid dump_task_def dump_task_threads_def net_concat comp_def)

lemma no_pid_tree_step [settles_always_intros]: "settles_always pid_delta (tree_step env use_bfs thr st)"
  unfolding tree_step_def Let_def
  by (intro settles_always_intros no_pid_dump_task) (simp add: balanced_pid)

lemma no_pid_tree_loop [settles_always_intros]: "settles_always pid_delta (tree_loop env use_bfs thr fuel st)"
  by (induction fuel arbitrary: st) (auto intro!: settles_always_intros)

lemma settles_always_catch [settles_always_intros]:
  assumes "settles_always delta m" and "\<And>st. settles_always delta (k st)"
  shows "settles_always delta (case m of (es, Inl (Nomem, st)) \<Rightarrow> thenR (emit es) (k st) | r \<Rightarrow> r)"
  using assms by (auto simp: settles_always_def balanced_append split: prod.split sum.split qstop.split)

lemma no_pid_dump_children_tree [settles_always_intros]:
  "settles_always pid_delta (dump_children_tree env use_bfs thr fuel t)"
  unfolding dump_children_tree_def Let_def
  by (intro settles_always_intros) (simp add: balanced_pid)

lemma net_pid_modinit:
  "net kdelta (fst (modinit env use_bfs thr pid fuel)) (Pid_ref p) = pid_held (t_find_get_pid env) pid (Pid_ref p)"
proof -
  let ?l = "get_user_pid_task env pid"
  have l: "?l = (fst ?l, t_get_pid_task env (t_find_get_pid env pid))"
    by (simp add: prod_eq_iff get_user_pid_task_def)
  have "net kdelta (fst (bindR (dump_children_tree env use_bfs thr fuel t) (\<lambda>_. ret (- ECANCELED)))) (Pid_ref p) = 0" for use_bfs t
  proof -
    have "settles_always pid_delta (bindR (dump_children_tree env use_bfs thr fuel t) (\<lambda>_. ret (- ECANCELED) :: int qrun))"
      by (intro settles_always_intros)
    then show ?thesis by (simp add: settles_always_def balanced_pid)
  qed
  then show ?thesis
    unfolding modinit_def
    by (subst l) (simp add: get_user_pid_task_def split: option.split)
qed

text \<open>
  C7.  Memory safety of the traversal, with no assumption that allocations succeed: it ends, never
  reads, writes or frees a node that is not allocated, and has freed every node it allocated.
\<close>

theorem dump_children_tree_memory:
  assumes "fresh_allocator (t_kmalloc env)" and "matches env tr" and "tree_size tr \<le> fuel"
  shows "\<exists>es st'. dump_children_tree env use_bfs thr fuel (root tr) = (es, Inr st') \<and>
    q_heap st' = Map.empty \<and> (\<forall>a. net kdelta es (Node a) = 0)"
  using dump_children_tree_ok [OF assms, of use_bfs thr] unfolding dump_complete_def dump_cut_short_def by fastforce

theorem dump_children_tree_memory_witness:
  "\<exists>es st'. dump_children_tree demo_tasks True False 4 1 = (es, Inr st') \<and> q_heap st' = Map.empty"
  using dump_children_tree_memory [OF demo_tasks_ok(1,3,5), of True False] by (auto simp: demo_tree_def)

text \<open>
  A traversal that is cut short by a failed allocation loses references: if its output is not
  complete, then some task keeps a reference that nothing will give back.
\<close>

theorem incomplete_dump_leaks:
  assumes "fresh_allocator (t_kmalloc env)" and "matches env tr" and "tree_size tr \<le> fuel"
    and "logs (fst (dump_children_tree env use_bfs thr fuel (root tr))) \<noteq>
      concat (map (task_lines env thr) (forest_order use_bfs [tr]))"
  shows "\<exists>t. 0 < net kdelta (Get_task (root tr) # fst (dump_children_tree env use_bfs thr fuel (root tr)))
    (Task_ref t)"
  using dump_children_tree_ok [OF assms(1-3), of use_bfs thr] unfolding dump_complete_def dump_cut_short_def
proof (elim disjE exE conjE)
  fix es st'
  assume "dump_children_tree env use_bfs thr fuel (root tr) = (es, Inr st')"
    and "logs es = concat (map (task_lines env thr) (forest_order use_bfs [tr]))"
  with assms(4) show ?thesis by simp
next
  fix es st' t
  assume "dump_children_tree env use_bfs thr fuel (root tr) = (es, Inr st')"
    and "0 < net kdelta es (Task_ref t) + of_bool (t = root tr)"
  then show ?thesis by (intro exI [of _ t]) auto
qed

theorem incomplete_dump_leaks_witness:
  "\<exists>t. 0 < net kdelta (Get_task 1 #
      fst (dump_children_tree (demo_tasks\<lparr>t_kmalloc := \<lambda>n h. None\<rparr>) False False 4 1)) (Task_ref t)"
proof -
  let ?env = "demo_tasks\<lparr>t_kmalloc := \<lambda>n h. None\<rparr>"
  have "fresh_allocator (t_kmalloc ?env)" "matches ?env demo_tree" "tree_size demo_tree \<le> 4"
    by (simp_all add: fresh_allocator_def demo_tasks_def demo_tree_def)
  moreover have "logs (fst (dump_children_tree ?env False False 4 (root demo_tree))) \<noteq>
      concat (map (task_lines ?env False) (forest_order False [demo_tree]))"
    by (simp add: dump_children_tree_def ret_def demo_tree_def task_lines_def)
  ultimately show ?thesis
    using incomplete_dump_leaks [of ?env demo_tree 4 False False] by (simp add: demo_tree_def)
qed

end
