(* ===== verification/Task_Rss.thy ===== *)
theory Task_Rss
  imports Kernel
begin

text \<open>
  \<^verbatim>\<open>modules/task_rss.c\<close>: printing the resident set size of every process.  The process list, the names,
  the address spaces and their page counts (\<^verbatim>\<open>get_mm_rss\<close>) are parameters.
\<close>

section \<open>The kernel as the module sees it\<close>

record rss_env =
  r_CONFIG_MMU :: bool
  r_PAGE_SHIFT :: nat
  r_processes :: "nat list"
  r_find_get_pid :: "int \<Rightarrow> nat option"
  r_get_pid_task :: "nat option \<Rightarrow> nat option"
  r_pid :: "nat \<Rightarrow> int"
  r_comm :: "nat \<Rightarrow> string"
  r_get_task_mm :: "nat \<Rightarrow> nat option"
  r_get_mm_rss :: "nat \<Rightarrow> u64"

text \<open>\<^verbatim>\<open>rss = get_mm_rss(mm) << PAGE_SHIFT;\<close>\<close>

definition rss :: "rss_env \<Rightarrow> nat \<Rightarrow> u64" where
  "rss env mm = push_bit (r_PAGE_SHIFT env) (r_get_mm_rss env mm)"

section \<open>The module\<close>

text \<open>The body of the loop over the processes.\<close>

definition process_rss :: "rss_env \<Rightarrow> nat \<Rightarrow> kevent list" where
  "process_rss env tsk =
     [Get_task tsk] @
     (case r_get_task_mm env tsk of
        Some mm \<Rightarrow>
          [Mmget mm, Mmput mm,
           Log (pr KERN_INFO ''task_rss''
             (''PID '' @ fmt_d (r_pid env tsk) @ '' ('' @ quot @ r_comm env tsk @ quot @ '') VmRSS = '' @
              fmt_u (unat (rss env mm)) @ '' bytes'' @ nl))]
      | None \<Rightarrow>
          [Log (pr KERN_INFO ''task_rss''
             (''PID '' @ fmt_d (r_pid env tsk) @ '' ('' @ quot @ r_comm env tsk @ quot @ '') is an anonymous process'' @ nl))]) @
     [Put_task tsk]"

definition modinit :: "rss_env \<Rightarrow> kevent list \<times> int" where
  "modinit env =
     (if \<not> r_CONFIG_MMU env
      then ([Log (pr KERN_ERR ''task_rss'' (''No MMU, cannot calculate RSS.'' @ nl))], - EINVAL)
      else (concat (map (process_rss env) (r_processes env)), - ECANCELED))"

section \<open>Properties\<close>

text \<open>The size in bytes a process has: its pages times the size of a page, or none.\<close>

definition rss_bytes :: "rss_env \<Rightarrow> nat \<Rightarrow> nat option" where
  "rss_bytes env tsk = map_option (\<lambda>mm. unat (r_get_mm_rss env mm) * 2 ^ r_PAGE_SHIFT env) (r_get_task_mm env tsk)"

definition process_line :: "rss_env \<Rightarrow> nat \<Rightarrow> nat option \<Rightarrow> log_line" where
  "process_line env tsk bytes =
     pr KERN_INFO ''task_rss''
       (''PID '' @ fmt_d (r_pid env tsk) @ '' ('' @ quot @ r_comm env tsk @ quot @ '')'' @
        (case bytes of None \<Rightarrow> '' is an anonymous process'' | Some n \<Rightarrow> '' VmRSS = '' @ fmt_u n @ '' bytes'') @ nl)"

text \<open>The address spaces are small enough for their size in bytes to be an \<^verbatim>\<open>unsigned long\<close>.\<close>

definition rss_fits :: "rss_env \<Rightarrow> bool" where
  "rss_fits env \<longleftrightarrow> r_PAGE_SHIFT env \<le> 64 \<and> (\<forall>mm. unat (r_get_mm_rss env mm) < 2 ^ (64 - r_PAGE_SHIFT env))"

lemma unat_rss: "rss_fits env \<Longrightarrow> unat (rss env mm) = unat (r_get_mm_rss env mm) * 2 ^ r_PAGE_SHIFT env"
  by (simp add: rss_def rss_fits_def unat_push_bit_small)

lemma logs_process_rss: "rss_fits env \<Longrightarrow> logs (process_rss env t) = [process_line env t (rss_bytes env t)]"
  by (simp add: process_rss_def process_line_def rss_bytes_def unat_rss split: option.splits)

lemma net_process_rss [simp]: "net kdelta (process_rss env t) r = 0"
  by (simp add: process_rss_def split: option.splits)

lemma task_rss_balanced: "balanced kdelta (fst (modinit env))"
  by (simp add: balanced_def modinit_def net_concat comp_def)

interpretation rss_module: kernel_module modinit "\<lambda>_. []" kdelta
  using task_rss_balanced by unfold_locales simp_all

text \<open>
  On a kernel with an MMU the module prints one line per process, in the order of the process list,
  with its resident pages times the page size as long as that fits the \<^verbatim>\<open>unsigned long\<close>, or says that it has no
  address space.  However often it is loaded, it keeps no reference to a task or an address space.
\<close>

theorem task_rss_lines:
  assumes "r_CONFIG_MMU env" and "rss_fits env"
  shows "snd (modinit env) = - ECANCELED \<and>
    logs (fst (modinit env)) = map (\<lambda>t. process_line env t (rss_bytes env t)) (r_processes env) \<and>
    balanced kdelta (load_cycles modinit (\<lambda>_. []) (replicate n env))"
  using assms rss_module.cycles_balanced
  by (simp add: modinit_def logs_concat comp_def logs_process_rss)

text \<open>A process with two pages, and a kernel thread.\<close>

definition demo_rss :: rss_env where
  "demo_rss =
     \<lparr>r_CONFIG_MMU = True, r_PAGE_SHIFT = 12, r_processes = [1, 2],
      r_find_get_pid = (\<lambda>nr. if nr = 1 then Some 1 else if nr = 2 then Some 2 else None),
      r_get_pid_task = id, r_pid = int, r_comm = (\<lambda>t. if t = 1 then ''init'' else ''kthreadd''),
      r_get_task_mm = (\<lambda>t. if t = 1 then Some 7 else None), r_get_mm_rss = (\<lambda>mm. if mm = 7 then 2 else 0)\<rparr>"

lemma demo_rss_fits: "r_CONFIG_MMU demo_rss" "rss_fits demo_rss"
  by (simp_all add: demo_rss_def rss_fits_def)

theorem task_rss_lines_witness:
  "logs (fst (modinit demo_rss)) = [process_line demo_rss 1 (Some 8192), process_line demo_rss 2 None]"
  using task_rss_lines [OF demo_rss_fits] by (simp add: demo_rss_def rss_bytes_def)

end
