(* ===== verification/Task_Rss_From_Pid.thy ===== *)
theory Task_Rss_From_Pid
  imports Task_Rss
begin

text \<open>
  \<^verbatim>\<open>modules/task_rss_from_pid.c\<close>: printing the resident set size of the task with a given pid.  The
  properties compare it with \<^verbatim>\<open>task_rss\<close> and count the references it keeps.
\<close>

section \<open>The module\<close>

text \<open>\<^verbatim>\<open>rss = get_mm_rss(mm) << PAGE_SHIFT;\<close>, in this module.\<close>

definition rss :: "rss_env \<Rightarrow> nat \<Rightarrow> u64" where
  "rss env mm = push_bit (r_PAGE_SHIFT env) (r_get_mm_rss env mm)"

fun modinit :: "rss_env \<times> int \<Rightarrow> kevent list \<times> int" where
  "modinit (env, user_pid) =
     (if \<not> r_CONFIG_MMU env
      then ([Log (pr KERN_ERR ''task_rss_from_pid'' (''No MMU, cannot calculate RSS.'' @ nl))], - EINVAL)
      else
        (case find_pid_task (r_find_get_pid env) (r_get_pid_task env) user_pid of
           (es, None) \<Rightarrow>
             (es @ [Log (pr KERN_ERR ''task_rss_from_pid'' (''No process with user PID = '' @ fmt_d user_pid @ ''.'' @ nl))],
              - ESRCH)
         | (es, Some tsk) \<Rightarrow>
             (let mm = r_get_task_mm env tsk
              in es @
                 (case mm of None \<Rightarrow> [] | Some m \<Rightarrow> [Mmget m]) @
                 [Log (pr KERN_INFO ''task_rss_from_pid''
                    (''Calculating VmRSS for '' @ quot @ r_comm env tsk @ quot @ '' (PID: '' @ fmt_d (r_pid env tsk) @ '')'' @ nl))] @
                 (case mm of
                    Some m \<Rightarrow>
                      [Mmput m,
                       Log (pr KERN_INFO ''task_rss_from_pid'' (''VmRSS = '' @ fmt_u (unat (rss env m)) @ '' byes'' @ nl))]
                  | None \<Rightarrow> [Log (pr KERN_INFO ''task_rss_from_pid'' (''Task is an anonymous process.'' @ nl))]) @
                 [Put_task tsk],
              - ECANCELED)))"

declare modinit.simps [simp del]

section \<open>Properties\<close>

definition result_line :: "nat option \<Rightarrow> log_line" where
  "result_line bytes =
     pr KERN_INFO ''task_rss_from_pid''
       ((case bytes of None \<Rightarrow> ''Task is an anonymous process.'' | Some n \<Rightarrow> ''VmRSS = '' @ fmt_u n @ '' byes'') @ nl)"

lemma unat_rss_from_pid: "rss_fits env \<Longrightarrow> unat (rss env mm) = unat (r_get_mm_rss env mm) * 2 ^ r_PAGE_SHIFT env"
  by (simp add: rss_def rss_fits_def unat_push_bit_small)

lemma modinit_found:
  assumes "r_CONFIG_MMU env" and "rss_fits env" and "r_get_pid_task env (r_find_get_pid env pid) = Some t"
  shows "snd (modinit (env, pid)) = - ECANCELED"
    and "logs (fst (modinit (env, pid))) =
      [pr KERN_INFO ''task_rss_from_pid''
         (''Calculating VmRSS for '' @ quot @ r_comm env t @ quot @ '' (PID: '' @ fmt_d (r_pid env t) @ '')'' @ nl),
       result_line (rss_bytes env t)]"
proof -
  let ?l = "find_pid_task (r_find_get_pid env) (r_get_pid_task env) pid"
  have l: "?l = (fst ?l, Some t)"
    using assms(3) by (simp add: prod_eq_iff)
  show "snd (modinit (env, pid)) = - ECANCELED"
    unfolding modinit.simps by (subst l) (simp add: assms(1) Let_def)
  show "logs (fst (modinit (env, pid))) =
      [pr KERN_INFO ''task_rss_from_pid''
         (''Calculating VmRSS for '' @ quot @ r_comm env t @ quot @ '' (PID: '' @ fmt_d (r_pid env t) @ '')'' @ nl),
       result_line (rss_bytes env t)]"
    unfolding modinit.simps
    by (subst l) (simp add: assms(1) Let_def result_line_def rss_bytes_def unat_rss_from_pid [OF assms(2)] split: option.splits)
qed

definition pid_leak :: "rss_env \<times> int \<Rightarrow> kresource \<Rightarrow> int" where
  "pid_leak = (\<lambda>(env, user_pid) r. if r_CONFIG_MMU env then pid_held (r_find_get_pid env) user_pid r else 0)"

lemma net_rss_modinit: "net kdelta (fst (modinit e)) r = pid_leak e r"
proof (cases e)
  case (Pair env pid)
  let ?l = "find_pid_task (r_find_get_pid env) (r_get_pid_task env) pid"
  have l: "?l = (fst ?l, r_get_pid_task env (r_find_get_pid env pid))"
    by (simp add: prod_eq_iff)
  show ?thesis
    unfolding Pair modinit.simps
    by (subst l) (simp add: pid_leak_def Let_def split: option.splits)
qed

lemma modinit_refuses: "snd (modinit e) \<noteq> 0"
  by (cases e) (simp add: modinit.simps split_beta errno_defs split: option.splits)

interpretation rss_pid_module: leaking_module modinit "\<lambda>_. []" kdelta pid_leak
  by unfold_locales (simp add: load_cycle_def modinit_refuses net_rss_modinit)

text \<open>
  C36.  The two modules agree: for a task that is on the process list, \<^verbatim>\<open>task_rss_from_pid\<close> prints the size
  (or its absence) that \<^verbatim>\<open>task_rss\<close> prints on that task's line.
\<close>

theorem task_rss_modules_agree:
  assumes "r_CONFIG_MMU env" and "rss_fits env" and "r_get_pid_task env (r_find_get_pid env pid) = Some t"
    and "t \<in> set (r_processes env)"
  shows "\<exists>bytes. last (logs (fst (modinit (env, pid)))) = result_line bytes \<and>
    process_line env t bytes \<in> set (logs (fst (Task_Rss.modinit env)))"
proof (intro exI conjI)
  show "last (logs (fst (modinit (env, pid)))) = result_line (rss_bytes env t)"
    by (simp add: modinit_found(2) [OF assms(1-3)])
  show "process_line env t (rss_bytes env t) \<in> set (logs (fst (Task_Rss.modinit env)))"
    using assms(1,4) by (auto simp: Task_Rss.modinit_def logs_concat logs_process_rss [OF assms(2)])
qed

theorem task_rss_modules_agree_witness:
  "\<exists>bytes. last (logs (fst (modinit (demo_rss, 1)))) = result_line bytes \<and>
    process_line demo_rss 1 bytes \<in> set (logs (fst (Task_Rss.modinit demo_rss)))"
  by (rule task_rss_modules_agree [OF demo_rss_fits]) (simp_all add: demo_rss_def)

text \<open>
  Every load with the pid of an existing \<^verbatim>\<open>struct pid\<close> keeps one reference to it for ever, whether or
  not a task is found: \<open>n\<close> loads keep \<open>n\<close>.  The task and the address space are given back on every path.
\<close>

theorem task_rss_from_pid_leaks:
  assumes "r_CONFIG_MMU env" and "r_find_get_pid env pid = Some p"
  shows "net kdelta (load_cycles modinit (\<lambda>_. []) (replicate n (env, pid))) r =
    (if r = Pid_ref p then int n else 0)"
  using assms by (simp add: rss_pid_module.net_repeated pid_leak_def pid_held_def)

theorem task_rss_from_pid_leaks_witness:
  "net kdelta (load_cycles modinit (\<lambda>_. []) (replicate 3 (demo_rss, 1))) (Pid_ref 1) = 3"
proof -
  have "r_find_get_pid demo_rss 1 = Some 1" by (simp add: demo_rss_def)
  from task_rss_from_pid_leaks [OF demo_rss_fits(1) this, of 3 "Pid_ref 1"] show ?thesis by simp
qed

end
