(* ===== verification/Enum_Pids.thy ===== *)
theory Enum_Pids
  imports Kernel
begin

text \<open>
  \<^verbatim>\<open>modules/enum_pids.c\<close>: printing the tasks that have a given \<^verbatim>\<open>struct pid\<close> as PID, TGID, PGID or SID.
  The lists that hang off a \<^verbatim>\<open>struct pid\<close> and the identifiers of a task are parameters; the property
  relates the tasks printed to the identifiers, under the documented meaning of the lists.
\<close>

section \<open>The kernel as the module sees it\<close>

datatype pid_type = PIDTYPE_PID | PIDTYPE_TGID | PIDTYPE_PGID | PIDTYPE_SID

record pids_env =
  p_find_get_pid :: "int \<Rightarrow> nat option"
  p_tasks :: "nat \<Rightarrow> pid_type \<Rightarrow> nat list"
  p_threads :: "nat \<Rightarrow> nat list"
  p_task_pid_type :: "nat \<Rightarrow> pid_type \<Rightarrow> nat"
  p_pid_nr :: "nat \<Rightarrow> int"
  p_comm :: "nat \<Rightarrow> string"

section \<open>Printing\<close>

fun types :: "pid_type \<Rightarrow> string" where
  "types PIDTYPE_PID = ''PID''"
| "types PIDTYPE_TGID = ''TGID''"
| "types PIDTYPE_PGID = ''PGID''"
| "types PIDTYPE_SID = ''SID''"

text \<open>The formats differ in the field that is put in brackets.\<close>

definition field :: "pids_env \<Rightarrow> nat \<Rightarrow> pid_type \<Rightarrow> pid_type \<Rightarrow> string" where
  "field env task sel ty =
     (let s = types ty @ ''='' @ fmt_d (p_pid_nr env (p_task_pid_type env task ty))
      in if ty = sel then ''['' @ s @ '']'' else s)"

definition task_text :: "pids_env \<Rightarrow> pid_type \<Rightarrow> nat \<Rightarrow> log_line" where
  "task_text env sel task =
     pr KERN_INFO ''enum_pids''
       ('' - '' @ field env task sel PIDTYPE_PID @ '' '' @ field env task sel PIDTYPE_TGID @ '' '' @
        field env task sel PIDTYPE_PGID @ '' '' @ field env task sel PIDTYPE_SID @ '' '' @
        quot @ p_comm env task @ quot @ nl)"

definition print_task :: "pids_env \<Rightarrow> nat \<Rightarrow> pid_type \<Rightarrow> kevent list" where
  "print_task env task ty = [Get_task task, Log (task_text env ty task), Put_task task]"

definition print_all_threads :: "pids_env \<Rightarrow> nat \<Rightarrow> pid_type \<Rightarrow> kevent list" where
  "print_all_threads env task ty =
     [Get_task task] @ concat (map (\<lambda>thread. print_task env thread ty) (p_threads env task)) @ [Put_task task]"

section \<open>The module\<close>

definition pids_of_type :: "pids_env \<Rightarrow> int \<Rightarrow> nat \<Rightarrow> pid_type \<Rightarrow> kevent list" where
  "pids_of_type env user_pid pid ty =
     [Log (pr KERN_INFO ''enum_pids'' (''Tasks with '' @ types ty @ ''='' @ fmt_d user_pid @ '':'' @ nl))] @
     concat (map (\<lambda>task. if ty = PIDTYPE_TGID then print_all_threads env task ty else print_task env task ty)
       (p_tasks env pid ty)) @
     (if p_tasks env pid ty = [] then [Log (pr KERN_INFO ''enum_pids'' (''  - none'' @ nl))] else [])"

definition modinit :: "pids_env \<Rightarrow> int \<Rightarrow> kevent list \<times> int" where
  "modinit env user_pid =
     (case p_find_get_pid env user_pid of
        None \<Rightarrow> ([Log (pr KERN_ERR ''enum_pids'' (''No such pid ('' @ fmt_d user_pid @ '').'' @ nl))], - ESRCH)
      | Some pid \<Rightarrow>
          ([Get_pid pid, Log (pr KERN_INFO ''enum_pids''
              (''Enumerating tasks having pid nr '' @ fmt_d user_pid @ '' for each pid type'' @ nl)), Rcu_read_lock] @
           concat (map (pids_of_type env user_pid pid) [PIDTYPE_PID, PIDTYPE_TGID, PIDTYPE_PGID, PIDTYPE_SID]) @
           [Rcu_read_unlock, Put_pid pid], - ECANCELED))"

section \<open>What is printed\<close>

text \<open>The tasks of a section, and its lines.\<close>

definition section_tasks :: "pids_env \<Rightarrow> nat \<Rightarrow> pid_type \<Rightarrow> nat list" where
  "section_tasks env pid ty =
     (if ty = PIDTYPE_TGID then concat (map (p_threads env) (p_tasks env pid ty)) else p_tasks env pid ty)"

definition section_lines :: "pids_env \<Rightarrow> int \<Rightarrow> nat list \<Rightarrow> pid_type \<Rightarrow> log_line list" where
  "section_lines env user_pid ts ty =
     pr KERN_INFO ''enum_pids'' (''Tasks with '' @ types ty @ ''='' @ fmt_d user_pid @ '':'' @ nl) #
     (if ts = [] then [pr KERN_INFO ''enum_pids'' (''  - none'' @ nl)] else map (task_text env ty) ts)"

text \<open>
  The documented meaning of the lists, for the tasks \<open>alive\<close>: every task is on the PID list of its PID;
  on the lists of the other types there are only thread group leaders; the threads of a leader are the
  tasks with its TGID, and every task has a leader.
\<close>

definition pid_lists :: "pids_env \<Rightarrow> nat set \<Rightarrow> (nat \<Rightarrow> bool) \<Rightarrow> bool" where
  "pid_lists env alive leader \<longleftrightarrow>
     (\<forall>p. set (p_tasks env p PIDTYPE_PID) = {t \<in> alive. p_task_pid_type env t PIDTYPE_PID = p}) \<and>
     (\<forall>p ty. ty \<noteq> PIDTYPE_PID \<longrightarrow>
        set (p_tasks env p ty) = {t \<in> alive. leader t \<and> p_task_pid_type env t ty = p}) \<and>
     (\<forall>t \<in> alive. leader t \<longrightarrow> set (p_threads env t) =
        {u \<in> alive. p_task_pid_type env u PIDTYPE_TGID = p_task_pid_type env t PIDTYPE_TGID}) \<and>
     (\<forall>u \<in> alive. \<exists>t \<in> alive. leader t \<and>
        p_task_pid_type env t PIDTYPE_TGID = p_task_pid_type env u PIDTYPE_TGID)"

lemma logs_print [simp]:
  "logs (print_task env t ty) = [task_text env ty t]"
  "logs (print_all_threads env t ty) = map (task_text env ty) (p_threads env t)"
  by (simp_all add: print_task_def print_all_threads_def logs_concat comp_def)

lemma net_print [simp]:
  "net kdelta (print_task env t ty) r = 0" "net kdelta (print_all_threads env t ty) r = 0"
  by (simp_all add: print_task_def print_all_threads_def net_concat comp_def)

lemma net_pids_of_type [simp]: "net kdelta (pids_of_type env user_pid pid ty) r = 0"
proof -
  have "net kdelta (concat (map (\<lambda>task. if ty = PIDTYPE_TGID then print_all_threads env task ty
      else print_task env task ty) ts)) r = 0" for ts
    by (induction ts) simp_all
  then show ?thesis by (simp add: pids_of_type_def)
qed

lemma enum_pids_balanced: "balanced kdelta (fst (modinit env user_pid))"
  by (simp add: balanced_def modinit_def split: option.splits)

interpretation pids_module: kernel_module "\<lambda>(env, user_pid). modinit env user_pid" "\<lambda>_. []" kdelta
  using enum_pids_balanced by unfold_locales (simp_all add: split_beta)

lemma section_tasks_set:
  assumes "pid_lists env alive leader"
  shows "set (section_tasks env pid ty) =
    {t \<in> alive. p_task_pid_type env t ty = pid \<and> (ty = PIDTYPE_PGID \<or> ty = PIDTYPE_SID \<longrightarrow> leader t)}"
proof (cases "ty = PIDTYPE_TGID")
  case True
  have leader: "\<forall>u \<in> alive. \<exists>t \<in> alive. leader t \<and>
      p_task_pid_type env t PIDTYPE_TGID = p_task_pid_type env u PIDTYPE_TGID"
    using assms by (simp add: pid_lists_def)
  from True have "set (section_tasks env pid ty) = (\<Union>t \<in> {t \<in> alive. leader t \<and> p_task_pid_type env t PIDTYPE_TGID = pid}.
      {u \<in> alive. p_task_pid_type env u PIDTYPE_TGID = p_task_pid_type env t PIDTYPE_TGID})"
    using assms by (auto simp: section_tasks_def pid_lists_def)
  also have "\<dots> = {u \<in> alive. p_task_pid_type env u PIDTYPE_TGID = pid}"
    using leader by fastforce
  finally show ?thesis using True by simp
next
  case False
  then show ?thesis
    using assms by (cases ty) (auto simp: section_tasks_def pid_lists_def)
qed

text \<open>When every task has its thread group leader among the tasks, a section is empty exactly when its list is.\<close>

lemma section_tasks_Nil:
  assumes "pid_lists env alive leader"
  shows "section_tasks env pid ty = [] \<longleftrightarrow> p_tasks env pid ty = []"
proof -
  have "p_threads env t \<noteq> []" if "t \<in> set (p_tasks env pid PIDTYPE_TGID)" for t
  proof -
    have "t \<in> alive" "leader t"
      using assms that by (auto simp: pid_lists_def)
    then have "t \<in> set (p_threads env t)"
      using assms by (simp add: pid_lists_def)
    then show ?thesis by auto
  qed
  then show ?thesis
    by (cases "p_tasks env pid PIDTYPE_TGID") (auto simp: section_tasks_def)
qed

lemma logs_pids_of_type:
  assumes "pid_lists env alive leader"
  shows "logs (pids_of_type env user_pid pid ty) = section_lines env user_pid (section_tasks env pid ty) ty"
  using section_tasks_Nil [OF assms, of pid ty]
  by (auto simp: pids_of_type_def section_lines_def logs_concat section_tasks_def comp_def map_concat)

text \<open>
  C27.  The module prints four sections, each with exactly the tasks that have the given pid as that
  identifier, each with its four identifiers, or ``none''; for PGID and SID only the thread group
  leaders among them are printed.  Every reference and the RCU section are given back, and loading fails
  with \<^verbatim>\<open>-ECANCELED\<close>.
\<close>

theorem enum_pids_sections:
  assumes "pid_lists env alive leader" and "p_find_get_pid env user_pid = Some pid"
  shows "\<exists>es sec. modinit env user_pid = (es, - ECANCELED) \<and>
    logs es = pr KERN_INFO ''enum_pids''
        (''Enumerating tasks having pid nr '' @ fmt_d user_pid @ '' for each pid type'' @ nl) #
      concat (map (\<lambda>ty. section_lines env user_pid (sec ty) ty)
        [PIDTYPE_PID, PIDTYPE_TGID, PIDTYPE_PGID, PIDTYPE_SID]) \<and>
    (\<forall>ty. set (sec ty) =
       {t \<in> alive. p_task_pid_type env t ty = pid \<and> (ty = PIDTYPE_PGID \<or> ty = PIDTYPE_SID \<longrightarrow> leader t)}) \<and>
    balanced kdelta es"
proof (intro exI conjI)
  show "modinit env user_pid = (fst (modinit env user_pid), - ECANCELED)"
    by (simp add: modinit_def assms(2))
  show "\<forall>ty. set (section_tasks env pid ty) =
       {t \<in> alive. p_task_pid_type env t ty = pid \<and> (ty = PIDTYPE_PGID \<or> ty = PIDTYPE_SID \<longrightarrow> leader t)}"
    using section_tasks_set [OF assms(1)] by blast
  show "balanced kdelta (fst (modinit env user_pid))"
    by (rule enum_pids_balanced)
  show "logs (fst (modinit env user_pid)) = pr KERN_INFO ''enum_pids''
        (''Enumerating tasks having pid nr '' @ fmt_d user_pid @ '' for each pid type'' @ nl) #
      concat (map (\<lambda>ty. section_lines env user_pid (section_tasks env pid ty) ty)
        [PIDTYPE_PID, PIDTYPE_TGID, PIDTYPE_PGID, PIDTYPE_SID])"
    by (simp add: modinit_def assms(2) logs_pids_of_type [OF assms(1)])
qed

text \<open>A process 10 with the threads 10 and 11, and its child 12 in the same process group and session.\<close>

definition demo_pids :: pids_env where
  "demo_pids =
     \<lparr>p_find_get_pid = (\<lambda>n. if n = 10 then Some 10 else None),
      p_tasks = (\<lambda>p ty. case ty of
          PIDTYPE_PID \<Rightarrow> if p \<in> {10, 11, 12} then [p] else []
        | PIDTYPE_TGID \<Rightarrow> if p = 10 then [10] else if p = 12 then [12] else []
        | _ \<Rightarrow> if p = 10 then [12, 10] else []),
      p_threads = (\<lambda>t. if t = 10 then [10, 11] else if t = 12 then [12] else []),
      p_task_pid_type = (\<lambda>t ty. case ty of
          PIDTYPE_PID \<Rightarrow> t | PIDTYPE_TGID \<Rightarrow> if t = 11 then 10 else t | _ \<Rightarrow> 10),
      p_pid_nr = int, p_comm = (\<lambda>t. ''demo'')\<rparr>"

theorem enum_pids_sections_witness:
  "\<exists>es (sec :: pid_type \<Rightarrow> nat list). modinit demo_pids 10 = (es, - ECANCELED) \<and>
    logs es = pr KERN_INFO ''enum_pids''
        (''Enumerating tasks having pid nr '' @ fmt_d 10 @ '' for each pid type'' @ nl) #
      concat (map (\<lambda>ty. section_lines demo_pids 10 (sec ty) ty)
        [PIDTYPE_PID, PIDTYPE_TGID, PIDTYPE_PGID, PIDTYPE_SID]) \<and>
    set (sec PIDTYPE_TGID) = {10, 11} \<and> set (sec PIDTYPE_PGID) = {10, 12} \<and> balanced kdelta es"
proof -
  have lists: "pid_lists demo_pids {10, 11, 12} (\<lambda>t. t \<noteq> 11)"
    unfolding pid_lists_def
  proof (intro conjI allI impI ballI, goal_cases)
    case (2 p ty)
    then show ?case by (cases ty) (auto simp: demo_pids_def)
  qed (auto simp: demo_pids_def)
  have find: "p_find_get_pid demo_pids 10 = Some 10" by (simp add: demo_pids_def)
  from enum_pids_sections [OF lists find]
  obtain es sec where run: "modinit demo_pids 10 = (es, - ECANCELED)" "balanced kdelta es"
    "logs es = pr KERN_INFO ''enum_pids''
        (''Enumerating tasks having pid nr '' @ fmt_d 10 @ '' for each pid type'' @ nl) #
      concat (map (\<lambda>ty. section_lines demo_pids 10 (sec ty) ty)
        [PIDTYPE_PID, PIDTYPE_TGID, PIDTYPE_PGID, PIDTYPE_SID])"
    and sec: "\<forall>ty. set (sec ty) = {t \<in> {10, 11, 12}. p_task_pid_type demo_pids t ty = 10 \<and>
      (ty = PIDTYPE_PGID \<or> ty = PIDTYPE_SID \<longrightarrow> t \<noteq> 11)}"
    by (elim exE conjE)
  have "set (sec PIDTYPE_TGID) = {10, 11}" "set (sec PIDTYPE_PGID) = {10, 12}"
    unfolding sec [rule_format] by (auto simp: demo_pids_def)
  with run show ?thesis by (intro exI conjI)
qed

end
