(* ===== verification/Kallsyms.thy ===== *)
theory Kallsyms
  imports Kernel
begin

text \<open>
  \<^verbatim>\<open>modules/kallsyms.c\<close>: listing the kernel's symbols or those whose name contains a string.  The symbol
  iterator \<^verbatim>\<open>kallsyms_on_each_symbol\<close> and \<^verbatim>\<open>register_kprobe\<close> are parameters.
\<close>

section \<open>The module\<close>

text \<open>A symbol: its name, the name of its module if it has one, and its address.\<close>

record symbol =
  y_name :: string
  y_module :: "string option"
  y_addr :: u64

definition print_ksym :: "symbol \<Rightarrow> kevent list \<times> int" where
  "print_ksym ksym =
     ([Log (pr KERN_INFO ''kallsyms''
        (''0x'' @ fmt_016lx (y_addr ksym) @ '' '' @ y_name ksym @
         (case y_module ksym of
            Some m \<Rightarrow> if m \<noteq> [] then '' ['' @ m @ '']'' else []
          | None \<Rightarrow> []) @ nl))], 0)"

definition grep_ksym :: "string \<Rightarrow> symbol \<Rightarrow> kevent list \<times> int" where
  "grep_ksym find_str ksym = (if strstr (y_name ksym) find_str \<noteq> None then print_ksym ksym else ([], 0))"

text \<open>
  \<^verbatim>\<open>kallsyms_on_each_symbol\<close> is a parameter, as a function from the callback to what its calls do and the value
  that the iteration returns.
\<close>

type_synonym symbol_iterator = "(symbol \<Rightarrow> kevent list \<times> int) \<Rightarrow> kevent list \<times> int"

definition modinit :: "bool \<Rightarrow> int \<Rightarrow> symbol_iterator \<Rightarrow> string option \<Rightarrow> kevent list \<times> int" where
  "modinit not_exported kprobe_err on_each_symbol find_str =
     (let fn = (case find_str of Some s \<Rightarrow> grep_ksym s | None \<Rightarrow> print_ksym);
          name = ''kallsyms_on_each_symbol''
      in if not_exported \<and> kprobe_err \<noteq> 0 then
           ([Log (pr KERN_ERR ''kallsyms'' (''register_kprobe() failed: '' @ fmt_d kprobe_err @ nl))], kprobe_err)
         else
           ((if not_exported then [Register_kprobe name, Unregister_kprobe name] else []) @
            fst (on_each_symbol fn), - ECANCELED))"

section \<open>The iterator\<close>

text \<open>
  What is documented of the iterator: it calls the function on the symbols one after the other until a call returns
  non-zero, which it then returns, or 0.
\<close>

fun each_until :: "symbol list \<Rightarrow> symbol_iterator" where
  "each_until [] fn = ([], 0)"
| "each_until (ksym # syms) fn =
     (let (es, r) = fn ksym
      in if r \<noteq> 0 then (es, r) else (let (es', r') = each_until syms fn in (es @ es', r')))"

definition iterates :: "symbol_iterator \<Rightarrow> symbol list \<Rightarrow> bool" where
  "iterates on_each_symbol syms \<longleftrightarrow> (\<forall>fn. on_each_symbol fn = each_until syms fn)"

section \<open>Properties\<close>

definition symbol_line :: "symbol \<Rightarrow> log_line" where
  "symbol_line ksym = pr KERN_INFO ''kallsyms''
     (''0x'' @ fmt_016lx (y_addr ksym) @ '' '' @ y_name ksym @
      (if y_module ksym \<noteq> None \<and> y_module ksym \<noteq> Some [] then '' ['' @ the (y_module ksym) @ '']'' else []) @ nl)"

lemma print_ksym_eq: "print_ksym ksym = ([Log (symbol_line ksym)], 0)"
  by (auto simp: print_ksym_def symbol_line_def split: option.splits)

lemma each_until_print: "each_until syms print_ksym = (map (Log \<circ> symbol_line) syms, 0)"
  by (induction syms) (simp_all add: print_ksym_eq)

lemma each_until_grep:
  "each_until syms (grep_ksym s) =
     (map (Log \<circ> symbol_line) (filter (\<lambda>ksym. strstr (y_name ksym) s \<noteq> None) syms), 0)"
  by (induction syms) (auto simp: grep_ksym_def print_ksym_eq)

lemma map_Log [simp]: "logs (map (Log \<circ> f) xs) = map f xs" "net kdelta (map (Log \<circ> f) xs) r = 0"
  by (induction xs) simp_all

lemma kallsyms_balanced: "balanced kdelta (fst (modinit not_exported kprobe_err (each_until syms) find_str))"
  by (auto simp: modinit_def Let_def balanced_def each_until_print each_until_grep split: option.splits)

interpretation ksym_module:
  kernel_module "\<lambda>(not_exported, kprobe_err, syms, find_str). modinit not_exported kprobe_err (each_until syms) find_str" "\<lambda>_. []" kdelta
  using kallsyms_balanced by unfold_locales (simp_all add: split_beta)

text \<open>
  C32.  Without \<^verbatim>\<open>find\<close> every symbol is printed, in order; with \<^verbatim>\<open>find\<close> exactly those whose name contains it as
  a contiguous part.  The probe that locates the iterator is gone again, and loading fails.
\<close>

theorem kallsyms_grep:
  assumes "iterates on_each_symbol syms" and "not_exported \<longrightarrow> kprobe_err = 0"
  shows "\<exists>es. modinit not_exported kprobe_err on_each_symbol find_str = (es, - ECANCELED) \<and> balanced kdelta es \<and>
    logs es = map symbol_line (filter (\<lambda>ksym.
      case find_str of None \<Rightarrow> True | Some s \<Rightarrow> \<exists>u v. y_name ksym = u @ s @ v) syms)"
proof (intro exI conjI)
  let ?m = "modinit not_exported kprobe_err on_each_symbol find_str"
  have each: "on_each_symbol = each_until syms"
    using assms(1) by (auto simp: iterates_def)
  show "?m = (fst ?m, - ECANCELED)"
    using assms(2) by (auto simp: modinit_def Let_def)
  show "balanced kdelta (fst ?m)"
    unfolding each by (rule kallsyms_balanced)
  have "strstr s t \<noteq> None \<longleftrightarrow> (\<exists>u v. s = u @ t @ v)" for s t
    by (simp add: strstr_None_iff)
  then show "logs (fst ?m) = map symbol_line (filter (\<lambda>ksym.
      case find_str of None \<Rightarrow> True | Some s \<Rightarrow> \<exists>u v. y_name ksym = u @ s @ v) syms)"
    using assms(2) unfolding each
    by (cases find_str) (simp_all add: modinit_def Let_def each_until_print each_until_grep)
qed

definition demo_symbols :: "symbol list" where
  "demo_symbols = [\<lparr>y_name = ''do_exit'', y_module = None, y_addr = 0xffffffff81000000\<rparr>,
     \<lparr>y_name = ''printk'', y_module = Some [], y_addr = 0xffffffff81000100\<rparr>]"

theorem kallsyms_grep_witness:
  "\<exists>es. modinit True 0 (each_until demo_symbols) (Some ''exit'') = (es, - ECANCELED) \<and> balanced kdelta es \<and>
    symbol_line (demo_symbols ! 0) \<in> set (logs es)"
proof -
  obtain es where "modinit True 0 (each_until demo_symbols) (Some ''exit'') = (es, - ECANCELED)" "balanced kdelta es"
    "logs es = map symbol_line (filter (\<lambda>ksym.
      case Some ''exit'' of None \<Rightarrow> True | Some s \<Rightarrow> \<exists>u v. y_name ksym = u @ s @ v) demo_symbols)"
    using kallsyms_grep [of "each_until demo_symbols" demo_symbols True 0 "Some ''exit''"] by (auto simp: iterates_def)
  moreover have "\<exists>u v. y_name (demo_symbols ! 0) = u @ ''exit'' @ v"
    by (intro exI [of _ "''do_''"] exI [of _ "[]"]) (simp add: demo_symbols_def)
  ultimately show ?thesis
    by (intro exI [of _ es]) (auto simp: demo_symbols_def)
qed

end
