(* ===== verification/Chardev.thy ===== *)
theory Chardev
  imports Kernel
begin

text \<open>
  \<^verbatim>\<open>modules/test_chardev.c\<close>: the character device that repeats a string.  Its read loop runs on words and
  on an explicit user memory, in which a store may fault; its entry point is a sequence of
  registrations with the unwinding of its error labels.  The registration functions of the kernel are
  parameters.
\<close>

section \<open>Reading\<close>

text \<open>\<open>umem\<close> is user memory, \<open>writable\<close> the addresses where \<^verbatim>\<open>put_user\<close> does not fault.\<close>

type_synonym umem = "u64 \<Rightarrow> char"

definition put_user :: "(u64 \<Rightarrow> bool) \<Rightarrow> char \<Rightarrow> u64 \<Rightarrow> umem \<Rightarrow> umem" where
  "put_user writable c a m = (if writable a then m(a := c) else m)"

lemma unat_suc_less: "i < n \<Longrightarrow> unat (i + 1) = unat (i :: u64) + 1"
  using unsigned_less [of n, where 'a = nat] by (simp add: unat_word_ariths word_less_nat_alt)

text \<open>
  The loop of \<^verbatim>\<open>read_mebeim\<close> from index \<open>i\<close>.  \<^verbatim>\<open>x % 0\<close> is a division error, the value \<open>None\<close>; the result
  of \<^verbatim>\<open>put_user\<close> is not looked at.
\<close>

function read_loop :: "string \<Rightarrow> u64 \<Rightarrow> u64 \<Rightarrow> (u64 \<Rightarrow> bool) \<Rightarrow> u64 \<Rightarrow> u64 \<Rightarrow> u64 \<Rightarrow> umem \<Rightarrow> umem option" where
  "read_loop content len off writable n i buf m =
     (if i < n
      then if len = 0 then None
           else read_loop content len off writable n (i + 1) (buf + 1)
                  (put_user writable (content ! unat ((i + off) mod len)) buf m)
      else Some m)"
  by pat_completeness auto

termination
  by (relation "measure (\<lambda>(content, len, off, writable, n, i, buf, m). unat n - unat i)")
    (auto simp: unat_suc_less word_less_nat_alt)

declare read_loop.simps [simp del]

definition read_mebeim ::
    "string \<Rightarrow> u64 \<Rightarrow> (u64 \<Rightarrow> bool) \<Rightarrow> u64 \<Rightarrow> u64 \<Rightarrow> u64 \<Rightarrow> umem \<Rightarrow> (umem \<times> u64 \<times> int) option" where
  "read_mebeim content len writable buf n off m =
     map_option (\<lambda>m'. (m', off + n, sint n)) (read_loop content len off writable n 0 buf m)"

definition write_mebeim :: "u64 \<Rightarrow> int" where
  "write_mebeim n = sint n"

text \<open>\<^verbatim>\<open>umode_t\<close> is an unsigned short; the mode pointer may be null.\<close>

definition mebeim_devnode :: "int \<Rightarrow> 16 word option \<Rightarrow> 16 word option" where
  "mebeim_devnode mebeim_mode mode = map_option (\<lambda>_. word_of_int mebeim_mode) mode"

section \<open>Loading and unloading\<close>

record chardev_env =
  d_alloc_chrdev_region :: "int \<times> u32"
  d_MAJOR :: "u32 \<Rightarrow> nat"
  d_MINOR :: "u32 \<Rightarrow> nat"
  d_class_create :: "nat kptr"
  d_cdev_alloc :: "nat kptr"
  d_cdev_add :: int
  d_device_create :: "nat kptr"

datatype devent =
  Log log_line
| Alloc_chrdev_region u32
| Unregister_chrdev_region u32
| Class_create "nat kptr"
| Class_destroy "nat kptr"
| Set_devnode "nat kptr"
| Cdev_alloc "nat kptr"
| Cdev_init "nat kptr"
| Cdev_add "nat kptr" u32
| Cdev_del "nat kptr"
| Device_create u32
| Device_destroy u32

text \<open>Dereferencing a null pointer ends the run.\<close>

datatype crash = Null_dereference

record chardev_state =
  s_devno :: u32
  s_class :: "nat kptr"
  s_cdev :: "nat kptr"
  s_length :: u64

definition dlog :: "level \<Rightarrow> string \<Rightarrow> devent" where
  "dlog lvl s = Log (pr lvl ''test_chardev'' s)"

fun deref :: "'p kptr \<Rightarrow> (devent, crash, unit) run" where
  "deref (Ptr p) = emit []"
| "deref _ = stop Null_dereference"

definition mychardev_init ::
    "chardev_env \<Rightarrow> string \<Rightarrow> (devent, crash, int \<times> chardev_state option) run" where
  "mychardev_init env content =
     (let len = of_nat (length content) :: u64;
          (res, devno) = d_alloc_chrdev_region env;
          cls = d_class_create env; cdev = d_cdev_alloc env; dev = d_device_create env;
          fail_class_create = [Unregister_chrdev_region devno];
          fail_cdev_alloc = Class_destroy cls # fail_class_create;
          fail_cdev_add = Cdev_del cdev # fail_cdev_alloc
      in thenR (emit [dlog KERN_DEBUG (''init'' @ nl)])
        (if res \<noteq> 0 then
           ([dlog KERN_ERR (''error getting dev major ('' @ fmt_d res @ '')'' @ nl)], Inr (res, None))
         else
           thenR (emit [Alloc_chrdev_region devno,
               dlog KERN_DEBUG (''got dev 0x'' @ pad0 8 (fmt_lx (ucast devno)) @ '' major '' @
                 fmt_d (int (d_MAJOR env devno)) @ '' minor '' @ fmt_d (int (d_MINOR env devno)) @ nl)])
          (if is_err cls then
             (dlog KERN_ERR (''error creating device class ('' @ fmt_d (ptr_err cls) @ '')'' @ nl) #
                fail_class_create, Inr (ptr_err cls, None))
           else
             thenR (emit [Class_create cls])
            (thenR (deref cls)
            (thenR (emit [Set_devnode cls])
            (if is_err cdev then
               (dlog KERN_ERR (''error allocating cdev ('' @ fmt_d (ptr_err cdev) @ '')'' @ nl) #
                  fail_cdev_alloc, Inr (ptr_err cdev, None))
             else
               thenR (deref cdev)
              (thenR (emit [Cdev_alloc cdev, Cdev_init cdev])
              (if d_cdev_add env \<noteq> 0 then
                 (dlog KERN_ERR (''error adding cdev ('' @ fmt_d (d_cdev_add env) @ '')'' @ nl) #
                    fail_cdev_add, Inr (d_cdev_add env, None))
               else
                 thenR (emit [Cdev_add cdev devno, dlog KERN_DEBUG (''cdev added'' @ nl)])
                (if is_err dev then
                   (dlog KERN_ERR (''error creating device ('' @ fmt_d (ptr_err dev) @ '')'' @ nl) #
                      fail_cdev_add, Inr (ptr_err dev, None))
                 else
                   ([Device_create devno, dlog KERN_DEBUG (''device created'' @ nl),
                     dlog KERN_DEBUG (''init done'' @ nl)],
                    Inr (0, Some \<lparr>s_devno = devno, s_class = cls, s_cdev = cdev, s_length = len\<rparr>)))))))))))"

definition mychardev_cleanup :: "chardev_state \<Rightarrow> devent list" where
  "mychardev_cleanup st =
     [dlog KERN_DEBUG (''cleanup'' @ nl), Device_destroy (s_devno st), Cdev_del (s_cdev st),
      Class_destroy (s_class st), Unregister_chrdev_region (s_devno st),
      dlog KERN_DEBUG (''cleanup done'' @ nl)]"

section \<open>What a read delivers\<close>

text \<open>User memory after the bytes \<open>f 0\<close>, \<open>f 1\<close>, \dots of a string were stored at \<open>buf\<close>, as far as it is writable.\<close>

definition stored :: "(u64 \<Rightarrow> bool) \<Rightarrow> u64 \<Rightarrow> nat \<Rightarrow> (nat \<Rightarrow> char) \<Rightarrow> umem \<Rightarrow> umem" where
  "stored writable buf n f m a =
     (if unat (a - buf) < n \<and> writable a then f (unat (a - buf)) else m a)"

lemma stored_0 [simp]: "stored writable buf 0 f m = m"
  by (simp add: stored_def fun_eq_iff)

lemma unat_diff_step: "a \<noteq> b \<Longrightarrow> unat (a - b :: u64) = unat (a - (b + 1)) + 1"
proof -
  assume "a \<noteq> b"
  then have "a - b \<noteq> 0" by simp
  then have "unat (a - b - 1) = unat (a - b) - 1" and "0 < unat (a - b)"
    by (simp_all add: unat_minus_one unat_gt_0)
  then show ?thesis by (simp add: algebra_simps)
qed

lemma stored_Suc:
  assumes "n < 2 ^ 64"
  shows "stored writable (buf + 1) n (\<lambda>j. f (Suc j)) (put_user writable (f 0) buf m) = stored writable buf (Suc n) f m"
proof
  fix a
  show "stored writable (buf + 1) n (\<lambda>j. f (Suc j)) (put_user writable (f 0) buf m) a =
      stored writable buf (Suc n) f m a"
  proof (cases "a = buf")
    case True
    have "unat (buf - (buf + 1)) = 2 ^ 64 - 1"
      by (simp add: unsigned_minus_1_eq_mask mask_eq_exp_minus_1)
    with True assms show ?thesis
      by (simp add: stored_def put_user_def)
  next
    case False
    then show ?thesis
      by (simp add: stored_def put_user_def unat_diff_step)
  qed
qed

lemma stored_cong:
  "(\<And>j. j < n \<Longrightarrow> f j = g j) \<Longrightarrow> stored writable buf n f m = stored writable buf n g m"
  by (simp add: stored_def fun_eq_iff)

lemma read_loop_stored:
  assumes "len \<noteq> 0" and "i \<le> n"
  shows "read_loop content len off writable n i buf m =
    Some (stored writable buf (unat n - unat i) (\<lambda>j. content ! unat ((i + of_nat j + off) mod len)) m)"
  using assms
proof (induction content len off writable n i buf m rule: read_loop.induct)
  case (1 content l off writable n i buf m)
  show ?case
  proof (cases "i < n")
    case True
    let ?f = "\<lambda>j. content ! unat ((i + of_nat j + off) mod l)"
    have len: "unat n - unat i = Suc (unat n - unat (i + 1))" and le: "i + 1 \<le> n"
      using True unat_suc_less [OF True] by (simp_all add: word_less_nat_alt word_le_nat_alt)
    have "unat n - unat (i + 1) < 2 ^ 64"
      using unsigned_less [of n, where 'a = nat] by simp
    from stored_Suc [OF this, of writable buf ?f m] "1.IH" [OF True "1.prems"(1) "1.prems"(1) le]
    show ?thesis
      using True "1.prems"(1) by (simp add: read_loop.simps [of content l off writable n i] len add.assoc)
  next
    case False
    with "1.prems"(2) have "i = n" by simp
    then show ?thesis by (simp add: read_loop.simps [of content l off writable n n])
  qed
qed

text \<open>The endless repetition of the content.\<close>

definition repeated :: "string \<Rightarrow> nat \<Rightarrow> char" where
  "repeated content k = content ! (k mod length content)"

lemma read_mebeim_stored:
  assumes "content \<noteq> []" and "length content < 2 ^ 64" and "unat off + unat n < 2 ^ 64"
  shows "read_mebeim content (of_nat (length content)) writable buf n off m =
    Some (stored writable buf (unat n) (\<lambda>j. repeated content (unat off + j)) m, off + n, sint n)"
proof -
  let ?len = "of_nat (length content) :: u64"
  have len: "unat ?len = length content"
    using assms(2) by (simp add: unat_of_nat_u64)
  then have nz: "?len \<noteq> 0"
    using assms(1) by auto
  have "unat ((0 + of_nat j + off) mod ?len) = (unat off + j) mod length content" if "j < unat n" for j
  proof -
    have "unat (of_nat j + off) = j + unat off"
      using that assms(3) by (simp add: unat_word_ariths unat_of_nat_u64)
    then show ?thesis by (simp add: unat_mod_distrib len add.commute)
  qed
  then have "stored writable buf (unat n) (\<lambda>j. content ! unat ((0 + of_nat j + off) mod ?len)) m =
      stored writable buf (unat n) (\<lambda>j. repeated content (unat off + j)) m"
    by (intro stored_cong) (simp add: repeated_def)
  then show ?thesis
    by (simp add: read_mebeim_def read_loop_stored [OF nz])
qed

lemma unat_sub_of_nat:
  assumes "n < 2 ^ 64"
  shows "unat (d - of_nat n :: u64) = (if n \<le> unat d then unat d - n else unat d + 2 ^ 64 - n)"
  using unat_of_nat_u64 [OF assms] by (simp add: unat_sub_if' word_le_nat_alt)

lemma stored_append:
  assumes "n + k < 2 ^ 64"
  shows "stored writable (buf + of_nat n) k (\<lambda>j. f (n + j)) (stored writable buf n f m) =
    stored writable buf (n + k) f m"
proof
  fix a
  have "a - (buf + of_nat n) = (a - buf) - of_nat n" by simp
  then have step: "unat (a - (buf + of_nat n)) =
      (if n \<le> unat (a - buf) then unat (a - buf) - n else unat (a - buf) + 2 ^ 64 - n)"
    using assms by (simp only: unat_sub_of_nat)
  show "stored writable (buf + of_nat n) k (\<lambda>j. f (n + j)) (stored writable buf n f m) a =
      stored writable buf (n + k) f m a"
    using assms unfolding stored_def step by auto
qed

text \<open>
  Reading the device delivers the endless repetition of the content from the file position on:
  byte \<open>j\<close> of the buffer is character \<open>(off + j) mod length\<close>, nothing outside the buffer changes, the
  position advances by \<open>n\<close> and \<open>n\<close> is returned, for every offset and length that do not pass \<open>2^64\<close>.
\<close>

theorem read_mebeim_repeats:
  assumes "content \<noteq> []" and "length content < 2 ^ 64" and "unat off + unat n < 2 ^ 64" and "\<forall>a. writable a"
  shows "\<exists>m'. read_mebeim content (of_nat (length content)) writable buf n off m = Some (m', off + n, sint n) \<and>
    (\<forall>j < unat n. m' (buf + of_nat j) = content ! ((unat off + j) mod length content)) \<and>
    (\<forall>a. unat n \<le> unat (a - buf) \<longrightarrow> m' a = m a)"
proof -
  have "unat ((of_nat j :: u64)) = j" if "j < unat n" for j
    using that unsigned_less [of n, where 'a = nat] by (intro unat_of_nat_u64) simp
  then show ?thesis
    using read_mebeim_stored [OF assms(1-3), of writable buf m] assms(4)
    by (auto simp: stored_def repeated_def)
qed

theorem read_mebeim_repeats_witness:
  "\<exists>m'. read_mebeim ''mebeim'' 6 (\<lambda>_. True) 0x7f00 4 5 (\<lambda>_. CHR ''.'') = Some (m', 9, 4) \<and>
    (\<forall>j < 4. m' (0x7f00 + of_nat j) = ''mebeim'' ! ((5 + j) mod 6))"
  using read_mebeim_repeats [where content = "''mebeim''" and off = 5 and n = 4 and writable = "\<lambda>_. True"
    and buf = "0x7f00" and m = "\<lambda>_. CHR ''.''"]
  by auto

text \<open>
  Reads compose: reading \<open>n\<close> bytes and then \<open>k\<close> bytes from the position reached leaves the same
  memory and position as one read of \<open>n + k\<close> bytes.
\<close>

theorem read_mebeim_split:
  assumes "content \<noteq> []" and "length content < 2 ^ 64" and "unat off + unat n + unat k < 2 ^ 64"
  shows "\<exists>m1 m2 r.
    read_mebeim content (of_nat (length content)) writable buf n off m = Some (m1, off + n, sint n) \<and>
    read_mebeim content (of_nat (length content)) writable (buf + n) k (off + n) m1 = Some (m2, off + n + k, sint k) \<and>
    read_mebeim content (of_nat (length content)) writable buf (n + k) off m = Some (m2, off + n + k, r)"
proof -
  let ?f = "\<lambda>j. repeated content (unat off + j)"
  have u: "unat (off + n) = unat off + unat n" "unat (n + k) = unat n + unat k"
    using assms(3) by (simp_all add: unat_word_ariths)
  have "stored writable (buf + of_nat (unat n)) (unat k) (\<lambda>j. ?f (unat n + j)) (stored writable buf (unat n) ?f m) =
      stored writable buf (unat n + unat k) ?f m"
    using assms(3) by (intro stored_append) simp
  then have app: "stored writable (buf + n) (unat k) (\<lambda>j. repeated content (unat (off + n) + j))
      (stored writable buf (unat n) ?f m) = stored writable buf (unat (n + k)) ?f m"
    by (simp add: u add.assoc)
  show ?thesis
    using assms u app by (simp add: read_mebeim_stored add.assoc)
qed

theorem read_mebeim_split_witness:
  "\<exists>m1 m2 r. read_mebeim ''ab'' 2 (\<lambda>_. True) 0 3 7 (\<lambda>_. CHR ''.'') = Some (m1, 10, 3) \<and>
    read_mebeim ''ab'' 2 (\<lambda>_. True) 3 2 10 m1 = Some (m2, 12, 2) \<and>
    read_mebeim ''ab'' 2 (\<lambda>_. True) 0 5 7 (\<lambda>_. CHR ''.'') = Some (m2, 12, r)"
  using read_mebeim_split [of "''ab''" 7 3 2 "\<lambda>_. True" 0 "\<lambda>_. CHR ''.''"] by auto

text \<open>
  A fault is never reported: the result of \<^verbatim>\<open>put_user\<close> is dropped, so a read into memory that cannot
  be written leaves memory as it was and still returns the full count and moves the position.
\<close>

theorem read_mebeim_ignores_faults:
  assumes "content \<noteq> []" and "length content < 2 ^ 64" and "unat off + unat n < 2 ^ 64"
    and "\<forall>j < unat n. \<not> writable (buf + of_nat j)"
  shows "read_mebeim content (of_nat (length content)) writable buf n off m = Some (m, off + n, sint n)"
proof -
  have "\<not> writable a" if "unat (a - buf) < unat n" for a
  proof -
    have "of_nat (unat (a - buf)) = a - buf" by simp
    then have "buf + of_nat (unat (a - buf)) = a" by simp
    with assms(4) that show ?thesis by metis
  qed
  then have "stored writable buf (unat n) f m = m" for f
    by (auto simp: stored_def fun_eq_iff)
  then show ?thesis
    by (simp add: read_mebeim_stored [OF assms(1-3)])
qed

theorem read_mebeim_ignores_faults_witness:
  "read_mebeim ''mebeim'' 6 (\<lambda>_. False) 0 4096 0 (\<lambda>_. CHR ''.'') = Some (\<lambda>_. CHR ''.'', 4096, 4096)"
  using read_mebeim_ignores_faults [of "''mebeim''" 0 4096 "\<lambda>_. False" 0 "\<lambda>_. CHR ''.''"] by simp

section \<open>Loading and unloading: acquisition and release\<close>

datatype dresource = Region u32 | Class "nat kptr" | Cdev "nat kptr" | Device u32

fun acquired :: "devent list \<Rightarrow> dresource list" where
  "acquired [] = []"
| "acquired (Alloc_chrdev_region d # es) = Region d # acquired es"
| "acquired (Class_create c # es) = Class c # acquired es"
| "acquired (Cdev_alloc c # es) = Cdev c # acquired es"
| "acquired (Device_create d # es) = Device d # acquired es"
| "acquired (_ # es) = acquired es"

fun released :: "devent list \<Rightarrow> dresource list" where
  "released [] = []"
| "released (Unregister_chrdev_region d # es) = Region d # released es"
| "released (Class_destroy c # es) = Class c # released es"
| "released (Cdev_del c # es) = Cdev c # released es"
| "released (Device_destroy d # es) = Device d # released es"
| "released (_ # es) = released es"

lemma dlog_skipped [simp]: "acquired (dlog l t # es) = acquired es" "released (dlog l t # es) = released es"
  by (simp_all add: dlog_def)

text \<open>
  The calls that may fail, in their order, with the error each of them reports; and the place of the first that
  does.  Error pointers carry a negative error number.  \<^verbatim>\<open>class_create\<close> never returns null; \<^verbatim>\<open>cdev_alloc\<close> reports
  a failure in no other way.
\<close>

fun reported :: "'p kptr \<Rightarrow> int option" where
  "reported (Err_ptr e) = Some e"
| "reported p = None"

definition outcomes :: "chardev_env \<Rightarrow> int option list" where
  "outcomes env =
     [if fst (d_alloc_chrdev_region env) = 0 then None else Some (fst (d_alloc_chrdev_region env)),
      reported (d_class_create env), reported (d_cdev_alloc env),
      if d_cdev_add env = 0 then None else Some (d_cdev_add env), reported (d_device_create env)]"

definition succeeding :: "chardev_env \<Rightarrow> nat" where
  "succeeding env = length (takeWhile (\<lambda>r. r = None) (outcomes env))"

definition kernel_pointers :: "chardev_env \<Rightarrow> bool" where
  "kernel_pointers env \<longleftrightarrow> d_class_create env \<noteq> Null \<and>
     list_all (\<lambda>p. case reported p of Some e \<Rightarrow> e < 0 | None \<Rightarrow> True)
       [d_class_create env, d_cdev_alloc env, d_device_create env]"

text \<open>What is held after the calls that acquire something: \<^verbatim>\<open>cdev_add\<close> is none of them.\<close>

definition held_after :: "chardev_env \<Rightarrow> nat \<Rightarrow> dresource list" where
  "held_after env n =
     (let devno = snd (d_alloc_chrdev_region env)
      in concat (take n [[Region devno], [Class (d_class_create env)], [Cdev (d_cdev_alloc env)], [], [Device devno]]))"

text \<open>
  C5.  On every path: if \<^verbatim>\<open>cdev_alloc\<close> returns null after the two calls before it succeeded, loading dereferences
  it with the region and the class held and nothing released.  Otherwise, if a call reports an error, loading
  fails with the error of the first one that does, which is not zero, and what the calls before it acquired is
  released, all of it and in the reverse order.  Otherwise loading returns 0 with the region, the class, the
  character device and the device node, which unloading then releases in the reverse order; the length used by
  later reads is that of the content.
\<close>

theorem mychardev_init_unwinds:
  assumes "kernel_pointers env"
  shows "acquired (fst (mychardev_init env content)) =
      held_after env (if 2 \<le> succeeding env \<and> d_cdev_alloc env = Null then 2 else succeeding env) \<and>
    (case snd (mychardev_init env content) of
      Inl Null_dereference \<Rightarrow>
        2 \<le> succeeding env \<and> d_cdev_alloc env = Null \<and> released (fst (mychardev_init env content)) = []
    | Inr (res, None) \<Rightarrow>
        \<not> (2 \<le> succeeding env \<and> d_cdev_alloc env = Null) \<and> succeeding env < 5 \<and>
        outcomes env ! succeeding env = Some res \<and> res \<noteq> 0 \<and>
        released (fst (mychardev_init env content)) = rev (acquired (fst (mychardev_init env content)))
    | Inr (res, Some s) \<Rightarrow>
        succeeding env = 5 \<and> d_cdev_alloc env \<noteq> Null \<and> res = 0 \<and> s_length s = of_nat (length content) \<and>
        released (fst (mychardev_init env content)) = [] \<and>
        released (mychardev_cleanup s) = rev (acquired (fst (mychardev_init env content))))"
  using assms
  by (cases "d_class_create env"; cases "d_cdev_alloc env"; cases "d_device_create env";
      auto simp: mychardev_init_def mychardev_cleanup_def succeeding_def outcomes_def held_after_def
        kernel_pointers_def Let_def split_beta stop_def thenR_def bindR_def emit_def)

definition demo_chardev :: chardev_env where
  "demo_chardev = \<lparr>d_alloc_chrdev_region = (0, 0x0EA00000), d_MAJOR = (\<lambda>d. unat (drop_bit 20 d)),
     d_MINOR = (\<lambda>d. unat (take_bit 20 d)), d_class_create = Ptr 1, d_cdev_alloc = Ptr 2, d_cdev_add = 0,
     d_device_create = Ptr 3\<rparr>"

theorem mychardev_init_unwinds_witness:
  "snd (mychardev_init (demo_chardev\<lparr>d_device_create := Err_ptr (- 12)\<rparr>) ''mebeim'') = Inr (- 12, None) \<and>
   released (fst (mychardev_init (demo_chardev\<lparr>d_device_create := Err_ptr (- 12)\<rparr>) ''mebeim'')) =
     [Cdev (Ptr 2), Class (Ptr 1), Region 0x0EA00000]"
proof -
  let ?env = "demo_chardev\<lparr>d_device_create := Err_ptr (- 12)\<rparr>"
  have env: "kernel_pointers ?env" "succeeding ?env = 4"
    by (simp_all add: kernel_pointers_def succeeding_def outcomes_def demo_chardev_def)
  have run: "snd (mychardev_init ?env ''mebeim'') = Inr (- 12, None)"
    by (simp add: mychardev_init_def demo_chardev_def Let_def)
  with mychardev_init_unwinds [OF env(1), of "''mebeim''"] env(2) show ?thesis
    by (simp add: held_after_def demo_chardev_def)
qed

text \<open>
  An allocation failure is not caught: \<^verbatim>\<open>cdev_alloc\<close> returns null, not an error pointer, so the
  \<^verbatim>\<open>IS_ERR\<close> test passes and the null pointer is dereferenced with the region and the class still held.
\<close>

theorem cdev_alloc_failure_crashes:
  assumes "fst (d_alloc_chrdev_region env) = 0" and "d_class_create env = Ptr c" and "d_cdev_alloc env = Null"
  shows "snd (mychardev_init env content) = Inl Null_dereference \<and>
    acquired (fst (mychardev_init env content)) = [Region (snd (d_alloc_chrdev_region env)), Class (Ptr c)] \<and>
    released (fst (mychardev_init env content)) = []"
  using assms by (simp add: mychardev_init_def Let_def split_beta stop_def thenR_def bindR_def emit_def)

theorem cdev_alloc_failure_crashes_witness:
  "snd (mychardev_init (demo_chardev\<lparr>d_cdev_alloc := Null\<rparr>) ''mebeim'') = Inl Null_dereference"
  using cdev_alloc_failure_crashes [of "demo_chardev\<lparr>d_cdev_alloc := Null\<rparr>" 1 "''mebeim''"]
  by (simp add: demo_chardev_def)

text \<open>
  The parameter \<^verbatim>\<open>content\<close> is not checked: with the empty string the module loads, and then every
  read of at least one byte divides by zero.
\<close>

theorem empty_content_divides_by_zero:
  assumes "fst (d_alloc_chrdev_region env) = 0" and "d_class_create env = Ptr c" and "d_cdev_alloc env = Ptr d"
    and "d_cdev_add env = 0" and "d_device_create env = Ptr v" and "0 < n"
  shows "\<exists>s. snd (mychardev_init env []) = Inr (0, Some s) \<and>
    read_mebeim [] (s_length s) writable buf n off m = None"
  using assms
  by (simp add: mychardev_init_def read_mebeim_def read_loop.simps [of "[]" 0] Let_def split_beta thenR_def
      bindR_def emit_def)

theorem empty_content_divides_by_zero_witness:
  "\<exists>s. snd (mychardev_init demo_chardev []) = Inr (0, Some s) \<and>
    read_mebeim [] (s_length s) (\<lambda>_. True) 0 1 0 (\<lambda>_. CHR ''.'') = None"
  by (rule empty_content_divides_by_zero [of _ 1 2 3]) (simp_all add: demo_chardev_def)

end
