(* ===== verification/Module_Params.thy ===== *)
theory Module_Params
  imports Page_Table_Walk Task_Tree Task_Rss_From_Pid Enum_Pids Kallsyms Chardev
begin

text \<open>
  The parameters of the modules: for each \<^verbatim>\<open>module_param_named(name, variable, type, perm)\<close> the variable with
  its initial value, and the entry point run on the variables as the loader leaves them.  What the loader
  makes of the command line, a value of the declared type for each name that was given, is an argument.
\<close>

section \<open>What the loader was given\<close>

record module_args =
  a_int :: "string \<Rightarrow> int option"
  a_ulong :: "string \<Rightarrow> u64 option"
  a_bool :: "string \<Rightarrow> bool option"
  a_charp :: "string \<Rightarrow> string option"

definition no_args :: module_args where
  "no_args = \<lparr>a_int = (\<lambda>_. None), a_ulong = (\<lambda>_. None), a_bool = (\<lambda>_. None), a_charp = (\<lambda>_. None)\<rparr>"

definition param :: "(string \<Rightarrow> 'v option) \<Rightarrow> string \<Rightarrow> 'v \<Rightarrow> 'v" where
  "param given name initial = (case given name of None \<Rightarrow> initial | Some v \<Rightarrow> v)"

section \<open>page_table_walk\<close>

definition walk_user_pid :: "module_args \<Rightarrow> int" where
  "walk_user_pid args = param (a_int args) ''pid'' (- 1)"

definition walk_vaddr :: "module_args \<Rightarrow> u64" where
  "walk_vaddr args = param (a_ulong args) ''vaddr'' 0"

definition walk_dump :: "module_args \<Rightarrow> bool" where
  "walk_dump args = param (a_bool args) ''dump'' False"

definition insmod_page_table_walk :: "walk_env \<Rightarrow> module_args \<Rightarrow> kevent list \<times> int" where
  "insmod_page_table_walk w args = page_table_walk_init w (walk_dump args) (walk_user_pid args) (walk_vaddr args)"

section \<open>task_bfs_dfs\<close>

definition tree_user_pid :: "module_args \<Rightarrow> int" where
  "tree_user_pid args = param (a_int args) ''pid'' 0"

definition tree_use_bfs :: "module_args \<Rightarrow> bool" where
  "tree_use_bfs args = param (a_bool args) ''bfs'' False"

definition tree_dump_threads :: "module_args \<Rightarrow> bool" where
  "tree_dump_threads args = param (a_bool args) ''threads'' False"

definition insmod_task_bfs_dfs :: "task_env \<Rightarrow> module_args \<Rightarrow> nat \<Rightarrow> int qrun" where
  "insmod_task_bfs_dfs env args fuel =
     Task_Tree.modinit env (tree_use_bfs args) (tree_dump_threads args) (tree_user_pid args) fuel"

section \<open>task_rss_from_pid and enum_pids\<close>

text \<open>An uninitialised static variable is 0.\<close>

definition rss_user_pid :: "module_args \<Rightarrow> int" where
  "rss_user_pid args = param (a_int args) ''pid'' 0"

definition insmod_task_rss_from_pid :: "rss_env \<Rightarrow> module_args \<Rightarrow> kevent list \<times> int" where
  "insmod_task_rss_from_pid env args = Task_Rss_From_Pid.modinit (env, rss_user_pid args)"

definition enum_user_pid :: "module_args \<Rightarrow> int" where
  "enum_user_pid args = param (a_int args) ''pid'' 0"

definition insmod_enum_pids :: "pids_env \<Rightarrow> module_args \<Rightarrow> kevent list \<times> int" where
  "insmod_enum_pids env args = Enum_Pids.modinit env (enum_user_pid args)"

section \<open>kallsyms\<close>

text \<open>The variable is a null pointer unless the parameter is given.\<close>

definition ksym_find :: "module_args \<Rightarrow> string option" where
  "ksym_find args = param (\<lambda>name. map_option Some (a_charp args name)) ''find'' None"

definition insmod_kallsyms :: "bool \<Rightarrow> int \<Rightarrow> symbol_iterator \<Rightarrow> module_args \<Rightarrow> kevent list \<times> int" where
  "insmod_kallsyms not_exported kprobe_err on_each_symbol args =
     Kallsyms.modinit not_exported kprobe_err on_each_symbol (ksym_find args)"

section \<open>test_chardev\<close>

definition mebeim_mode :: "module_args \<Rightarrow> int" where
  "mebeim_mode args = param (a_int args) ''mode'' 0x1B6"

definition mebeim_content :: "module_args \<Rightarrow> string" where
  "mebeim_content args = param (a_charp args) ''content'' ''mebeim''"

definition insmod_test_chardev ::
    "chardev_env \<Rightarrow> module_args \<Rightarrow> (devent, crash, int \<times> chardev_state option) run" where
  "insmod_test_chardev env args = mychardev_init env (mebeim_content args)"

text \<open>The names and texts of the \<^verbatim>\<open>MODULE_PARM_DESC\<close> lines, which \<^verbatim>\<open>modinfo\<close> shows.\<close>

definition mebeim_parm_desc :: "(string \<times> string) list" where
  "mebeim_parm_desc =
     [(''mebeim_mode'', ''Device permissions.''),
      (''mebeim_content'', ''String to keep spitting out when the device is read.'')]"

section \<open>Defaults\<close>

lemmas param_defs = param_def walk_user_pid_def walk_vaddr_def walk_dump_def tree_user_pid_def tree_use_bfs_def
  tree_dump_threads_def rss_user_pid_def enum_user_pid_def ksym_find_def mebeim_mode_def mebeim_content_def

lemma no_args_none [simp]:
  "a_int no_args n = None" "a_ulong no_args n = None" "a_bool no_args n = None" "a_charp no_args n = None"
  by (simp_all add: no_args_def)

text \<open>
  Process number 0 is the idle task's and has no \<^verbatim>\<open>struct pid\<close> in the table: the modules whose \<^verbatim>\<open>pid\<close>
  parameter starts at 0 refuse to load without it, and take nothing.
\<close>

lemma pid_is_required:
  assumes "p_find_get_pid env 0 = None"
  shows "snd (insmod_enum_pids env no_args) = - ESRCH \<and> balanced kdelta (fst (insmod_enum_pids env no_args))"
  using assms by (simp add: insmod_enum_pids_def param_defs enum_pids_balanced) (simp add: Enum_Pids.modinit_def)

lemma tree_pid_is_required:
  assumes "t_find_get_pid env 0 = None" and "t_get_pid_task env None = None"
  shows "snd (insmod_task_bfs_dfs env no_args fuel) = Inr (- ESRCH) \<and>
    balanced kdelta (fst (insmod_task_bfs_dfs env no_args fuel))"
  using assms
  by (simp add: insmod_task_bfs_dfs_def param_defs Task_Tree.modinit_def Task_Tree.get_user_pid_task_def
      find_pid_task_def balanced_def)

text \<open>Without parameters \<^verbatim>\<open>page_table_walk\<close> looks at address 0 of the process that loads it.\<close>

lemma walk_default_is_current:
  "insmod_page_table_walk w no_args = page_table_walk_init w False (- 1) 0"
  by (simp add: insmod_page_table_walk_def param_defs)

text \<open>
  The descriptions of \<^verbatim>\<open>test_chardev\<close> name parameters that do not exist: whatever is given under those
  names, the module behaves as without it.
\<close>

lemma described_names_ignored:
  assumes "\<And>n. n \<notin> fst ` set mebeim_parm_desc \<Longrightarrow> a_charp args n = a_charp args' n \<and> a_int args n = a_int args' n"
  shows "insmod_test_chardev env args = insmod_test_chardev env args' \<and> mebeim_mode args = mebeim_mode args'"
  using assms [of "''content''"] assms [of "''mode''"]
  by (simp add: insmod_test_chardev_def param_defs mebeim_parm_desc_def)

end
