(* ===== verification/Chardev_Session.thy ===== *)
theory Chardev_Session
  imports Module_Params
begin

text \<open>
  \<^verbatim>\<open>modules/test_chardev.c\<close> in use: the device that a successful load created, with any number of open files
  on it.  Each open file has a position of its own; the operations of \<^verbatim>\<open>mebeim_fops\<close> are called in any order on
  any of them.  Reading is shown to deliver one stream per open file, whatever happens on the others.
\<close>

section \<open>The operations of the device\<close>

datatype file_op = Read u64 u64 | Write u64

record open_files =
  o_pos :: "u64 list"
  o_mem :: umem

text \<open>
  \<^verbatim>\<open>mebeim_fops\<close>: a call on the open file \<open>fd\<close>, with the content and its length as the module has them.  The
  result is the value returned; \<open>None\<close> is the division error of an empty content.
\<close>

definition mebeim_fops ::
    "string \<Rightarrow> u64 \<Rightarrow> (u64 \<Rightarrow> bool) \<Rightarrow> nat \<Rightarrow> file_op \<Rightarrow> open_files \<Rightarrow> (open_files \<times> int) option" where
  "mebeim_fops content len writable fd call st =
     (case call of
        Read buf n \<Rightarrow>
          map_option (\<lambda>(m, off, res). (st\<lparr>o_pos := (o_pos st)[fd := off], o_mem := m\<rparr>, res))
            (read_mebeim content len writable buf n (o_pos st ! fd) (o_mem st))
      | Write n \<Rightarrow> Some (st, write_mebeim n))"

text \<open>What the caller finds in its buffer after a call.\<close>

definition delivered :: "file_op \<Rightarrow> open_files \<Rightarrow> string" where
  "delivered call st =
     (case call of Read buf n \<Rightarrow> map (\<lambda>j. o_mem st (buf + of_nat j)) [0..<unat n] | Write n \<Rightarrow> [])"

primrec session ::
    "string \<Rightarrow> u64 \<Rightarrow> (u64 \<Rightarrow> bool) \<Rightarrow> (nat \<times> file_op) list \<Rightarrow> open_files \<Rightarrow> (open_files \<times> (nat \<times> string) list) option" where
  "session content len writable [] st = Some (st, [])"
| "session content len writable (c # cs) st =
     Option.bind (mebeim_fops content len writable (fst c) (snd c) st) (\<lambda>(st1, res).
       map_option (\<lambda>(st2, tr). (st2, (fst c, delivered (snd c) st1) # tr))
         (session content len writable cs st1))"

definition open_all :: "nat \<Rightarrow> umem \<Rightarrow> open_files" where
  "open_all k m = \<lparr>o_pos = replicate k 0, o_mem = m\<rparr>"

section \<open>Streams\<close>

fun read_size :: "file_op \<Rightarrow> nat" where
  "read_size (Read buf n) = unat n"
| "read_size (Write n) = 0"

definition total_read :: "nat \<Rightarrow> (nat \<times> file_op) list \<Rightarrow> nat" where
  "total_read fd cs = (\<Sum>c\<leftarrow>filter (\<lambda>c. fst c = fd) cs. read_size (snd c))"

definition stream_of :: "nat \<Rightarrow> (nat \<times> string) list \<Rightarrow> string" where
  "stream_of fd tr = concat (map snd (filter (\<lambda>x. fst x = fd) tr))"

lemma total_read_simps [simp]:
  "total_read fd [] = 0"
  "total_read fd (c # cs) = (if fst c = fd then read_size (snd c) else 0) + total_read fd cs"
  by (simp_all add: total_read_def)

lemma stream_of_simps [simp]:
  "stream_of fd [] = []" "stream_of fd (x # tr) = (if fst x = fd then snd x else []) @ stream_of fd tr"
  by (simp_all add: stream_of_def)

lemma map_upt_shift: "map f [a..<a + n] = map (\<lambda>j. f (a + j)) [0..<n]"
  by (simp add: list_eq_iff_nth_eq)

text \<open>One call: the position advances by what was read, and the buffer holds the content from there on.\<close>

lemma fops_step:
  assumes "content \<noteq> []" and "length content < 2 ^ 64" and "\<forall>a. writable a"
    and "fd < length (o_pos st)" and "unat (o_pos st ! fd) + read_size call < 2 ^ 64"
  obtains st1 res where
    "mebeim_fops content (of_nat (length content)) writable fd call st = Some (st1, res)"
    and "length (o_pos st1) = length (o_pos st)"
    and "\<And>i. unat (o_pos st1 ! i) = unat (o_pos st ! i) + (if i = fd then read_size call else 0)"
    and "delivered call st1 = map (\<lambda>j. repeated content (unat (o_pos st ! fd) + j)) [0..<read_size call]"
proof (cases call)
  case (Read buf n)
  let ?off = "o_pos st ! fd"
  let ?st1 = "st\<lparr>o_pos := (o_pos st)[fd := ?off + n],
    o_mem := stored writable buf (unat n) (\<lambda>j. repeated content (unat ?off + j)) (o_mem st)\<rparr>"
  have sum: "unat ?off + unat n < 2 ^ 64" using assms(5) Read by simp
  show thesis
  proof (rule that)
    show "mebeim_fops content (of_nat (length content)) writable fd call st = Some (?st1, sint n)"
      using read_mebeim_stored [OF assms(1,2) sum] by (simp add: mebeim_fops_def Read)
    show "unat (o_pos ?st1 ! i) = unat (o_pos st ! i) + (if i = fd then read_size call else 0)" for i
      using sum assms(4) by (simp add: Read nth_list_update unat_word_ariths)
    have "unat (of_nat j :: u64) = j" if "j < unat n" for j
      using that unsigned_less [of n, where 'a = nat] by (intro unat_of_nat_u64) simp
    then show "delivered call ?st1 = map (\<lambda>j. repeated content (unat ?off + j)) [0..<read_size call]"
      using assms(3) by (simp add: delivered_def Read stored_def)
  qed simp
next
  case (Write n)
  then show thesis
    by (intro that [of st "write_mebeim n"]) (simp_all add: mebeim_fops_def delivered_def)
qed

lemma session_streams:
  assumes "content \<noteq> []" and "length content < 2 ^ 64" and "\<forall>a. writable a"
    and "\<forall>c \<in> set cs. fst c < length (o_pos st)"
    and "\<And>fd. unat (o_pos st ! fd) + total_read fd cs < 2 ^ 64"
  shows "\<exists>st' tr. session content (of_nat (length content)) writable cs st = Some (st', tr) \<and>
    (\<forall>fd. unat (o_pos st' ! fd) = unat (o_pos st ! fd) + total_read fd cs \<and>
       stream_of fd tr = map (\<lambda>j. repeated content (unat (o_pos st ! fd) + j)) [0..<total_read fd cs])"
  using assms(4,5)
proof (induction cs arbitrary: st)
  case (Cons c cs)
  let ?len = "of_nat (length content) :: u64"
  have call: "fst c < length (o_pos st)" "unat (o_pos st ! fst c) + read_size (snd c) < 2 ^ 64"
    using Cons.prems(1) Cons.prems(2) [of "fst c"] by simp_all
  obtain st1 res where
    st1: "mebeim_fops content ?len writable (fst c) (snd c) st = Some (st1, res)"
    "length (o_pos st1) = length (o_pos st)"
    "\<And>i. unat (o_pos st1 ! i) = unat (o_pos st ! i) + (if i = fst c then read_size (snd c) else 0)"
    "delivered (snd c) st1 = map (\<lambda>j. repeated content (unat (o_pos st ! fst c) + j)) [0..<read_size (snd c)]"
    by (rule fops_step [OF assms(1-3) call]) (rule that)
  have "unat (o_pos st1 ! fd) + total_read fd cs < 2 ^ 64" for fd
    using Cons.prems(2) [of fd] st1(3) [of fd] by (simp split: if_splits)
  then have "\<exists>st' tr. session content ?len writable cs st1 = Some (st', tr) \<and>
      (\<forall>fd. unat (o_pos st' ! fd) = unat (o_pos st1 ! fd) + total_read fd cs \<and>
         stream_of fd tr = map (\<lambda>j. repeated content (unat (o_pos st1 ! fd) + j)) [0..<total_read fd cs])"
    using Cons.prems(1) st1(2) by (intro Cons.IH) simp_all
  then obtain st' tr where
    rest: "session content ?len writable cs st1 = Some (st', tr)"
    "\<And>fd. unat (o_pos st' ! fd) = unat (o_pos st1 ! fd) + total_read fd cs"
    "\<And>fd. stream_of fd tr = map (\<lambda>j. repeated content (unat (o_pos st1 ! fd) + j)) [0..<total_read fd cs]"
    by (elim exE conjE) blast
  show ?case
  proof (intro exI conjI allI)
    show "session content ?len writable (c # cs) st = Some (st', (fst c, delivered (snd c) st1) # tr)"
      using st1(1) rest(1) by simp
    fix fd
    show "unat (o_pos st' ! fd) = unat (o_pos st ! fd) + total_read fd (c # cs)"
      using rest(2) st1(3) by simp
    show "stream_of fd ((fst c, delivered (snd c) st1) # tr) =
        map (\<lambda>j. repeated content (unat (o_pos st ! fd) + j)) [0..<total_read fd (c # cs)]"
      using rest(3) [of fd] st1(3) [of fd] st1(4)
      by (simp add: upt_add_eq_append [of 0] map_upt_shift [of _ "read_size (snd c)"] add.assoc)
  qed
qed simp

section \<open>The device of a loaded module\<close>

lemma loaded_length:
  assumes "snd (insmod_test_chardev env args) = Inr (0, Some s)"
  shows "s_length s = of_nat (length (mebeim_content args))"
  using assms
  by (cases "d_class_create env"; cases "d_cdev_alloc env")
    (auto simp: insmod_test_chardev_def mychardev_init_def Let_def split_beta run_defs split: if_splits)

text \<open>
  C13.  The device of a successfully loaded module with a content that is not empty: for any number of open
  files and any interleaving of reads and writes on them, the reads of each open file together deliver the
  endless repetition of the content from its beginning, however they are cut into calls and whatever is done
  on the other files; positions advance by what was read on that file, and writes change nothing.
\<close>

theorem device_delivers_stream:
  assumes "snd (insmod_test_chardev env args) = Inr (0, Some s)" and "mebeim_content args \<noteq> []"
    and "length (mebeim_content args) < 2 ^ 64" and "\<forall>a. writable a"
    and "\<forall>c \<in> set cs. fst c < k" and "\<And>fd. total_read fd cs < 2 ^ 64"
  shows "\<exists>st' tr. session (mebeim_content args) (s_length s) writable cs (open_all k m) = Some (st', tr) \<and>
    (\<forall>fd < k. unat (o_pos st' ! fd) = total_read fd cs \<and>
       stream_of fd tr = map (\<lambda>j. mebeim_content args ! (j mod length (mebeim_content args))) [0..<total_read fd cs])"
proof -
  let ?st = "open_all k m"
  have "total_read fd cs = 0" if "fd \<ge> k" for fd
    using assms(5) that by (auto simp: total_read_def filter_empty_conv)
  then have "unat (o_pos ?st ! fd) + total_read fd cs < 2 ^ 64" for fd
    using assms(6) [of fd] unsigned_less [of "o_pos ?st ! fd", where 'a = nat]
    by (cases "fd < k") (simp_all add: open_all_def)
  then have "\<exists>st' tr. session (mebeim_content args) (of_nat (length (mebeim_content args))) writable cs ?st = Some (st', tr) \<and>
    (\<forall>fd. unat (o_pos st' ! fd) = unat (o_pos ?st ! fd) + total_read fd cs \<and>
       stream_of fd tr = map (\<lambda>j. repeated (mebeim_content args) (unat (o_pos ?st ! fd) + j)) [0..<total_read fd cs])"
    using assms(5) by (intro session_streams assms(2-4)) (simp add: open_all_def)
  then show ?thesis
    unfolding loaded_length [OF assms(1)] by (auto simp: open_all_def repeated_def)
qed

theorem device_delivers_stream_witness:
  "\<exists>st' tr. session ''ab'' 2 (\<lambda>_. True) [(0, Read 0x7f00 3), (1, Read 0x7f00 2), (0, Write 5), (0, Read 0x8000 2)]
      (open_all 2 (\<lambda>_. CHR ''.'')) = Some (st', tr) \<and> stream_of 0 tr = ''ababa'' \<and> stream_of 1 tr = ''ab''"
proof -
  let ?args = "no_args\<lparr>a_charp := [''content'' \<mapsto> ''ab'']\<rparr>"
  let ?env = "\<lparr>d_alloc_chrdev_region = (0, 0), d_MAJOR = (\<lambda>_. 0), d_MINOR = (\<lambda>_. 0), d_class_create = Ptr 1,
    d_cdev_alloc = Ptr 2, d_cdev_add = 0, d_device_create = Ptr 3\<rparr>"
  let ?cs = "[(0, Read 0x7f00 3), (1, Read 0x7f00 2), (0, Write 5), (0, Read 0x8000 2)] :: (nat \<times> file_op) list"
  have c: "mebeim_content ?args = ''ab''" by (simp add: param_defs)
  have "\<exists>s. snd (insmod_test_chardev ?env ?args) = Inr (0, Some s)"
    by (simp add: insmod_test_chardev_def mychardev_init_def c run_defs Let_def)
  then obtain s where s: "snd (insmod_test_chardev ?env ?args) = Inr (0, Some s)" by (elim exE)
  have len: "length ''ab'' = 2" "(of_nat 2 :: u64) = 2" by simp_all
  have tot: "total_read fd ?cs = (if fd = 0 then 5 else if fd = 1 then 2 else 0)" for fd by simp
  have "\<exists>st' tr. session (mebeim_content ?args) (s_length s) (\<lambda>_. True) ?cs (open_all 2 (\<lambda>_. CHR ''.'')) = Some (st', tr) \<and>
      (\<forall>fd < 2. unat (o_pos st' ! fd) = total_read fd ?cs \<and>
        stream_of fd tr = map (\<lambda>j. mebeim_content ?args ! (j mod length (mebeim_content ?args))) [0..<total_read fd ?cs])"
    by (rule device_delivers_stream [OF s]) (simp_all add: c tot)
  then obtain st' tr where run: "session ''ab'' 2 (\<lambda>_. True) ?cs (open_all 2 (\<lambda>_. CHR ''.'')) = Some (st', tr)"
      and "\<forall>fd < 2. stream_of fd tr = map (\<lambda>j. ''ab'' ! (j mod 2)) [0..<total_read fd ?cs]"
    unfolding loaded_length [OF s] c len by blast
  then have "stream_of 0 tr = map (\<lambda>j. ''ab'' ! (j mod 2)) [0..<5]" "stream_of 1 tr = map (\<lambda>j. ''ab'' ! (j mod 2)) [0..<2]"
    unfolding tot by simp_all
  with run show ?thesis
    by (auto simp: upt_rec [of _ 5] upt_rec [of _ 2])
qed

end
