(* ===== verification/Syscall_Hijack.thy ===== *)
theory Syscall_Hijack
  imports Kernel
begin

text \<open>
  \<^verbatim>\<open>modules/arm64/syscall_hijack.c\<close>: replacing an entry of the system call table.  The state is the part
  of kernel memory that the module touches: the words of memory and the page table entries that say
  whether a page may be written.  A store to a page that is not writable is a fault, an outcome of
  its own.  The symbols, the page table constants and \<^verbatim>\<open>apply_to_page_range\<close> (which may fail) are
  parameters.
\<close>

section \<open>State\<close>

record kmem =
  m_word :: "u64 \<Rightarrow> u64"
  m_pte :: "u64 \<Rightarrow> u64"
  m_calls :: nat

record hijack_env =
  h_init_mm :: u64
  h_sys_call_table :: u64
  h_NR_read :: nat
  h_myread :: u64
  h_PAGE_SIZE :: u64
  h_PAGE_MASK :: u64
  h_PTE_WRITE :: u64
  h_PTE_RDONLY :: u64
  h_apply_to_page_range :: "nat \<Rightarrow> u64 \<Rightarrow> u64 \<Rightarrow> int"

text \<open>
  \<open>h_apply_to_page_range n start size\<close> is the result of the \<open>n\<close>-th call; if it is 0 the callback was
  applied to the entry of every page of the range.
\<close>

record hijack_state =
  x_mem :: kmem
  x_original_read :: u64

datatype fault = Write_fault u64

type_synonym 'a hrun = "(log_line, fault \<times> hijack_state, 'a) run"

section \<open>Page permissions\<close>

definition change_page_range :: "u64 \<Rightarrow> u64 \<Rightarrow> u64 \<Rightarrow> u64" where
  "change_page_range set_mask clear_mask pte = (pte AND NOT clear_mask) OR set_mask"

text \<open>The pages from \<open>start\<close> on for \<open>size\<close> bytes, by the addresses of their entries.\<close>

definition in_range :: "hijack_env \<Rightarrow> u64 \<Rightarrow> u64 \<Rightarrow> u64 \<Rightarrow> bool" where
  "in_range env start sz a \<longleftrightarrow> a AND NOT (h_PAGE_MASK env) = 0 \<and> a - start < sz"

definition change_memory_common :: "hijack_env \<Rightarrow> u64 \<Rightarrow> u64 \<Rightarrow> u64 \<Rightarrow> u64 \<Rightarrow> kmem \<Rightarrow> int \<times> kmem" where
  "change_memory_common env start sz set_mask clear_mask m =
     (let r = h_apply_to_page_range env (m_calls m) start sz;
          m1 = m\<lparr>m_calls := Suc (m_calls m)\<rparr>
      in (r, if r = 0
             then m1\<lparr>m_pte := (\<lambda>a. if in_range env start sz a
                                   then change_page_range set_mask clear_mask (m_pte m a) else m_pte m a)\<rparr>
             else m1))"

definition set_page_rw :: "hijack_env \<Rightarrow> u64 \<Rightarrow> kmem \<Rightarrow> int \<times> kmem" where
  "set_page_rw env a m = change_memory_common env a (h_PAGE_SIZE env) (h_PTE_WRITE env) (h_PTE_RDONLY env) m"

definition set_page_ro :: "hijack_env \<Rightarrow> u64 \<Rightarrow> kmem \<Rightarrow> int \<times> kmem" where
  "set_page_ro env a m = change_memory_common env a (h_PAGE_SIZE env) (h_PTE_RDONLY env) (h_PTE_WRITE env) m"

section \<open>The hook\<close>

definition hlog :: "level \<Rightarrow> string \<Rightarrow> log_line" where
  "hlog lvl s = pr lvl ''syscall_hijack'' s"

definition myread :: "('r \<Rightarrow> log_line list \<times> int) \<Rightarrow> 'r \<Rightarrow> log_line list \<times> int" where
  "myread original_read regs =
     (let (ls, res) = original_read regs in (hlog KERN_INFO (''read() called'' @ nl) # ls, res))"

definition entry_addr :: "hijack_env \<Rightarrow> nat \<Rightarrow> u64" where
  "entry_addr env nr = h_sys_call_table env + 8 * of_nat nr"

text \<open>\<^verbatim>\<open>((unsigned long)syscall_table + __NR_read) & PAGE_MASK\<close>\<close>

definition hook_page :: "hijack_env \<Rightarrow> u64" where
  "hook_page env = (h_sys_call_table env + of_nat (h_NR_read env)) AND h_PAGE_MASK env"

definition page_writable :: "hijack_env \<Rightarrow> kmem \<Rightarrow> u64 \<Rightarrow> bool" where
  "page_writable env m a \<longleftrightarrow>
     has (m_pte m (a AND h_PAGE_MASK env)) (h_PTE_WRITE env) \<and>
     \<not> has (m_pte m (a AND h_PAGE_MASK env)) (h_PTE_RDONLY env)"

definition store :: "hijack_env \<Rightarrow> u64 \<Rightarrow> u64 \<Rightarrow> hijack_state \<Rightarrow> hijack_state hrun" where
  "store env a v st =
     (if page_writable env (x_mem st) a
      then ret (st\<lparr>x_mem := (x_mem st)\<lparr>m_word := (m_word (x_mem st))(a := v)\<rparr>\<rparr>)
      else stop (Write_fault a, st))"

definition modinit :: "hijack_env \<Rightarrow> kmem \<Rightarrow> (int \<times> hijack_state) hrun" where
  "modinit env m =
     (let tbl = h_sys_call_table env;
          original = m_word m (entry_addr env (h_NR_read env));
          head = [hlog KERN_INFO (''init'' @ nl),
                  hlog KERN_INFO (''init_mm        @ 0x'' @ fmt_016lx (h_init_mm env) @ nl),
                  hlog KERN_INFO (''sys_call_table @ 0x'' @ fmt_016lx tbl @ nl),
                  hlog KERN_INFO (''original_read  @ 0x'' @ fmt_016lx original @ nl)];
          (res, m1) = set_page_rw env (hook_page env) m;
          st1 = \<lparr>x_mem = m1, x_original_read = original\<rparr>
      in thenR (emit head)
        (if res \<noteq> 0 then
           ([hlog KERN_ERR (''set_page_rw() failed: '' @ fmt_d res @ nl)], Inr (res, st1))
         else
           bindR (store env (entry_addr env (h_NR_read env)) (h_myread env) st1) (\<lambda>st2.
             let (res2, m2) = set_page_ro env (hook_page env) (x_mem st2); st3 = st2\<lparr>x_mem := m2\<rparr>
             in if res2 \<noteq> 0 then
                  ([hlog KERN_ERR (''set_page_ro() failed: '' @ fmt_d res2 @ nl)], Inr (res2, st3))
                else ([hlog KERN_INFO (''init done'' @ nl)], Inr (0, st3)))))"

definition modexit :: "hijack_env \<Rightarrow> hijack_state \<Rightarrow> hijack_state hrun" where
  "modexit env st =
     (let (res, m1) = set_page_rw env (hook_page env) (x_mem st); st1 = st\<lparr>x_mem := m1\<rparr>
      in thenR (emit [hlog KERN_INFO (''exit'' @ nl)])
        (if res \<noteq> 0 then
           ([hlog KERN_ERR (''set_page_rw() failed: '' @ fmt_d res @ nl)], Inr st1)
         else
           bindR (store env (entry_addr env (h_NR_read env)) (x_original_read st1) st1) (\<lambda>st2.
             let (res2, m2) = set_page_ro env (hook_page env) (x_mem st2)
             in ((if res2 \<noteq> 0 then [hlog KERN_ERR (''set_page_ro() failed: '' @ fmt_d res2 @ nl)] else []) @
                 [hlog KERN_INFO (''goodbye'' @ nl)], Inr (st2\<lparr>x_mem := m2\<rparr>)))))"

text \<open>The constants of arm64 with 4K pages, a page-aligned table and \<^verbatim>\<open>read\<close> as number 63.\<close>

definition arm64_env :: "u64 \<Rightarrow> hijack_env" where
  "arm64_env tbl =
     \<lparr>h_init_mm = 0xffff800011a00000, h_sys_call_table = tbl, h_NR_read = 63, h_myread = 0xffff800008001000,
      h_PAGE_SIZE = 0x1000, h_PAGE_MASK = NOT (mask 12), h_PTE_WRITE = shl1 51, h_PTE_RDONLY = shl1 7,
      h_apply_to_page_range = (\<lambda>n start sz. 0)\<rparr>"

definition arm64_mem :: kmem where
  "arm64_mem = \<lparr>m_word = (\<lambda>a. 0xffff800010200000 + (a AND 0xFFFF)), m_pte = (\<lambda>a. 0x0040000000000783), m_calls = 0\<rparr>"

section \<open>Permissions of one page\<close>

text \<open>What arm64 with 4K pages documents of the constants.\<close>

definition arm64_pages :: "hijack_env \<Rightarrow> bool" where
  "arm64_pages env \<longleftrightarrow>
     h_PAGE_MASK env = NOT (mask 12) \<and> h_PAGE_SIZE env = 0x1000 \<and>
     h_PTE_WRITE env \<noteq> 0 \<and> h_PTE_RDONLY env \<noteq> 0 \<and> \<not> has (h_PTE_WRITE env) (h_PTE_RDONLY env)"

lemma aligned_take_bit:
  fixes p :: u64
  assumes "p AND NOT (mask 12) = p"
  shows "take_bit 12 p = 0"
proof -
  have "take_bit 12 (p AND NOT (mask 12)) = 0"
    by (auto simp: bit_eq_iff bit_simps)
  with assms show ?thesis by simp
qed

lemma aligned_plus:
  fixes p d :: u64
  assumes "take_bit 12 p = 0" and "take_bit 12 d = d"
  shows "p + d = p OR d"
proof -
  have "p AND take_bit 12 d = take_bit 12 p AND d"
    by (auto simp: bit_eq_iff bit_simps)
  with assms have "p AND d = 0" by simp
  then show ?thesis by (simp add: disjunctive_add_eq_or)
qed

lemma in_range_page:
  assumes "arm64_pages env" and "p AND h_PAGE_MASK env = p"
  shows "in_range env p (h_PAGE_SIZE env) a \<longleftrightarrow> a = p"
proof -
  have p: "take_bit 12 p = 0"
    using assms by (intro aligned_take_bit) (simp add: arm64_pages_def)
  have def: "in_range env p (h_PAGE_SIZE env) a \<longleftrightarrow> take_bit 12 a = 0 \<and> a - p < 0x1000"
    using assms(1) by (simp add: in_range_def arm64_pages_def take_bit_eq_mask)
  have "a = p" if "take_bit 12 a = 0" "a - p < 0x1000"
  proof -
    have d: "take_bit 12 (a - p) = a - p"
      using that(2) by (intro take_bit_small) (simp add: word_less_nat_alt)
    then have "a = p OR (a - p)"
      using aligned_plus [OF p d] by simp
    then have "take_bit 12 a = take_bit 12 (p OR (a - p))" by simp
    with that(1) p d show ?thesis by (simp add: take_bit_or)
  qed
  with p def show ?thesis by auto
qed

lemma hook_page_aligned: "hook_page env AND h_PAGE_MASK env = hook_page env"
  by (simp add: hook_page_def and.assoc)

lemma fun_upd_if: "(\<lambda>a. if a = x then f (g a) else g a) = g(x := f (g x))"
  by (simp add: fun_eq_iff)

text \<open>Changing the permissions of the hooked page, when \<^verbatim>\<open>apply_to_page_range\<close> succeeds.\<close>

lemma set_page_eq:
  assumes "arm64_pages env" and "\<And>n a sz. h_apply_to_page_range env n a sz = 0"
  shows "set_page_rw env (hook_page env) m =
      (0, m\<lparr>m_calls := Suc (m_calls m), m_pte := (m_pte m)(hook_page env :=
        change_page_range (h_PTE_WRITE env) (h_PTE_RDONLY env) (m_pte m (hook_page env)))\<rparr>)"
    and "set_page_ro env (hook_page env) m =
      (0, m\<lparr>m_calls := Suc (m_calls m), m_pte := (m_pte m)(hook_page env :=
        change_page_range (h_PTE_RDONLY env) (h_PTE_WRITE env) (m_pte m (hook_page env)))\<rparr>)"
  using in_range_page [OF assms(1) hook_page_aligned] assms(2)
  by (simp_all add: set_page_rw_def set_page_ro_def change_memory_common_def fun_upd_if)

lemma change_page_range_bits:
  assumes "arm64_pages env"
  shows "has (change_page_range (h_PTE_WRITE env) (h_PTE_RDONLY env) p) (h_PTE_WRITE env)"
    and "\<not> has (change_page_range (h_PTE_WRITE env) (h_PTE_RDONLY env) p) (h_PTE_RDONLY env)"
    and "has (change_page_range (h_PTE_RDONLY env) (h_PTE_WRITE env) p) (h_PTE_RDONLY env)"
  using assms
  by (auto simp: arm64_pages_def change_page_range_def has_or_left has_self)
    (auto simp: has_iff_bit bit_simps)

text \<open>A table that starts a page holds its first 512 entries in that page.\<close>

lemma same_page:
  assumes "arm64_pages env" and "h_sys_call_table env AND h_PAGE_MASK env = h_sys_call_table env"
    and "nr < 512"
  shows "entry_addr env nr AND h_PAGE_MASK env = h_sys_call_table env"
    and "(h_sys_call_table env + of_nat nr) AND h_PAGE_MASK env = h_sys_call_table env"
proof -
  let ?t = "h_sys_call_table env"
  have al: "take_bit 12 ?t = 0" and mask: "h_PAGE_MASK env = NOT (mask 12)"
    using assms(1,2) aligned_take_bit [of ?t] by (simp_all add: arm64_pages_def)
  have "(?t + d) AND NOT (mask 12) = ?t" if "unat d < 2 ^ 12" for d
  proof -
    have d: "take_bit 12 d = d"
      using that by (rule take_bit_small)
    have "?t + d = ?t OR d"
      by (rule aligned_plus [OF al d])
    then have "(?t + d) AND NOT (mask 12) = (?t AND NOT (mask 12)) OR (take_bit 12 d AND NOT (mask 12))"
      using d by (simp add: bit.conj_disj_distrib2)
    also have "take_bit 12 d AND NOT (mask 12) = 0"
      by (auto simp: bit_eq_iff bit_simps)
    finally show ?thesis using assms(2) mask by simp
  qed
  then show "entry_addr env nr AND h_PAGE_MASK env = ?t" and "(?t + of_nat nr) AND h_PAGE_MASK env = ?t"
    using assms(3) unat_of_nat_u64 [of nr]
    by (simp_all add: entry_addr_def mask unat_word_ariths)
qed

section \<open>Installing and removing the hook\<close>

definition entry_page :: "hijack_env \<Rightarrow> u64" where
  "entry_page env = entry_addr env (h_NR_read env) AND h_PAGE_MASK env"

lemma aligned_table_pages:
  assumes "arm64_pages env" and "h_sys_call_table env AND h_PAGE_MASK env = h_sys_call_table env"
    and "h_NR_read env < 512"
  shows "hook_page env = entry_page env"
  using same_page [OF assms] by (simp add: hook_page_def entry_page_def)

lemma store_after_rw:
  assumes "arm64_pages env" and "hook_page env = entry_page env"
  shows "store env (entry_addr env (h_NR_read env)) v
      \<lparr>x_mem = \<lparr>m_word = w, m_pte = pt(hook_page env :=
         change_page_range (h_PTE_WRITE env) (h_PTE_RDONLY env) p), m_calls = n\<rparr>, x_original_read = r\<rparr> =
    ret \<lparr>x_mem = \<lparr>m_word = w(entry_addr env (h_NR_read env) := v), m_pte = pt(hook_page env :=
         change_page_range (h_PTE_WRITE env) (h_PTE_RDONLY env) p), m_calls = n\<rparr>, x_original_read = r\<rparr>"
  using assms(2) change_page_range_bits [OF assms(1)]
  by (simp add: store_def page_writable_def entry_page_def)

text \<open>The page as it is after a round of \<^verbatim>\<open>set_page_rw\<close> and \<^verbatim>\<open>set_page_ro\<close>.\<close>

definition resealed :: "hijack_env \<Rightarrow> u64 \<Rightarrow> u64" where
  "resealed env p = change_page_range (h_PTE_RDONLY env) (h_PTE_WRITE env)
     (change_page_range (h_PTE_WRITE env) (h_PTE_RDONLY env) p)"

lemma modinit_ok:
  assumes "arm64_pages env" and "hook_page env = entry_page env"
    and "\<And>n a sz. h_apply_to_page_range env n a sz = 0"
  shows "snd (modinit env m) = Inr (0,
    \<lparr>x_mem = m\<lparr>m_word := (m_word m)(entry_addr env (h_NR_read env) := h_myread env),
       m_calls := m_calls m + 2,
       m_pte := (m_pte m)(entry_page env := resealed env (m_pte m (entry_page env)))\<rparr>,
     x_original_read = m_word m (entry_addr env (h_NR_read env))\<rparr>)"
  by (cases m) (simp add: modinit_def Let_def set_page_eq [OF assms(1,3)] store_after_rw [OF assms(1,2)] resealed_def
      flip: assms(2))

lemma modexit_ok:
  assumes "arm64_pages env" and "hook_page env = entry_page env"
    and "\<And>n a sz. h_apply_to_page_range env n a sz = 0"
  shows "snd (modexit env \<lparr>x_mem = m, x_original_read = r\<rparr>) = Inr
    \<lparr>x_mem = m\<lparr>m_word := (m_word m)(entry_addr env (h_NR_read env) := r),
       m_calls := m_calls m + 2,
       m_pte := (m_pte m)(entry_page env := resealed env (m_pte m (entry_page env)))\<rparr>,
     x_original_read = r\<rparr>"
  by (cases m) (simp add: modexit_def Let_def set_page_eq [OF assms(1,3)] store_after_rw [OF assms(1,2)] resealed_def
      flip: assms(2))

lemma resealed_read_only: "arm64_pages env \<Longrightarrow> has (resealed env p) (h_PTE_RDONLY env)"
  by (simp add: resealed_def change_page_range_bits)

text \<open>
  C20.  With a page-aligned table, a system call number below 512 and no failure, loading replaces
  exactly the entry of \<^verbatim>\<open>read\<close> by the hook and unloading puts the original back: memory is then what it
  was, after both steps the page of the entry is read-only again, and no other page was touched.
\<close>

theorem hook_round_trip:
  assumes "arm64_pages env" and "h_sys_call_table env AND h_PAGE_MASK env = h_sys_call_table env"
    and "h_NR_read env < 512" and "\<And>n a sz. h_apply_to_page_range env n a sz = 0"
  shows "\<exists>st st'. snd (modinit env m) = Inr (0, st) \<and> snd (modexit env st) = Inr st' \<and>
    m_word (x_mem st) = (m_word m)(entry_addr env (h_NR_read env) := h_myread env) \<and>
    m_word (x_mem st') = m_word m \<and>
    \<not> page_writable env (x_mem st) (entry_addr env (h_NR_read env)) \<and>
    \<not> page_writable env (x_mem st') (entry_addr env (h_NR_read env)) \<and>
    (\<forall>a. a \<noteq> entry_page env \<longrightarrow> m_pte (x_mem st) a = m_pte m a \<and> m_pte (x_mem st') a = m_pte m a)"
  using aligned_table_pages [OF assms(1-3)] assms(1)
  by (simp add: modinit_ok [OF assms(1) _ assms(4)] modexit_ok [OF assms(1) _ assms(4)] page_writable_def
      resealed_read_only flip: entry_page_def)

theorem hook_round_trip_witness:
  "\<exists>st st'. snd (modinit (arm64_env 0xffff800010a00000) arm64_mem) = Inr (0, st) \<and>
    snd (modexit (arm64_env 0xffff800010a00000) st) = Inr st' \<and>
    m_word (x_mem st) 0xffff800010a001f8 = 0xffff800008001000 \<and> m_word (x_mem st') = m_word arm64_mem"
proof -
  let ?env = "arm64_env 0xffff800010a00000"
  have "arm64_pages ?env" "h_sys_call_table ?env AND h_PAGE_MASK ?env = h_sys_call_table ?env"
    "h_NR_read ?env < 512" "\<And>n a sz. h_apply_to_page_range ?env n a sz = 0"
    by (simp_all add: arm64_env_def arm64_pages_def has_def mask_eq_exp_minus_1)
  from hook_round_trip [OF this, of arm64_mem]
  obtain st st' where "snd (modinit ?env arm64_mem) = Inr (0, st)" "snd (modexit ?env st) = Inr st'"
    "m_word (x_mem st) = (m_word arm64_mem)(entry_addr ?env (h_NR_read ?env) := h_myread ?env)"
    "m_word (x_mem st') = m_word arm64_mem"
    by blast
  moreover have "entry_addr ?env (h_NR_read ?env) = 0xffff800010a001f8" "h_myread ?env = 0xffff800008001000"
    by (simp_all add: arm64_env_def entry_addr_def)
  ultimately show ?thesis by auto
qed

text \<open>
  The page that is made writable is that of the byte \<^verbatim>\<open>syscall_table + __NR_read\<close>, not that of the entry,
  which is eight times as far: if the two are in different pages, and the table is read-only as it is
  meant to be, the store of the hook faults.
\<close>

theorem hook_in_other_page_faults:
  assumes "arm64_pages env" and "hook_page env \<noteq> entry_page env"
    and "h_apply_to_page_range env (m_calls m) (hook_page env) (h_PAGE_SIZE env) = 0"
    and "has (m_pte m (entry_page env)) (h_PTE_RDONLY env)"
  shows "\<exists>st. snd (modinit env m) = Inl (Write_fault (entry_addr env (h_NR_read env)), st)"
  using assms in_range_page [OF assms(1) hook_page_aligned, of "entry_page env"]
  by (simp add: modinit_def Let_def split_beta set_page_rw_def change_memory_common_def store_def
      page_writable_def stop_def flip: entry_page_def)

theorem hook_in_other_page_faults_witness:
  "\<exists>st. snd (modinit (arm64_env 0xffff800010a00f80) arm64_mem) = Inl (Write_fault 0xffff800010a01178, st)"
proof -
  let ?env = "arm64_env 0xffff800010a00f80"
  have "entry_addr ?env (h_NR_read ?env) = 0xffff800010a01178"
    by (simp add: arm64_env_def entry_addr_def)
  moreover have "arm64_pages ?env" "hook_page ?env \<noteq> entry_page ?env"
    "h_apply_to_page_range ?env (m_calls arm64_mem) (hook_page ?env) (h_PAGE_SIZE ?env) = 0"
    "has (m_pte arm64_mem (entry_page ?env)) (h_PTE_RDONLY ?env)"
    by (simp_all add: arm64_env_def arm64_pages_def has_def hook_page_def entry_page_def entry_addr_def
        arm64_mem_def mask_eq_exp_minus_1)
  ultimately show ?thesis
    using hook_in_other_page_faults [of ?env arm64_mem] by simp
qed

text \<open>
  If making the page read-only again fails, loading fails with that error, but the hook is left in the
  table: it points into a module that the kernel then unloads.
\<close>

theorem failed_reseal_leaves_hook:
  assumes "arm64_pages env" and "h_sys_call_table env AND h_PAGE_MASK env = h_sys_call_table env"
    and "h_NR_read env < 512"
    and "h_apply_to_page_range env (m_calls m) (hook_page env) (h_PAGE_SIZE env) = 0"
    and "h_apply_to_page_range env (Suc (m_calls m)) (hook_page env) (h_PAGE_SIZE env) = e" and "e \<noteq> 0"
  shows "\<exists>st. snd (modinit env m) = Inr (e, st) \<and>
    m_word (x_mem st) (entry_addr env (h_NR_read env)) = h_myread env"
  using assms aligned_table_pages [OF assms(1-3)] change_page_range_bits [OF assms(1)]
    in_range_page [OF assms(1) hook_page_aligned]
  by (simp add: modinit_def Let_def split_beta set_page_rw_def set_page_ro_def change_memory_common_def store_def
      page_writable_def ret_def flip: entry_page_def)

theorem failed_reseal_leaves_hook_witness:
  "\<exists>st. snd (modinit ((arm64_env 0xffff800010a00000)\<lparr>h_apply_to_page_range := \<lambda>n a sz. if n = 0 then 0 else - 12\<rparr>)
      arm64_mem) = Inr (- 12, st) \<and> m_word (x_mem st) 0xffff800010a001f8 = 0xffff800008001000"
proof -
  let ?env = "(arm64_env 0xffff800010a00000)\<lparr>h_apply_to_page_range := \<lambda>n a sz. if n = 0 then 0 else - 12\<rparr>"
  have "arm64_pages ?env" "h_sys_call_table ?env AND h_PAGE_MASK ?env = h_sys_call_table ?env"
    "h_NR_read ?env < 512"
    "h_apply_to_page_range ?env (m_calls arm64_mem) (hook_page ?env) (h_PAGE_SIZE ?env) = 0"
    "h_apply_to_page_range ?env (Suc (m_calls arm64_mem)) (hook_page ?env) (h_PAGE_SIZE ?env) = - 12"
    by (simp_all add: arm64_env_def arm64_pages_def arm64_mem_def has_def mask_eq_exp_minus_1)
  from failed_reseal_leaves_hook [OF this] show ?thesis
    by (simp add: arm64_env_def entry_addr_def)
qed

end
