(* ===== verification/Module_Text.thy ===== *)
theory Module_Text
  imports Kernel
begin

text \<open>
  The code of a module while it is being unloaded.  The kernel releases the memory of a module after its
  exit point has run; a thread that is in that code, or will return to it, then executes memory that is no
  longer the module's.  The interface says what has to be known of a module for this: who is inside, that
  nobody gets inside after the release, and that whoever is inside at the release comes to execute it.
  What follows is that a release is safe exactly if nobody is inside.
\<close>

locale module_text =
  fixes step :: "'s \<Rightarrow> 's \<Rightarrow> bool"
    and ok :: "'s \<Rightarrow> bool"
    and released :: "'s \<Rightarrow> bool"
    and inside :: "'s \<Rightarrow> bool"
    and crashed :: "'s \<Rightarrow> bool"
  assumes ok_step: "step st st' \<Longrightarrow> ok st \<Longrightarrow> ok st'"
    and nobody_enters: "step st st' \<Longrightarrow> ok st \<Longrightarrow> released st \<Longrightarrow> \<not> inside st \<Longrightarrow> released st' \<and> \<not> inside st'"
    and only_inside_crash: "step st st' \<Longrightarrow> ok st \<Longrightarrow> crashed st' \<Longrightarrow> crashed st \<or> released st \<and> inside st"
    and inside_crash: "ok st \<Longrightarrow> released st \<Longrightarrow> inside st \<Longrightarrow> \<exists>st'. step\<^sup>*\<^sup>* st st' \<and> crashed st'"
begin

lemma ok_steps: "step\<^sup>*\<^sup>* st st' \<Longrightarrow> ok st \<Longrightarrow> ok st'"
  by (induction rule: rtranclp_induct) (auto intro: ok_step)

lemma empty_stays_safe:
  assumes "step\<^sup>*\<^sup>* st st'" and "ok st" and "released st" and "\<not> inside st" and "\<not> crashed st"
  shows "released st' \<and> \<not> inside st' \<and> \<not> crashed st'"
  using assms(1)
proof (induction rule: rtranclp_induct)
  case (step st' st'')
  moreover have "ok st'"
    using step.hyps(1) assms(2) by (rule ok_steps)
  ultimately show ?case
    using nobody_enters [of st' st''] only_inside_crash [of st' st''] by blast
qed (use assms in blast)

lemma release_safe_iff:
  assumes "ok st" and "released st" and "\<not> crashed st"
  shows "(\<forall>st'. step\<^sup>*\<^sup>* st st' \<longrightarrow> \<not> crashed st') \<longleftrightarrow> \<not> inside st"
  using empty_stays_safe [OF _ assms(1,2) _ assms(3)] inside_crash [OF assms(1,2)] by blast

end

end
