(* ===== verification/Hijack_Race.thy ===== *)
theory Hijack_Race
  imports Syscall_Hijack Module_Text
begin

text \<open>
  \<^verbatim>\<open>modules/arm64/syscall_hijack.c\<close> with threads: system calls run while the module is loaded and unloaded.
  A schedule is a list of actions: loading, unloading, the kernel's release of the module's memory, a thread
  that enters \<^verbatim>\<open>read\<close> through the table, and a thread that takes its next step.  The module takes no
  reference on itself in \<^verbatim>\<open>myread\<close>, so nothing keeps the release from happening while a thread is inside.

  \<^verbatim>\<open>modinit\<close> and \<^verbatim>\<open>modexit\<close> are one action each: what other threads see of them is the one store to the
  table, and the module's memory is released by an action of its own.
\<close>

section \<open>Threads and the life of the module\<close>

datatype phase = Unloaded | Live | Leaving | Freed

text \<open>
  Where a thread is: outside, before \<^verbatim>\<open>pr_info\<close> in \<^verbatim>\<open>myread\<close>, before the call of \<^verbatim>\<open>original_read\<close>, in the
  function at an address (which returns to \<^verbatim>\<open>myread\<close>, or not), at the \<^verbatim>\<open>return\<close> of \<^verbatim>\<open>myread\<close>.  A thread that
  executes memory that was released has crashed.
\<close>

datatype pc = User | Hook_entry | Hook_call | In_read u64 bool | Hook_return | Crashed

record race_state =
  r_sys :: hijack_state
  r_phase :: phase
  r_pcs :: "pc list"
  r_log :: "log_line list"
  r_calls :: "(nat \<times> u64) list"

datatype action = Load | Unload | Free | Read nat | Step nat

text \<open>The code of the module is gone once it is freed.\<close>

definition in_text :: "race_state \<Rightarrow> nat \<Rightarrow> race_state \<Rightarrow> race_state" where
  "in_text st t st' = (if r_phase st = Freed then st\<lparr>r_pcs := (r_pcs st)[t := Crashed]\<rparr> else st')"

text \<open>
  One step of a thread.  \<open>tail\<close> is the compiler's choice for \<^verbatim>\<open>return original_read(regs)\<close>: a jump, after
  which the function does not return to \<^verbatim>\<open>myread\<close>, or a call.
\<close>

definition myread_step :: "bool \<Rightarrow> nat \<Rightarrow> race_state \<Rightarrow> race_state option" where
  "myread_step tail t st =
     (case r_pcs st ! t of
        Hook_entry \<Rightarrow> Some (in_text st t
          (st\<lparr>r_pcs := (r_pcs st)[t := Hook_call], r_log := r_log st @ [hlog KERN_INFO (''read() called'' @ nl)]\<rparr>))
      | Hook_call \<Rightarrow> Some (in_text st t
          (st\<lparr>r_pcs := (r_pcs st)[t := In_read (x_original_read (r_sys st)) (\<not> tail)],
              r_calls := r_calls st @ [(t, x_original_read (r_sys st))]\<rparr>))
      | In_read f back \<Rightarrow> Some (st\<lparr>r_pcs := (r_pcs st)[t := if back then Hook_return else User]\<rparr>)
      | Hook_return \<Rightarrow> Some (in_text st t (st\<lparr>r_pcs := (r_pcs st)[t := User]\<rparr>))
      | User \<Rightarrow> None
      | Crashed \<Rightarrow> None)"

text \<open>The dispatch of \<^verbatim>\<open>read\<close> calls whatever the table holds.\<close>

definition read_entry :: "hijack_env \<Rightarrow> race_state \<Rightarrow> u64" where
  "read_entry env st = m_word (x_mem (r_sys st)) (entry_addr env (h_NR_read env))"

definition enter_read :: "hijack_env \<Rightarrow> nat \<Rightarrow> race_state \<Rightarrow> race_state" where
  "enter_read env t st =
     (let f = read_entry env st
      in if f = h_myread env then st\<lparr>r_pcs := (r_pcs st)[t := Hook_entry]\<rparr>
         else st\<lparr>r_pcs := (r_pcs st)[t := In_read f False], r_calls := r_calls st @ [(t, f)]\<rparr>)"

text \<open>A module whose \<^verbatim>\<open>init\<close> failed is released like one whose \<^verbatim>\<open>exit\<close> has run.\<close>

fun act :: "hijack_env \<Rightarrow> bool \<Rightarrow> action \<Rightarrow> race_state \<Rightarrow> race_state option" where
  "act env tail Load st =
     (if r_phase st = Unloaded
      then case snd (modinit env (x_mem (r_sys st))) of
             Inl _ \<Rightarrow> None
           | Inr (res, sys) \<Rightarrow> Some (st\<lparr>r_sys := sys, r_phase := if res < 0 then Leaving else Live\<rparr>)
      else None)"
| "act env tail Unload st =
     (if r_phase st = Live
      then case snd (modexit env (r_sys st)) of
             Inl _ \<Rightarrow> None
           | Inr sys \<Rightarrow> Some (st\<lparr>r_sys := sys, r_phase := Leaving\<rparr>)
      else None)"
| "act env tail Free st = (if r_phase st = Leaving then Some (st\<lparr>r_phase := Freed\<rparr>) else None)"
| "act env tail (Read t) st =
     (if t < length (r_pcs st) \<and> r_pcs st ! t = User then Some (enter_read env t st) else None)"
| "act env tail (Step t) st = (if t < length (r_pcs st) then myread_step tail t st else None)"

primrec schedule :: "hijack_env \<Rightarrow> bool \<Rightarrow> action list \<Rightarrow> race_state \<Rightarrow> race_state option" where
  "schedule env tail [] st = Some st"
| "schedule env tail (a # as) st = Option.bind (act env tail a st) (schedule env tail as)"

definition boot :: "kmem \<Rightarrow> nat \<Rightarrow> race_state" where
  "boot m n = \<lparr>r_sys = \<lparr>x_mem = m, x_original_read = 0\<rparr>, r_phase = Unloaded, r_pcs = replicate n User,
               r_log = [], r_calls = []\<rparr>"

text \<open>The threads that are in the module's code or have a return address there.\<close>

fun needs_text :: "pc \<Rightarrow> bool" where
  "needs_text (In_read f back) \<longleftrightarrow> back"
| "needs_text p \<longleftrightarrow> p \<in> {Hook_entry, Hook_call, Hook_return}"

definition drained :: "race_state \<Rightarrow> bool" where
  "drained st \<longleftrightarrow> list_all (\<lambda>p. \<not> needs_text p) (r_pcs st)"

definition crashed :: "race_state \<Rightarrow> bool" where
  "crashed st \<longleftrightarrow> Crashed \<in> set (r_pcs st)"

section \<open>Invariant of the schedules\<close>

text \<open>The setting in which loading and unloading work, as in \<^verbatim>\<open>hook_round_trip\<close>.\<close>

definition hijack_works :: "hijack_env \<Rightarrow> kmem \<Rightarrow> bool" where
  "hijack_works env m \<longleftrightarrow> arm64_pages env \<and> hook_page env = entry_page env \<and>
     (\<forall>n a sz. h_apply_to_page_range env n a sz = 0) \<and>
     m_word m (entry_addr env (h_NR_read env)) \<noteq> h_myread env"

text \<open>What a thread may be doing, given the address \<open>f\<close> of the original function.\<close>

fun pc_ok :: "u64 \<Rightarrow> phase \<Rightarrow> pc \<Rightarrow> bool" where
  "pc_ok f ph (In_read g back) \<longleftrightarrow> g = f \<and> (back \<longrightarrow> ph \<noteq> Unloaded)"
| "pc_ok f ph Crashed \<longleftrightarrow> ph = Freed"
| "pc_ok f ph User \<longleftrightarrow> True"
| "pc_ok f ph p \<longleftrightarrow> ph \<noteq> Unloaded"

definition race_inv :: "hijack_env \<Rightarrow> u64 \<Rightarrow> race_state \<Rightarrow> bool" where
  "race_inv env f st \<longleftrightarrow>
     read_entry env st = (if r_phase st = Live then h_myread env else f) \<and>
     (r_phase st \<noteq> Unloaded \<longrightarrow> x_original_read (r_sys st) = f) \<and>
     (\<forall>p \<in> set (r_pcs st). pc_ok f (r_phase st) p) \<and> (\<forall>c \<in> set (r_calls st). snd c = f)"

lemma race_invI:
  assumes "read_entry env st = (if r_phase st = Live then h_myread env else f)"
    and "r_phase st \<noteq> Unloaded \<Longrightarrow> x_original_read (r_sys st) = f"
    and "\<And>p. p \<in> set (r_pcs st) \<Longrightarrow> pc_ok f (r_phase st) p" and "\<forall>c \<in> set (r_calls st). snd c = f"
  shows "race_inv env f st"
  using assms by (simp add: race_inv_def)

lemma race_inv_boot: "race_inv env (m_word m (entry_addr env (h_NR_read env))) (boot m n)"
  by (simp add: race_inv_def boot_def read_entry_def)

lemma pc_ok_phase:
  assumes "pc_ok f ph p" and "ph = Unloaded \<or> ph' \<noteq> Unloaded" and "ph \<noteq> Freed"
  shows "pc_ok f ph' p"
  using assms by (cases p) auto

lemma list_update_ball:
  assumes "\<forall>x \<in> set xs. P x" and "P v"
  shows "\<forall>x \<in> set (xs[i := v]). P x"
  using assms set_update_subset_insert [of xs i v] by auto

text \<open>A thread at index \<open>t\<close> that moves to \<open>p\<close>, and what it may call.\<close>

lemma race_inv_thread:
  assumes "race_inv env f st" and "pc_ok f (r_phase st) p" and "\<forall>c \<in> set cs. snd c = f"
  shows "race_inv env f (st\<lparr>r_pcs := (r_pcs st)[t := p], r_log := ls, r_calls := r_calls st @ cs\<rparr>)"
proof (rule race_invI)
  show "pc_ok f (r_phase (st\<lparr>r_pcs := (r_pcs st)[t := p], r_log := ls, r_calls := r_calls st @ cs\<rparr>)) q"
    if "q \<in> set (r_pcs (st\<lparr>r_pcs := (r_pcs st)[t := p], r_log := ls, r_calls := r_calls st @ cs\<rparr>))" for q
    using that list_update_ball [of "r_pcs st" "pc_ok f (r_phase st)" p t] assms(1,2)
    by (simp add: race_inv_def)
qed (use assms in \<open>auto simp: race_inv_def read_entry_def\<close>)

lemmas race_inv_move =
  race_inv_thread [where cs = "[]", simplified]
  race_inv_thread [where cs = "[]" and st = st and ls = "r_log st" for st, simplified]
  race_inv_thread [where cs = "[(u, g)]" and st = st and ls = "r_log st" for st u g, simplified]

lemma myread_step_inv:
  assumes "race_inv env f st" and "t < length (r_pcs st)" and "myread_step tail t st = Some st'"
  shows "race_inv env f st'"
proof -
  have "pc_ok f (r_phase st) (r_pcs st ! t)"
    using assms(1,2) by (simp add: race_inv_def)
  moreover have "x_original_read (r_sys st) = f" if "r_phase st \<noteq> Unloaded"
    using assms(1) that by (simp add: race_inv_def)
  ultimately show ?thesis
    using assms(1,3)
    by (cases "r_pcs st ! t") (auto simp: myread_step_def in_text_def intro!: race_inv_move split: if_splits)
qed

lemma enter_read_inv:
  assumes "race_inv env f st" and "f \<noteq> h_myread env"
  shows "race_inv env f (enter_read env t st)"
  using assms
  by (auto simp: enter_read_def Let_def intro!: race_inv_move)
    (auto simp: race_inv_def split: if_splits)

lemma load_inv:
  assumes "hijack_works env m" and "race_inv env f st" and "act env tail Load st = Some st'"
  shows "race_inv env f st' \<and> r_phase st' = Live"
  using assms by (auto simp: race_inv_def hijack_works_def read_entry_def modinit_ok split: if_splits
      elim!: pc_ok_phase)

lemma unload_inv:
  assumes "hijack_works env m" and "race_inv env f st" and "act env tail Unload st = Some st'"
  shows "race_inv env f st'"
  using assms by (cases "r_sys st") (auto simp: race_inv_def hijack_works_def read_entry_def modexit_ok
      split: if_splits elim!: pc_ok_phase)

lemma act_inv:
  assumes "hijack_works env m" and "f \<noteq> h_myread env" and "race_inv env f st" and "act env tail a st = Some st'"
  shows "race_inv env f st'"
proof (cases a)
  case Load
  with load_inv [OF assms(1,3)] assms(4) show ?thesis by blast
next
  case Unload
  with unload_inv [OF assms(1,3)] assms(4) show ?thesis by blast
next
  case Free
  with assms(3,4) show ?thesis
    by (auto simp: race_inv_def read_entry_def split: if_splits elim!: pc_ok_phase)
next
  case (Read t)
  with enter_read_inv [OF assms(3,2), of t] assms(4) show ?thesis
    by (simp split: if_splits)
next
  case (Step t)
  with myread_step_inv [OF assms(3), of t tail st'] assms(4) show ?thesis
    by (simp split: if_splits)
qed

lemma schedule_inv:
  assumes "hijack_works env m" and "f \<noteq> h_myread env" and "race_inv env f st"
    and "schedule env tail as st = Some st'"
  shows "race_inv env f st'"
  using assms(3,4) by (induction as arbitrary: st) (auto simp: bind_eq_Some_conv intro: act_inv [OF assms(1,2)])

section \<open>When unloading is safe\<close>

text \<open>The schedules as a step relation, for the interface of \<open>Module_Text\<close>.\<close>

definition race_step :: "hijack_env \<Rightarrow> bool \<Rightarrow> race_state \<Rightarrow> race_state \<Rightarrow> bool" where
  "race_step env tail st st' \<longleftrightarrow> (\<exists>a. act env tail a st = Some st')"

lemma schedule_append:
  "schedule env tail (as @ bs) st = Option.bind (schedule env tail as st) (schedule env tail bs)"
  by (induction as arbitrary: st) (simp_all add: Option.bind_assoc cong: Option.bind_cong)

lemma race_steps_iff: "(race_step env tail)\<^sup>*\<^sup>* st st' \<longleftrightarrow> (\<exists>as. schedule env tail as st = Some st')"
proof
  assume "(race_step env tail)\<^sup>*\<^sup>* st st'"
  then show "\<exists>as. schedule env tail as st = Some st'"
  proof (induction rule: rtranclp_induct)
    case base
    show ?case by (intro exI [of _ "[]"]) simp
  next
    case (step st' st'')
    then obtain as a where "schedule env tail as st = Some st'" "act env tail a st' = Some st''"
      by (auto simp: race_step_def)
    then show ?case by (intro exI [of _ "as @ [a]"]) (simp add: schedule_append)
  qed
next
  have "schedule env tail as st = Some st' \<Longrightarrow> (race_step env tail)\<^sup>*\<^sup>* st st'" for as
  proof (induction as arbitrary: st)
    case (Cons a as)
    then obtain y where "act env tail a st = Some y" and rest: "(race_step env tail)\<^sup>*\<^sup>* y st'"
      by (auto simp: bind_eq_Some_conv)
    then have "race_step env tail st y" by (auto simp: race_step_def)
    then show ?case using rest by (rule converse_rtranclp_into_rtranclp)
  qed simp
  then show "\<exists>as. schedule env tail as st = Some st' \<Longrightarrow> (race_step env tail)\<^sup>*\<^sup>* st st'" by blast
qed

definition race_ok :: "hijack_env \<Rightarrow> kmem \<Rightarrow> race_state \<Rightarrow> bool" where
  "race_ok env m st \<longleftrightarrow> hijack_works env m \<and> race_inv env (m_word m (entry_addr env (h_NR_read env))) st"

lemma race_ok_act: "race_ok env m st \<Longrightarrow> act env tail a st = Some st' \<Longrightarrow> race_ok env m st'"
  using act_inv by (auto simp: race_ok_def hijack_works_def)

lemma not_drained: "\<not> drained st \<longleftrightarrow> (\<exists>t < length (r_pcs st). needs_text (r_pcs st ! t))"
  by (auto simp: drained_def list_all_length)

lemma drained_update:
  "drained st \<Longrightarrow> \<not> needs_text p \<Longrightarrow> list_all (\<lambda>p. \<not> needs_text p) ((r_pcs st)[t := p])"
  using list_update_ball [of "r_pcs st" "\<lambda>p. \<not> needs_text p" p t] by (simp add: drained_def list_all_iff)

text \<open>The table does not lead to the hook any more, so nobody gets inside once the memory is released.\<close>

lemma nobody_enters_hook:
  assumes "act env tail a st = Some st'" and "race_ok env m st" and "r_phase st = Freed" and "drained st"
  shows "r_phase st' = Freed \<and> drained st'"
proof (cases a)
  case (Read t)
  have "read_entry env st \<noteq> h_myread env"
    using assms(2,3) by (auto simp: race_ok_def race_inv_def hijack_works_def)
  with Read assms show ?thesis
    by (auto simp: enter_read_def Let_def drained_update drained_def [of "_\<lparr>r_pcs := _, r_calls := _\<rparr>"] split: if_splits)
next
  case (Step t)
  with assms(1) have t: "t < length (r_pcs st)" "myread_step tail t st = Some st'"
    by (auto split: if_splits)
  moreover have "\<not> needs_text (r_pcs st ! t)"
    using assms(4) t(1) by (auto simp: drained_def list_all_length)
  ultimately show ?thesis
    using assms(3,4) drained_update [OF assms(4), of User t]
    by (cases "r_pcs st ! t") (auto simp: myread_step_def drained_def split: if_splits)
qed (use assms in auto)

lemma crash_in_update: "Crashed \<in> set (xs[t := p]) \<Longrightarrow> Crashed \<in> set xs \<or> p = Crashed"
  using set_update_subset_insert [of xs t p] by auto

lemma only_inside_hook_crash:
  assumes "act env tail a st = Some st'" and "crashed st'"
  shows "crashed st \<or> r_phase st = Freed \<and> \<not> drained st"
proof (cases a)
  case (Step t)
  with assms have t: "t < length (r_pcs st)" "myread_step tail t st = Some st'"
    by (auto split: if_splits)
  have "crashed st \<or> r_phase st = Freed \<and> needs_text (r_pcs st ! t)"
    using t(2) assms(2)
    by (cases "r_pcs st ! t") (auto simp: myread_step_def in_text_def crashed_def dest!: crash_in_update split: if_splits)
  with t(1) show ?thesis by (auto simp: not_drained)
qed (use assms in \<open>auto simp: crashed_def enter_read_def Let_def dest!: crash_in_update split: if_splits sum.splits prod.splits\<close>)

text \<open>A thread that still needs the code when it is released crashes within two steps.\<close>

definition doom :: "nat \<Rightarrow> pc \<Rightarrow> action list" where
  "doom t p = (case p of In_read f back \<Rightarrow> [Step t, Step t] | _ \<Rightarrow> [Step t])"

lemma doom_crashes:
  assumes "r_phase st = Freed" and "t < length (r_pcs st)" and "needs_text (r_pcs st ! t)"
  shows "\<exists>st'. schedule env tail (doom t (r_pcs st ! t)) st = Some st' \<and> crashed st'"
  using assms
  by (cases "r_pcs st ! t") (auto simp: doom_def myread_step_def in_text_def crashed_def set_update_memI)

interpretation race_text: module_text "race_step env tail" "race_ok env m" "\<lambda>st. r_phase st = Freed"
  "\<lambda>st. \<not> drained st" crashed for env tail m
proof
  show "\<exists>st'. (race_step env tail)\<^sup>*\<^sup>* st st' \<and> crashed st'" if "r_phase st = Freed" "\<not> drained st" for st
    using that doom_crashes [of st _ env tail] unfolding race_steps_iff not_drained by blast
qed (use race_ok_act nobody_enters_hook only_inside_hook_crash in \<open>unfold race_step_def, blast+\<close>)

lemma no_crash_before_free: "race_inv env f st \<Longrightarrow> r_phase st = Leaving \<Longrightarrow> \<not> crashed st"
  by (auto simp: race_inv_def crashed_def)

text \<open>A thread that goes through the hook undisturbed does what \<^verbatim>\<open>myread\<close> does, and ends outside.\<close>

lemma hook_alone_is_myread:
  assumes "r_phase st = Live" and "t < length (r_pcs st)" and "r_pcs st ! t = Hook_entry"
  shows "\<exists>st'. schedule env tail (Step t # Step t # Step t # (if tail then [] else [Step t])) st = Some st' \<and>
    r_pcs st' = (r_pcs st)[t := User] \<and> r_log st' = r_log st @ fst (myread (\<lambda>_. ([], res)) ()) \<and>
    r_calls st' = r_calls st @ [(t, x_original_read (r_sys st))]"
  using assms by (simp add: myread_step_def in_text_def myread_def)

lemmas race_eval = hijack_works_def boot_def modinit_ok modexit_ok enter_read_def read_entry_def
  myread_step_def in_text_def Let_def

lemma arm64_hijack_works: "hijack_works (arm64_env 0xffff800010a00000) arm64_mem"
  by (simp add: hijack_works_def arm64_env_def arm64_pages_def has_def mask_eq_exp_minus_1 hook_page_def
      entry_page_def entry_addr_def arm64_mem_def)

text \<open>
  C9.  For every schedule that has reached the release of the module's memory: no continuation of it ever
  executes memory that was released exactly if, at the release, no thread is inside \<^verbatim>\<open>myread\<close> or in an
  \<^verbatim>\<open>original_read\<close> that returns to it.
\<close>

theorem release_safe_iff_drained:
  assumes "hijack_works env m" and "schedule env tail as (boot m n) = Some st" and "r_phase st = Leaving"
  shows "(\<forall>bs st'. schedule env tail (Free # bs) st = Some st' \<longrightarrow> \<not> crashed st') \<longleftrightarrow> drained st"
proof -
  let ?free = "st\<lparr>r_phase := Freed\<rparr>"
  have ok: "race_ok env m st"
    using assms(1) schedule_inv [OF assms(1) _ race_inv_boot assms(2)] by (simp add: race_ok_def hijack_works_def)
  then have "race_ok env m ?free" "\<not> crashed ?free"
    using race_ok_act [OF ok, of tail Free] no_crash_before_free assms(3) by (auto simp: race_ok_def crashed_def)
  from race_text.release_safe_iff [OF this(1) _ this(2), of tail] assms(3) show ?thesis
    by (auto simp: race_steps_iff drained_def)
qed

theorem release_safe_iff_drained_witness:
  "\<exists>st. schedule (arm64_env 0xffff800010a00000) True [Load, Read 0, Step 0, Step 0, Unload] (boot arm64_mem 2) = Some st \<and>
    (\<forall>bs st'. schedule (arm64_env 0xffff800010a00000) True (Free # bs) st = Some st' \<longrightarrow> \<not> crashed st')"
proof -
  let ?env = "arm64_env 0xffff800010a00000"
  have "\<exists>st. schedule ?env True [Load, Read 0, Step 0, Step 0, Unload] (boot arm64_mem 2) = Some st \<and>
      r_phase st = Leaving \<and> drained st"
    using arm64_hijack_works
    by (simp add: race_eval drained_def numeral_2_eq_2)
  then obtain st where st: "schedule ?env True [Load, Read 0, Step 0, Step 0, Unload] (boot arm64_mem 2) = Some st"
      "r_phase st = Leaving" "drained st"
    by (elim exE conjE)
  from release_safe_iff_drained [OF arm64_hijack_works st(1,2)] st(1,3) show ?thesis by blast
qed

text \<open>
  Nothing in the module prevents the race.  In every setting in which loading and unloading work, and
  whatever the compiler does with the call, a thread that enters \<^verbatim>\<open>read\<close> while the module is loaded and is
  overtaken by unloading executes memory that was released.
\<close>

theorem unload_races_with_read:
  assumes "hijack_works env m" and "n > 0"
  shows "\<exists>st. schedule env tail [Load, Read 0, Step 0, Unload, Free, Step 0] (boot m n) = Some st \<and> crashed st"
proof -
  from assms(2) obtain k where "n = Suc k" by (cases n) auto
  with assms(1) show ?thesis
    by (simp add: race_eval crashed_def)
qed

theorem unload_races_with_read_witness:
  "\<exists>st. schedule (arm64_env 0xffff800010a00000) False [Load, Read 0, Step 0, Unload, Free, Step 0] (boot arm64_mem 1) = Some st \<and>
    crashed st"
  using unload_races_with_read [OF arm64_hijack_works, of 1 False] by simp

section \<open>What reads run\<close>

text \<open>The functions that a thread has called for \<^verbatim>\<open>read\<close>, in order, and whether it is in the hook before the call.\<close>

definition called_by :: "nat \<Rightarrow> race_state \<Rightarrow> u64 list" where
  "called_by t st = map snd (filter (\<lambda>c. fst c = t) (r_calls st))"

definition owes_call :: "nat \<Rightarrow> race_state \<Rightarrow> nat" where
  "owes_call t st = (if r_pcs st ! t = Hook_entry \<or> r_pcs st ! t = Hook_call then 1 else 0)"

definition reads_by :: "nat \<Rightarrow> action list \<Rightarrow> nat" where
  "reads_by t as = length (filter (\<lambda>a. a = Read t) as)"

lemma myread_step_owes:
  assumes "myread_step tail u st = Some st'" and "u < length (r_pcs st)" and "r_pcs st' ! t \<noteq> Crashed"
  shows "r_pcs st ! t \<noteq> Crashed \<and>
    length (called_by t st') + owes_call t st' = length (called_by t st) + owes_call t st"
  using assms
  by (cases "r_pcs st ! u"; cases "t = u")
    (auto simp: myread_step_def in_text_def called_by_def owes_call_def split: if_splits)

lemma act_owes:
  assumes "act env tail a st = Some st'" and "r_pcs st' ! t \<noteq> Crashed"
  shows "r_pcs st ! t \<noteq> Crashed \<and>
    length (called_by t st') + owes_call t st' = length (called_by t st) + owes_call t st + reads_by t [a]"
proof (cases a)
  case (Step u)
  with assms myread_step_owes [of tail u st st' t] show ?thesis
    by (simp add: reads_by_def split: if_splits)
next
  case (Read u)
  with assms show ?thesis
    by (cases "t = u")
      (auto simp: enter_read_def Let_def called_by_def owes_call_def reads_by_def split: if_splits)
qed (use assms in \<open>auto simp: called_by_def owes_call_def reads_by_def split: if_splits sum.splits prod.splits\<close>)

lemma schedule_owes:
  assumes "schedule env tail as st = Some st'" and "r_pcs st' ! t \<noteq> Crashed"
  shows "r_pcs st ! t \<noteq> Crashed \<and>
    length (called_by t st') + owes_call t st' = length (called_by t st) + owes_call t st + reads_by t as"
  using assms
proof (induction as arbitrary: st)
  case Nil
  then show ?case by (simp add: reads_by_def)
next
  case (Cons a as)
  then obtain st1 where step: "act env tail a st = Some st1" "schedule env tail as st1 = Some st'"
    by (auto simp: bind_eq_Some_conv)
  have "reads_by t (a # as) = reads_by t [a] + reads_by t as"
    by (simp add: reads_by_def)
  with Cons.IH [OF step(2) Cons.prems(2)] act_owes [OF step(1), of t] show ?case by simp
qed

text \<open>
  C23.  While the module works, hooking is transparent.  Whatever the interleaving, a thread that has not crashed
  in released memory has called, for its reads, the function that the table held before the module was loaded and
  no other, once for each read it has entered; only the call of the present read may still be missing, if the
  thread is in \<^verbatim>\<open>myread\<close> before it.  In particular, a thread that is back outside has had every one of its reads
  run by that function, exactly once.
\<close>

theorem every_read_runs_original:
  assumes "hijack_works env m" and "schedule env tail as (boot m n) = Some st" and "t < n"
    and "r_pcs st ! t \<noteq> Crashed"
  shows "\<exists>k. called_by t st = replicate k (m_word m (entry_addr env (h_NR_read env))) \<and>
    reads_by t as = k + (if r_pcs st ! t \<in> {Hook_entry, Hook_call} then 1 else 0)"
proof (intro exI conjI)
  let ?f = "m_word m (entry_addr env (h_NR_read env))"
  have "\<forall>c \<in> set (r_calls st). snd c = ?f"
    using schedule_inv [OF assms(1) _ race_inv_boot assms(2)] assms(1) by (auto simp: hijack_works_def race_inv_def)
  then show "called_by t st = replicate (length (called_by t st)) ?f"
    by (auto simp: called_by_def intro!: replicate_eqI)
  show "reads_by t as = length (called_by t st) + (if r_pcs st ! t \<in> {Hook_entry, Hook_call} then 1 else 0)"
    using schedule_owes [OF assms(2,4)] assms(3) by (simp add: boot_def called_by_def owes_call_def)
qed

theorem every_read_runs_original_witness:
  "\<exists>st. schedule (arm64_env 0xffff800010a00000) True [Read 1, Load, Read 0, Step 0, Step 0] (boot arm64_mem 2) = Some st \<and>
    called_by 0 st = [0xffff8000102001f8]"
proof -
  let ?env = "arm64_env 0xffff800010a00000" and ?as = "[Read 1, Load, Read 0, Step 0, Step 0]"
  have "\<exists>st f b. schedule ?env True ?as (boot arm64_mem 2) = Some st \<and> r_pcs st ! 0 = In_read f b"
    using arm64_hijack_works by (simp add: race_eval numeral_2_eq_2) blast
  then obtain st f b where st: "schedule ?env True ?as (boot arm64_mem 2) = Some st" "r_pcs st ! 0 = In_read f b"
    by (elim exE conjE)
  have "reads_by 0 ?as = 1" by (simp add: reads_by_def)
  moreover have "m_word arm64_mem (entry_addr ?env (h_NR_read ?env)) = 0xffff8000102001f8"
    by (simp add: arm64_env_def entry_addr_def arm64_mem_def)
  ultimately show ?thesis
    using every_read_runs_original [OF arm64_hijack_works st(1), of 0] st by auto
qed

end
