(* ===== verification/Reboot_Notifier.thy ===== *)
theory Reboot_Notifier
  imports Module_Text
begin

text \<open>
  \<^verbatim>\<open>modules/reboot_notifier.c\<close>: a kernel thread that does a long job, and a reboot notifier that waits for
  it through a \<^verbatim>\<open>struct completion\<close>.  Thread and notifier calls interleave with unloading and the release of
  the module's memory, so the module is a state machine: the operations are functions on the state and
  \<open>step\<close> says when each may happen.  The completion is a parameter; the locale \<open>completion\<close> states what is
  documented of it.
\<close>

section \<open>Completions\<close>

text \<open>
  The kernel's completions, over the values \<open>'c\<close> of a \<^verbatim>\<open>struct completion\<close>: one that was just initialised,
  \<^verbatim>\<open>completion_done\<close>, \<^verbatim>\<open>complete\<close>, and \<^verbatim>\<open>wait_for_completion\<close>, which is \<open>None\<close> as long as it blocks.
\<close>

record 'c completion_ops =
  c_init :: 'c
  c_done :: "'c \<Rightarrow> bool"
  c_complete :: "'c \<Rightarrow> 'c"
  c_wait :: "'c \<Rightarrow> 'c option"

text \<open>
  What \<^verbatim>\<open>scheduler/completion.rst\<close> documents: a completion counts the calls of \<^verbatim>\<open>complete\<close> that no waiter has
  consumed, in an \<^verbatim>\<open>unsigned int\<close> whose largest value is kept for \<^verbatim>\<open>complete_all\<close>; a waiter blocks while there are
  none and then consumes one; \<^verbatim>\<open>completion_done\<close> is false if a waiter would block.
\<close>

locale completion =
  fixes k :: "'c completion_ops" and pending :: "'c \<Rightarrow> nat"
  assumes pending_init: "pending (c_init k) = 0"
    and pending_complete: "Suc (pending c) < 2 ^ 32 - 1 \<Longrightarrow> pending (c_complete k c) = Suc (pending c)"
    and done_iff: "c_done k c \<longleftrightarrow> pending c \<noteq> 0"
    and wait_blocks: "c_wait k c = None \<longleftrightarrow> pending c = 0"
    and wait_takes: "c_wait k c = Some d \<Longrightarrow> pending c < 2 ^ 32 - 1 \<Longrightarrow> pending c = Suc (pending d)"
begin

lemma first_complete: "pending c = 0 \<Longrightarrow> pending (c_complete k c) = 1"
  using pending_complete [of c] by simp

lemma wait_last: "c_wait k c = Some d \<Longrightarrow> pending c \<le> 1 \<Longrightarrow> pending c = 1 \<and> pending d = 0"
  using wait_takes [of c d] by auto

end

text \<open>The counter itself.\<close>

definition counter :: "nat completion_ops" where
  "counter = \<lparr>c_init = 0, c_done = (\<lambda>n. n \<noteq> 0), c_complete = Suc, c_wait = (\<lambda>n. if n = 0 then None else Some (n - 1))\<rparr>"

interpretation counter: completion counter "\<lambda>n. n"
  by unfold_locales (auto simp: counter_def split: if_splits)

section \<open>State\<close>

text \<open>
  The thread is in \<^verbatim>\<open>msleep\<close>, or has called \<^verbatim>\<open>complete\<close>, or has left \<^verbatim>\<open>waste_time\<close>.  The module is not loaded, or
  loaded, or its exit function has returned and its memory may be released.  \<open>r_crashed\<close>: code of the module was
  executed after that.
\<close>

datatype job = Not_started | Failed_to_start | Sleeping | Completed | Exited

datatype caller = Idle | Waiting | Returned bool

datatype life = Not_loaded | Loaded | Leaving

record 'c rstate =
  r_done :: 'c
  r_job :: job
  r_registered :: bool
  r_life :: life
  r_freed :: bool
  r_crashed :: bool
  r_callers :: "nat \<Rightarrow> caller"
  r_log :: "log_line list"

text \<open>\<open>Returned w\<close> is a call of \<^verbatim>\<open>my_notifier\<close> that returned \<^verbatim>\<open>NOTIFY_OK\<close>; \<open>w\<close> says whether it had to wait.\<close>

section \<open>Operations\<close>

definition rlog :: "string \<Rightarrow> 'c rstate \<Rightarrow> 'c rstate" where
  "rlog s st = st\<lparr>r_log := r_log st @ [pr KERN_INFO ''reboot_notifier'' s]\<rparr>"

definition my_notifier :: "'c completion_ops \<Rightarrow> nat \<Rightarrow> 'c rstate \<Rightarrow> 'c rstate" where
  "my_notifier k c st =
     (if \<not> c_done k (r_done st)
      then (rlog (''Wait! I have some critical job to finish...'' @ nl) st)\<lparr>r_callers := (r_callers st)(c := Waiting)\<rparr>
      else st\<lparr>r_callers := (r_callers st)(c := Returned False)\<rparr>)"

text \<open>The rest of a call, once \<^verbatim>\<open>wait_for_completion\<close> can return.\<close>

definition my_notifier_woken :: "'c completion_ops \<Rightarrow> nat \<Rightarrow> 'c rstate \<Rightarrow> 'c rstate option" where
  "my_notifier_woken k c st =
     (case c_wait k (r_done st) of
        None \<Rightarrow> None
      | Some d \<Rightarrow> Some ((rlog (''Done!'' @ nl) st)\<lparr>r_done := d, r_callers := (r_callers st)(c := Returned True)\<rparr>))"

text \<open>The thread after \<^verbatim>\<open>msleep\<close>, up to and including \<^verbatim>\<open>complete\<close>; then \<^verbatim>\<open>return 0\<close>.\<close>

definition waste_time :: "'c completion_ops \<Rightarrow> 'c rstate \<Rightarrow> 'c rstate" where
  "waste_time k st = st\<lparr>r_done := c_complete k (r_done st), r_job := Completed\<rparr>"

definition waste_time_return :: "'c rstate \<Rightarrow> 'c rstate" where
  "waste_time_return st = st\<lparr>r_job := Exited\<rparr>"

text \<open>\<open>started\<close> says whether \<^verbatim>\<open>kthread_run\<close> succeeded; its result is not looked at.\<close>

definition modinit :: "bool \<Rightarrow> 'c rstate \<Rightarrow> 'c rstate" where
  "modinit started st = st\<lparr>r_registered := True, r_job := (if started then Sleeping else Failed_to_start)\<rparr>"

definition modexit :: "'c rstate \<Rightarrow> 'c rstate" where
  "modexit st = st\<lparr>r_registered := False\<rparr>"

definition unloaded :: "'c completion_ops \<Rightarrow> 'c rstate" where
  "unloaded k = \<lparr>r_done = c_init k, r_job = Not_started, r_registered = False, r_life = Not_loaded, r_freed = False,
     r_crashed = False, r_callers = (\<lambda>_. Idle), r_log = []\<rparr>"

section \<open>Steps\<close>

text \<open>Code of the module runs as long as its memory is there.\<close>

definition in_text :: "'c rstate \<Rightarrow> 'c rstate \<Rightarrow> 'c rstate" where
  "in_text st st' = (if r_freed st then st\<lparr>r_crashed := True\<rparr> else st')"

definition releasable :: "'c rstate \<Rightarrow> bool" where
  "releasable st \<longleftrightarrow> r_life st = Leaving \<and> \<not> r_freed st"

definition release :: "'c rstate \<Rightarrow> 'c rstate" where
  "release st = st\<lparr>r_freed := True\<rparr>"

text \<open>
  The kernel calls the notifier as long as it is registered.  \<^verbatim>\<open>unregister_reboot_notifier\<close> takes the lock that is
  held around the calls of the chain, so \<^verbatim>\<open>modexit\<close> returns only when none is waiting.  Nothing in \<^verbatim>\<open>modexit\<close> waits
  for the thread.
\<close>

inductive step :: "'c completion_ops \<Rightarrow> 'c rstate \<Rightarrow> 'c rstate \<Rightarrow> bool" for k where
  load: "r_life st = Not_loaded \<Longrightarrow> step k st ((modinit started st)\<lparr>r_life := Loaded\<rparr>)"
| work: "r_job st = Sleeping \<Longrightarrow> step k st (in_text st (waste_time k st))"
| finish: "r_job st = Completed \<Longrightarrow> step k st (in_text st (waste_time_return st))"
| call: "r_registered st \<Longrightarrow> r_callers st c = Idle \<Longrightarrow> step k st (in_text st (my_notifier k c st))"
| wake: "r_callers st c = Waiting \<Longrightarrow> my_notifier_woken k c st = Some st' \<Longrightarrow> step k st (in_text st st')"
| unload: "r_life st = Loaded \<Longrightarrow> \<forall>c. r_callers st c \<noteq> Waiting \<Longrightarrow> step k st ((modexit st)\<lparr>r_life := Leaving\<rparr>)"
| free: "releasable st \<Longrightarrow> step k st (release st)"

inductive reaches :: "'c completion_ops \<Rightarrow> 'c rstate \<Rightarrow> 'c rstate \<Rightarrow> bool" for k where
  reaches_refl: "reaches k st st"
| reaches_step: "reaches k st st' \<Longrightarrow> step k st' st'' \<Longrightarrow> reaches k st st''"

inductive_cases stepE: "step k st st'"

lemma reaches_iff: "(step k)\<^sup>*\<^sup>* st st' \<longleftrightarrow> reaches k st st'"
proof
  show "(step k)\<^sup>*\<^sup>* st st' \<Longrightarrow> reaches k st st'"
    by (induction rule: rtranclp_induct) (auto intro: reaches.intros)
  show "reaches k st st' \<Longrightarrow> (step k)\<^sup>*\<^sup>* st st'"
    by (induction rule: reaches.induct) auto
qed

lemmas op_defs = rlog_def my_notifier_def my_notifier_woken_def waste_time_def waste_time_return_def modinit_def
  modexit_def release_def in_text_def

section \<open>Invariant\<close>

text \<open>The thread is in \<^verbatim>\<open>waste_time\<close>; whether it has called \<^verbatim>\<open>complete\<close>.\<close>

fun in_waste_time :: "job \<Rightarrow> bool" where
  "in_waste_time j \<longleftrightarrow> j \<in> {Sleeping, Completed}"

fun posted :: "job \<Rightarrow> bool" where
  "posted j \<longleftrightarrow> j \<in> {Completed, Exited}"

text \<open>
  Before \<^verbatim>\<open>complete\<close> nothing is pending and no call has returned; afterwards the one completion is still pending or
  exactly one waiting call has taken it.
\<close>

definition inv :: "('c \<Rightarrow> nat) \<Rightarrow> 'c rstate \<Rightarrow> bool" where
  "inv pending st \<longleftrightarrow>
     (r_life st = Not_loaded \<longrightarrow> r_job st = Not_started) \<and>
     (\<not> posted (r_job st) \<longrightarrow> pending (r_done st) = 0 \<and> (\<forall>c w. r_callers st c \<noteq> Returned w)) \<and>
     (posted (r_job st) \<longrightarrow>
        (pending (r_done st) = 1 \<and> (\<forall>c. r_callers st c \<noteq> Returned True)) \<or>
        (pending (r_done st) = 0 \<and> (\<exists>c. \<forall>d. r_callers st d = Returned True \<longleftrightarrow> d = c)))"

context completion
begin

lemma inv_unloaded: "inv pending (unloaded k)"
  by (simp add: inv_def unloaded_def pending_init)

lemma inv_step:
  assumes "step k st st'" and "inv pending st"
  shows "inv pending st'"
  using assms
proof cases
  case (work)
  then show ?thesis
    using assms(2) first_complete by (auto simp: inv_def op_defs)
next
  case (call c)
  have waited: "(r_callers st') d = Returned True \<longleftrightarrow> r_callers st d = Returned True" for d
    using call by (simp add: op_defs)
  have "r_done st' = r_done st" "r_job st' = r_job st" "r_life st' = r_life st"
    using call by (simp_all add: op_defs)
  moreover have "r_callers st' d \<noteq> Returned w" if "pending (r_done st) = 0" "r_callers st d \<noteq> Returned w" for d w
    using call that by (simp add: op_defs done_iff)
  ultimately show ?thesis
    using assms(2) unfolding inv_def waited by auto
next
  case (wake c st1)
  then obtain d where d: "c_wait k (r_done st) = Some d" "r_done st1 = d" "r_job st1 = r_job st" "r_life st1 = r_life st"
    "r_callers st1 = (r_callers st)(c := Returned True)"
    by (auto simp: op_defs split: option.splits)
  have "pending (r_done st) \<le> 1"
    using assms(2) by (auto simp: inv_def)
  from wait_last [OF d(1) this] have "pending (r_done st) = 1" "pending d = 0" by simp_all
  moreover from this have "posted (r_job st)" "\<forall>e. r_callers st e \<noteq> Returned True"
    using assms(2) by (auto simp: inv_def)
  ultimately have "inv pending st1"
    using d assms(2) unfolding inv_def by (auto intro!: exI [of _ c])
  with wake(1) assms(2) show ?thesis by (simp add: in_text_def inv_def)
qed (auto simp: inv_def op_defs)

lemma inv_reaches: "reaches k st st' \<Longrightarrow> inv pending st \<Longrightarrow> inv pending st'"
  by (induction rule: reaches.induct) (auto intro: inv_step)

text \<open>Once a waiting call has taken the completion, a call that is still waiting stays so.\<close>

lemma taken_step:
  assumes "step k st st'" and "inv pending st" and "r_callers st c = Returned True" and "r_callers st d = Waiting"
  shows "r_callers st' c = Returned True \<and> r_callers st' d = Waiting"
  using assms
proof cases
  case (wake e)
  moreover have "c_wait k (r_done st) = None"
    using assms(2,3) wait_blocks by (auto simp: inv_def)
  ultimately show ?thesis by (simp add: my_notifier_woken_def)
qed (auto simp: op_defs)

lemma taken_reaches:
  assumes "reaches k st st'" and "inv pending st" and "r_callers st c = Returned True" and "r_callers st d = Waiting"
  shows "inv pending st' \<and> r_callers st' c = Returned True \<and> r_callers st' d = Waiting \<and>
    (r_registered st \<longrightarrow> r_registered st')"
  using assms
proof (induction rule: reaches.induct)
  case (reaches_step st st' st'')
  then have IH: "inv pending st'" "r_callers st' c = Returned True" "r_callers st' d = Waiting"
    "r_registered st \<longrightarrow> r_registered st'"
    by simp_all
  moreover have "r_registered st' \<longrightarrow> r_registered st''"
    using reaches_step.hyps(2) IH(3) by (auto elim!: stepE simp: op_defs split: option.splits)
  ultimately show ?case
    using inv_step [OF reaches_step.hyps(2)] taken_step [OF reaches_step.hyps(2), of c d] by simp
qed simp

end

section \<open>The module's code\<close>

text \<open>
  The memory is released only after \<^verbatim>\<open>modexit\<close>, when the notifier is not registered any more and no call of it is
  waiting; from then on only the thread can be inside.
\<close>

definition text_ok :: "'c rstate \<Rightarrow> bool" where
  "text_ok st \<longleftrightarrow>
     (r_life st = Not_loaded \<longrightarrow> \<not> r_freed st) \<and> (r_freed st \<longrightarrow> r_life st = Leaving) \<and> (r_crashed st \<longrightarrow> r_freed st) \<and>
     (r_life st \<noteq> Not_loaded \<longrightarrow> r_job st \<noteq> Not_started) \<and>
     (r_life st = Leaving \<longrightarrow> \<not> r_registered st \<and> (\<forall>c. r_callers st c \<noteq> Waiting))"

lemma text_ok_unloaded: "text_ok (unloaded k)"
  by (simp add: text_ok_def unloaded_def)

lemma text_ok_step: "step k st st' \<Longrightarrow> text_ok st \<Longrightarrow> text_ok st'"
  by (auto elim!: stepE simp: text_ok_def op_defs releasable_def split: if_splits option.splits)

lemma text_ok_reaches: "reaches k st st' \<Longrightarrow> text_ok st \<Longrightarrow> text_ok st'"
  by (induction rule: reaches.induct) (auto intro: text_ok_step)

interpretation notifier_text: module_text "step k" text_ok r_freed "\<lambda>st. in_waste_time (r_job st)" r_crashed
  for k :: "'c completion_ops"
proof
  show "r_freed st' \<and> \<not> in_waste_time (r_job st')"
    if "step k st st'" "text_ok st" "r_freed st" "\<not> in_waste_time (r_job st)" for st st' :: "'c rstate"
    using that by (auto elim!: stepE simp: text_ok_def op_defs split: if_splits)
  show "r_crashed st \<or> r_freed st \<and> in_waste_time (r_job st)"
    if "step k st st'" "text_ok st" "r_crashed st'" for st st' :: "'c rstate"
    using that by (auto elim!: stepE simp: text_ok_def op_defs split: if_splits option.splits)
  show "\<exists>st'. (step k)\<^sup>*\<^sup>* st st' \<and> r_crashed st'" if "r_freed st" "in_waste_time (r_job st)" for st :: "'c rstate"
    using that step.work [of st k] step.finish [of st k]
    by (intro exI [of _ "st\<lparr>r_crashed := True\<rparr>"] conjI r_into_rtranclp) (auto simp: in_text_def)
qed (rule text_ok_step)

section \<open>Properties\<close>

text \<open>
  C21.  A reboot never overtakes the job: in every reachable state, whatever the interleaving of the
  thread, the notifier calls and unloading, a call of the notifier has returned only if the thread has called
  \<^verbatim>\<open>complete\<close>; in particular none ever returns if the thread could not be started.
\<close>

theorem notifier_waits_for_job:
  assumes "completion k pending" and "reaches k (unloaded k) st" and "r_callers st c = Returned w"
  shows "posted (r_job st)"
  using completion.inv_reaches [OF assms(1,2) completion.inv_unloaded [OF assms(1)]] assms(3) by (auto simp: inv_def)

definition demo_loaded :: "nat rstate" where
  "demo_loaded = (modinit True (unloaded counter))\<lparr>r_life := Loaded\<rparr>"

definition demo_run :: "nat rstate" where
  "demo_run = the (my_notifier_woken counter 1
     (waste_time counter (my_notifier counter 2 (my_notifier counter 1 demo_loaded))))"

lemmas demo_defs = demo_loaded_def demo_run_def unloaded_def counter_def op_defs

lemma step_in_text: "step k st (in_text st st') \<Longrightarrow> \<not> r_freed st \<Longrightarrow> step k st st'"
  by (simp add: in_text_def)

lemma reaches_demo_loaded: "reaches counter (unloaded counter) demo_loaded"
proof -
  have "step counter (unloaded counter) demo_loaded"
    unfolding demo_loaded_def by (rule step.load) (simp add: unloaded_def)
  then show ?thesis by (meson reaches_refl reaches_step)
qed

lemma reaches_demo_run: "reaches counter (unloaded counter) demo_run"
  "r_callers demo_run 1 = Returned True" "r_callers demo_run 2 = Waiting"
proof -
  let ?s2 = "my_notifier counter 1 demo_loaded"
  let ?s3 = "my_notifier counter 2 ?s2"
  let ?s4 = "waste_time counter ?s3"
  have "step counter demo_loaded ?s2"
    by (rule step_in_text [OF step.call]) (simp_all add: demo_defs)
  moreover have "step counter ?s2 ?s3"
    by (rule step_in_text [OF step.call]) (simp_all add: demo_defs)
  moreover have "step counter ?s3 ?s4"
    by (rule step_in_text [OF step.work]) (simp_all add: demo_defs)
  moreover have "step counter ?s4 demo_run"
    by (rule step_in_text [OF step.wake [of _ 1]]) (simp_all add: demo_defs)
  ultimately show "reaches counter (unloaded counter) demo_run"
    using reaches_demo_loaded by (meson reaches_step)
  show "r_callers demo_run 1 = Returned True" "r_callers demo_run 2 = Waiting"
    by (simp_all add: demo_defs)
qed

theorem notifier_waits_for_job_witness: "posted (r_job demo_run)"
  by (rule notifier_waits_for_job [OF counter.completion_axioms reaches_demo_run(1,2)])

text \<open>
  C30.  Only one call can wait: \<^verbatim>\<open>complete\<close> wakes a single waiter, so when two calls of the notifier wait
  and one of them has returned, the other one waits forever, although the job is complete, and the module
  can never be unloaded.
\<close>

theorem second_waiter_hangs:
  assumes "completion k pending" and "reaches k (unloaded k) st" and "r_callers st c = Returned True"
    and "r_callers st d = Waiting" and "reaches k st st'"
  shows "posted (r_job st) \<and> r_callers st' d = Waiting \<and> (r_registered st \<longrightarrow> r_registered st')"
proof -
  have inv: "inv pending st"
    using completion.inv_reaches [OF assms(1,2) completion.inv_unloaded [OF assms(1)]] .
  then have "posted (r_job st)" using assms(3) by (auto simp: inv_def)
  then show ?thesis
    using completion.taken_reaches [OF assms(1,5) inv assms(3,4)] by simp
qed

theorem second_waiter_hangs_witness:
  "posted (r_job demo_run) \<and> r_callers (waste_time_return demo_run) 2 = Waiting \<and>
   r_registered (waste_time_return demo_run)"
proof -
  have "step counter demo_run (waste_time_return demo_run)"
    by (rule step_in_text [OF step.finish]) (simp_all add: demo_defs)
  then have "reaches counter demo_run (waste_time_return demo_run)"
    by (meson reaches_refl reaches_step)
  moreover have "r_registered demo_run"
    by (simp add: demo_defs)
  ultimately show ?thesis
    using second_waiter_hangs [OF counter.completion_axioms reaches_demo_run] by blast
qed

text \<open>
  C22.  Unloading keeps the notifier out but does not wait for the thread.  In every reachable state in which the
  exit function has returned and the memory of the module is about to be released, the release is safe exactly if
  the thread has left \<^verbatim>\<open>waste_time\<close> (or was never started): then nothing that can happen later, a reboot among it,
  executes code of the module.  Within the five seconds of \<^verbatim>\<open>msleep\<close> it is not safe, and the thread goes on in
  memory that is no longer the module's.
\<close>

theorem unload_safe_iff_thread_gone:
  assumes "reaches k (unloaded k) st" and "releasable st"
  shows "(\<forall>st'. reaches k (release st) st' \<longrightarrow> \<not> r_crashed st') \<longleftrightarrow> r_job st \<in> {Exited, Failed_to_start}"
proof -
  have ok: "text_ok st"
    using text_ok_reaches [OF assms(1) text_ok_unloaded] .
  then have crashed: "\<not> r_crashed (release st)" and job: "r_job st \<noteq> Not_started"
    using assms(2) by (auto simp: text_ok_def releasable_def release_def)
  have "text_ok (release st)" "r_freed (release st)"
    using text_ok_step [OF step.free [OF assms(2)] ok] by (simp_all add: release_def)
  from notifier_text.release_safe_iff [OF this crashed, of k] job show ?thesis
    unfolding reaches_iff by (cases "r_job st") (auto simp: release_def)
qed

theorem unload_safe_iff_thread_gone_witness:
  "\<exists>st'. reaches counter (release ((modexit demo_loaded)\<lparr>r_life := Leaving\<rparr>)) st' \<and> r_crashed st'"
proof -
  let ?st = "(modexit demo_loaded)\<lparr>r_life := Leaving\<rparr>"
  have "step counter demo_loaded ?st"
    by (rule step.unload) (simp_all add: demo_defs)
  then have "reaches counter (unloaded counter) ?st"
    using reaches_demo_loaded by (meson reaches_step)
  moreover have "releasable ?st" "r_job ?st = Sleeping"
    by (simp_all add: releasable_def demo_defs)
  ultimately show ?thesis
    using unload_safe_iff_thread_gone [of counter ?st] by auto
qed

end
