(* ===== verification/Read_Implies_Exec.thy ===== *)
theory Read_Implies_Exec
  imports Kernel
begin

text \<open>
  \<^verbatim>\<open>modules/read_implies_exec.c\<close>: two kprobes that restore the old read-implies-exec behaviour.  The
  handlers are functions on the state they change; \<^verbatim>\<open>register_kprobe\<close> is a parameter that may fail for
  each probe.
\<close>

section \<open>Handlers\<close>

record exec_state =
  e_personality :: u32
  e_dx :: u64

definition kp_setup_new_exec_pre :: "u32 \<Rightarrow> exec_state \<Rightarrow> exec_state \<times> int" where
  "kp_setup_new_exec_pre READ_IMPLIES_EXEC st =
     (st\<lparr>e_personality := e_personality st OR READ_IMPLIES_EXEC\<rparr>, 0)"

definition kp_setup_arg_pages_pre :: "u64 \<Rightarrow> exec_state \<Rightarrow> exec_state \<times> int" where
  "kp_setup_arg_pages_pre EXSTACK_ENABLE_X st = (st\<lparr>e_dx := EXSTACK_ENABLE_X\<rparr>, 0)"

section \<open>Registration\<close>

text \<open>The flags of the kernel's headers, and a \<^verbatim>\<open>struct kprobe\<close> with the fields that the module fills in.\<close>

record exec_flags =
  x_READ_IMPLIES_EXEC :: u32
  x_EXSTACK_ENABLE_X :: u64

record kprobe =
  pre_handler :: "exec_flags \<Rightarrow> exec_state \<Rightarrow> exec_state \<times> int"
  symbol_name :: string

definition kps :: "kprobe list" where
  "kps =
     [\<lparr>pre_handler = (\<lambda>x. kp_setup_arg_pages_pre (x_EXSTACK_ENABLE_X x)), symbol_name = ''setup_arg_pages''\<rparr>,
      \<lparr>pre_handler = (\<lambda>x. kp_setup_new_exec_pre (x_READ_IMPLIES_EXEC x)), symbol_name = ''setup_new_exec''\<rparr>]"

text \<open>The loop of \<^verbatim>\<open>modinit\<close>; \<open>register_kprobe s\<close> is the result of registering the probe on \<open>s\<close>.\<close>

fun register_all :: "(string \<Rightarrow> int) \<Rightarrow> kprobe list \<Rightarrow> kevent list \<times> int" where
  "register_all register_kprobe [] =
     ([Log (pr KERN_WARNING ''read_implies_exec''
        (''Your system now runs with old read-implies-exec semantics!'' @ nl))], 0)"
| "register_all register_kprobe (kp # ks) =
     (let s = symbol_name kp; r = register_kprobe s
      in if r < 0 then
           ([Log (pr KERN_ERR ''read_implies_exec''
              (''Failed to register kprobe for '' @ s @ '': '' @ fmt_d r @ nl))], - 1)
         else
           (let (es, res) = register_all register_kprobe ks
            in ([Register_kprobe s, Log (pr KERN_INFO ''read_implies_exec'' (''Registered kprobe for '' @ s @ nl))] @ es,
                res)))"

definition modinit :: "(string \<Rightarrow> int) \<Rightarrow> kevent list \<times> int" where
  "modinit register_kprobe = register_all register_kprobe kps"

definition modexit :: "kevent list" where
  "modexit = concat (map (\<lambda>kp. [Unregister_kprobe (symbol_name kp),
     Log (pr KERN_INFO ''read_implies_exec'' (''Unregistered kprobe for '' @ symbol_name kp @ nl))]) kps)"

section \<open>Execution of a program\<close>

text \<open>
  Entering the function \<open>s\<close> after the events \<open>es\<close>: the kernel runs the handlers that are registered for it
  before the function, once for each registration.  \<open>present\<close> says whether the memory of the module is still
  there; running a handler that is not is the value \<open>None\<close>.
\<close>

definition enter_function :: "exec_flags \<Rightarrow> bool \<Rightarrow> kevent list \<Rightarrow> string \<Rightarrow> exec_state \<Rightarrow> exec_state option" where
  "enter_function x present es s st =
     (if \<not> present \<and> net kdelta es (Kprobe s) > 0 then None
      else Some (fold (\<lambda>kp. (\<lambda>st. fst (pre_handler kp x st)) ^^ nat (net kdelta es (Kprobe s)))
                   (filter (\<lambda>kp. symbol_name kp = s) kps) st))"

text \<open>The functions that the execution of a program enters one after the other.\<close>

primrec enter_functions :: "exec_flags \<Rightarrow> bool \<Rightarrow> kevent list \<Rightarrow> string list \<Rightarrow> exec_state \<Rightarrow> exec_state option" where
  "enter_functions x present es [] st = Some st"
| "enter_functions x present es (s # ss) st =
     Option.bind (enter_function x present es s st) (enter_functions x present es ss)"

section \<open>Properties\<close>

text \<open>The probes that are registered before the first failure.\<close>

definition registered :: "(string \<Rightarrow> int) \<Rightarrow> string list" where
  "registered register_kprobe = takeWhile (\<lambda>s. 0 \<le> register_kprobe s) (map symbol_name kps)"

lemma register_all_net:
  "distinct (map symbol_name ks) \<Longrightarrow> net kdelta (fst (register_all reg ks)) r =
     of_bool (r \<in> Kprobe ` set (takeWhile (\<lambda>s. 0 \<le> reg s) (map symbol_name ks)))"
proof (induction ks)
  case (Cons kp ks)
  then have "symbol_name kp \<notin> set (takeWhile (\<lambda>s. 0 \<le> reg s) (map symbol_name ks))"
    by (auto dest: set_takeWhileD simp del: set_map simp flip: set_map)
  with Cons show ?case by (auto simp: Let_def split_beta)
qed simp

lemma register_all_result: "snd (register_all reg ks) = (if \<forall>kp \<in> set ks. 0 \<le> reg (symbol_name kp) then 0 else - 1)"
  by (induction ks) (auto simp: Let_def split_beta)

lemma net_kprobe_modinit: "net kdelta (fst (modinit reg)) r = of_bool (r \<in> Kprobe ` set (registered reg))"
  unfolding modinit_def registered_def by (rule register_all_net) (simp add: kps_def)

lemma modinit_result: "snd (modinit reg) = (if \<forall>kp \<in> set kps. 0 \<le> reg (symbol_name kp) then 0 else - 1)"
  by (simp only: modinit_def register_all_result)

lemma net_kprobe_modexit: "net kdelta modexit r = - of_bool (r \<in> Kprobe ` symbol_name ` set kps)"
  by (auto simp: modexit_def kps_def)

text \<open>What a load and the unloading after it leave behind.\<close>

definition probes_left :: "(string \<Rightarrow> int) \<Rightarrow> kresource \<Rightarrow> int" where
  "probes_left reg r = (if \<forall>kp \<in> set kps. 0 \<le> reg (symbol_name kp) then 0 else of_bool (r \<in> Kprobe ` set (registered reg)))"

interpretation kprobe_module: leaking_module modinit "\<lambda>_. modexit" kdelta probes_left
proof
  show "net kdelta (load_cycle modinit (\<lambda>_. modexit) reg) r = probes_left reg r" for reg r
  proof (cases "\<forall>kp \<in> set kps. 0 \<le> reg (symbol_name kp)")
    case True
    then have "registered reg = map symbol_name kps" by (simp add: registered_def takeWhile_eq_all_conv)
    with True show ?thesis by (simp add: load_cycle_def modinit_result net_kprobe_modinit net_kprobe_modexit probes_left_def)
  next
    case False
    then show ?thesis by (simp only: load_cycle_def modinit_result probes_left_def if_False) (simp add: net_kprobe_modinit)
  qed
qed

text \<open>
  Loading succeeds exactly when both registrations do, and unloading then leaves no probe behind.
  When it fails, it returns \<^verbatim>\<open>-1\<close> and the probes registered before the failing one stay registered: after
  a failure on the second, the kernel keeps calling a handler of a module that is gone, and once more for
  each further attempt.
\<close>

theorem kprobes_left_behind:
  "(if \<forall>kp \<in> set kps. 0 \<le> reg (symbol_name kp)
    then snd (modinit reg) = 0 \<and> balanced kdelta (load_cycles modinit (\<lambda>_. modexit) (replicate n reg))
    else snd (modinit reg) = - 1 \<and>
      net kdelta (load_cycles modinit (\<lambda>_. modexit) (replicate n reg)) (Kprobe ''setup_arg_pages'') =
        (if 0 \<le> reg ''setup_arg_pages'' then int n else 0) \<and>
      net kdelta (load_cycles modinit (\<lambda>_. modexit) (replicate n reg)) (Kprobe ''setup_new_exec'') = 0)"
  unfolding balanced_def kprobe_module.net_repeated modinit_result
  by (auto simp: probes_left_def registered_def kps_def)

theorem kprobes_left_behind_witness:
  "net kdelta (load_cycles modinit (\<lambda>_. modexit) (replicate 2 (\<lambda>s. if s = ''setup_new_exec'' then - 2 else 0)))
     (Kprobe ''setup_arg_pages'') = 2"
  using kprobes_left_behind [of "\<lambda>s. if s = ''setup_new_exec'' then - 2 else 0" 2]
  by (simp add: kps_def)

definition probed :: "kevent list \<Rightarrow> string \<Rightarrow> bool" where
  "probed es s \<longleftrightarrow> net kdelta es (Kprobe s) = 1"

text \<open>With the module in memory the handlers do their work; without it a probe that is left is fatal.\<close>

lemma enter_function_eq:
  assumes "\<And>s. net kdelta es (Kprobe s) = of_bool (probed es s)"
  shows "enter_function x True es s st = Some (st
    \<lparr>e_personality := (if s = ''setup_new_exec'' \<and> probed es s then e_personality st OR x_READ_IMPLIES_EXEC x
                       else e_personality st),
     e_dx := (if s = ''setup_arg_pages'' \<and> probed es s then x_EXSTACK_ENABLE_X x else e_dx st)\<rparr>)"
    and "enter_function x False es s st = (if probed es s then None else Some st)"
proof -
  have idle: "fold (\<lambda>kp. id) ks st = st" for ks :: "kprobe list"
    by (induction ks) simp_all
  show "enter_function x True es s st = Some (st
    \<lparr>e_personality := (if s = ''setup_new_exec'' \<and> probed es s then e_personality st OR x_READ_IMPLIES_EXEC x
                       else e_personality st),
     e_dx := (if s = ''setup_arg_pages'' \<and> probed es s then x_EXSTACK_ENABLE_X x else e_dx st)\<rparr>)"
    by (cases "s = ''setup_new_exec''"; cases "s = ''setup_arg_pages''")
      (auto simp: enter_function_def kps_def assms kp_setup_new_exec_pre_def kp_setup_arg_pages_pre_def)
  show "enter_function x False es s st = (if probed es s then None else Some st)"
    using idle by (simp add: enter_function_def assms)
qed

lemma enter_functions_eq:
  assumes "\<And>s. net kdelta es (Kprobe s) = of_bool (probed es s)"
  shows "enter_functions x True es ss st = Some (st
    \<lparr>e_personality := (if ''setup_new_exec'' \<in> set ss \<and> probed es ''setup_new_exec''
                       then e_personality st OR x_READ_IMPLIES_EXEC x else e_personality st),
     e_dx := (if ''setup_arg_pages'' \<in> set ss \<and> probed es ''setup_arg_pages'' then x_EXSTACK_ENABLE_X x else e_dx st)\<rparr>)"
    and "enter_functions x False es ss st = (if list_ex (probed es) ss then None else Some st)"
  by (induction ss arbitrary: st) (auto simp: enter_function_eq [OF assms] or.assoc)

lemma net_single: "net kdelta (fst (modinit reg)) (Kprobe s) = of_bool (probed (fst (modinit reg)) s)"
  by (simp add: probed_def net_kprobe_modinit)

lemma probed_modinit: "probed (fst (modinit reg)) s \<longleftrightarrow> s \<in> set (registered reg)"
  by (auto simp: probed_def net_kprobe_modinit)

text \<open>
  C31.  While the module is loaded, executing a program, whatever functions that enters and in whatever order,
  sets the flag of the personality at \<^verbatim>\<open>setup_new_exec\<close> and forces the executable stack at
  \<^verbatim>\<open>setup_arg_pages\<close>, and changes nothing else; after unloading it changes nothing.  After a load that failed
  on the second registration the first program that is executed runs a handler whose memory is gone.
\<close>

theorem exec_with_probes:
  "if \<forall>kp \<in> set kps. 0 \<le> reg (symbol_name kp)
   then snd (modinit reg) = 0 \<and>
     enter_functions x True (fst (modinit reg)) ss st = Some (st
       \<lparr>e_personality := (if ''setup_new_exec'' \<in> set ss then e_personality st OR x_READ_IMPLIES_EXEC x
                          else e_personality st),
        e_dx := (if ''setup_arg_pages'' \<in> set ss then x_EXSTACK_ENABLE_X x else e_dx st)\<rparr>) \<and>
     enter_functions x False (fst (modinit reg) @ modexit) ss st = Some st
   else snd (modinit reg) = - 1 \<and>
     enter_functions x False (fst (modinit reg)) ss st =
       (if ''setup_arg_pages'' \<in> set ss \<and> 0 \<le> reg ''setup_arg_pages'' then None else Some st)"
proof -
  let ?all = "\<forall>kp \<in> set kps. 0 \<le> reg (symbol_name kp)"
  have "net kdelta (fst (modinit reg) @ modexit) (Kprobe s) = of_bool (probed (fst (modinit reg) @ modexit) s) \<and>
      \<not> probed (fst (modinit reg) @ modexit) s" if ?all for s
    using that by (auto simp: probed_def net_kprobe_modinit net_kprobe_modexit registered_def kps_def)
  then have gone: "enter_functions x False (fst (modinit reg) @ modexit) ss st = Some st" if ?all
    using that by (subst enter_functions_eq(2)) (auto simp: list_ex_iff)
  have left: "list_ex (\<lambda>s. s \<in> set (registered reg)) ss \<longleftrightarrow> ''setup_arg_pages'' \<in> set ss \<and> 0 \<le> reg ''setup_arg_pages''"
    if "\<not> ?all"
    using that by (auto simp: list_ex_iff registered_def kps_def)
  show ?thesis
    unfolding enter_functions_eq [OF net_single] probed_modinit
    using gone left by (auto simp: modinit_result registered_def kps_def)
qed

theorem exec_with_probes_witness:
  "enter_functions \<lparr>x_READ_IMPLIES_EXEC = 0x400000, x_EXSTACK_ENABLE_X = 2\<rparr> True (fst (modinit (\<lambda>_. 0)))
     [''setup_new_exec'', ''setup_arg_pages''] \<lparr>e_personality = 0, e_dx = 0\<rparr> = Some \<lparr>e_personality = 0x400000, e_dx = 2\<rparr>"
  using exec_with_probes [of "\<lambda>_. 0" "\<lparr>x_READ_IMPLIES_EXEC = 0x400000, x_EXSTACK_ENABLE_X = 2\<rparr>"
      "[''setup_new_exec'', ''setup_arg_pages'']" "\<lparr>e_personality = 0, e_dx = 0\<rparr>"]
  by simp

end
