(* ===== verification/Test_Hashtable.thy ===== *)
theory Test_Hashtable
  imports Kernel
begin

text \<open>
  \<^verbatim>\<open>modules/test_hashtable.c\<close>: two elements in a kernel hash table with eight buckets.  The macros of
  \<^verbatim>\<open>linux/hashtable.h\<close>, and \<^verbatim>\<open>xxhash\<close> where the kernel has it, are parameters; what the header documents of
  the macros is the locale \<open>hashtable_api\<close>, and a table of bucket lists satisfies it.
\<close>

section \<open>Elements and table\<close>




section \<open>The module\<close>





definition glog :: "string \<Rightarrow> log_line" where
  "glog s = pr KERN_INFO ''test_hashtable'' s"






definition myhashtable_exit :: "log_line list" where
  "myhashtable_exit = [glog (''module unloaded'' @ nl)]"

section \<open>The interface of the tables\<close>













section \<open>Properties\<close>









end
