(* ===== verification/Inherit_Capability.thy ===== *)
theory Inherit_Capability
  imports Libc
begin

text \<open>
  \<^verbatim>\<open>userspace/inherit_capability.c\<close>: dropping privileges while keeping one capability, with libcap.  libcap
  and the system calls are parameters (\<open>cap_env\<close>), over the states of a process and the \<^verbatim>\<open>cap_t\<close> values of
  the library; what libcap documents of them is the hypothesis \<open>libcap_laws\<close>.
\<close>

section \<open>libcap and the system\<close>

datatype cap_flag = CAP_EFFECTIVE | CAP_PERMITTED | CAP_INHERITABLE

record ('c, 'p) cap_env =
  v_CAP_LAST_CAP :: nat
  v_cap_supported :: "nat \<Rightarrow> bool"
  v_cap_get_proc :: "'p \<Rightarrow> 'c option"
  v_cap_clear :: "'c \<Rightarrow> 'c option"
  v_cap_get_flag :: "'c \<Rightarrow> nat \<Rightarrow> cap_flag \<Rightarrow> bool option"
  v_cap_set_flag :: "'c \<Rightarrow> cap_flag \<Rightarrow> nat list \<Rightarrow> bool \<Rightarrow> 'c option"
  v_cap_set_proc :: "'c \<Rightarrow> 'p \<Rightarrow> 'p option"
  v_set_keepcaps :: "'p \<Rightarrow> 'p option"
  v_setresgid :: "nat \<Rightarrow> 'p \<Rightarrow> 'p option"
  v_setresuid :: "nat \<Rightarrow> 'p \<Rightarrow> 'p option"
  v_ids :: "'p \<Rightarrow> int \<times> int \<times> int \<times> int"
  v_secret_opens :: "'p \<Rightarrow> bool"
  v_strerror :: string

definition CAP_DAC_OVERRIDE :: nat where "CAP_DAC_OVERRIDE = 1"
definition CAP_SETGID :: nat where "CAP_SETGID = 6"
definition CAP_SETUID :: nat where "CAP_SETUID = 7"
definition CAP_SETPCAP :: nat where "CAP_SETPCAP = 8"

text \<open>A run stops early with the value that \<^verbatim>\<open>main\<close> returns.\<close>

type_synonym 'a crun = "(uevent, int, 'a) run"

definition perror :: "('c, 'p) cap_env \<Rightarrow> string \<Rightarrow> uevent" where
  "perror env msg = Stderr (msg @ '': '' @ v_strerror env @ nl)"

text \<open>\<^verbatim>\<open>if (call) { perror(msg); return 1; }\<close>\<close>

definition must :: "('c, 'p) cap_env \<Rightarrow> string \<Rightarrow> 'a option \<Rightarrow> 'a crun" where
  "must env msg r = (case r of Some a \<Rightarrow> ret a | None \<Rightarrow> ([perror env msg], Inl 1))"

section \<open>The effective set as a number\<close>

fun effective_loop :: "('c, 'p) cap_env \<Rightarrow> 'c \<Rightarrow> nat list \<Rightarrow> u64 \<Rightarrow> uevent list \<times> u64" where
  "effective_loop env caps [] val = ([], val)"
| "effective_loop env caps (i # is) val =
     (case v_cap_get_flag env caps i CAP_EFFECTIVE of
        None \<Rightarrow> ([perror env ''show_effective_caps: cap_get_flag() failed''], - 1)
      | Some v \<Rightarrow> effective_loop env caps is (val OR push_bit i (if v then 1 else 0)))"

definition get_effective_caps :: "('c, 'p) cap_env \<Rightarrow> 'p \<Rightarrow> uevent list \<times> u64" where
  "get_effective_caps env p =
     (case v_cap_get_proc env p of
        None \<Rightarrow> ([perror env ''show_effective_caps: cap_get_proc() failed''], - 1)
      | Some caps \<Rightarrow> effective_loop env caps [0..<Suc (v_CAP_LAST_CAP env)] 0)"

section \<open>main\<close>

definition cap_list :: "nat list" where
  "cap_list = [CAP_DAC_OVERRIDE, CAP_SETUID, CAP_SETGID, CAP_SETPCAP]"

definition show_caps :: "('c, 'p) cap_env \<Rightarrow> string \<Rightarrow> 'p \<Rightarrow> unit crun" where
  "show_caps env label p =
     (let (es, v) = get_effective_caps env p in emit (es @ [Stdout (label @ fmt_016lx v @ nl)]))"

fun ids_line :: "int \<times> int \<times> int \<times> int \<Rightarrow> uevent" where
  "ids_line (euid, egid, uid, gid) =
     Stdout (''euid='' @ fmt_d euid @ '', egid='' @ fmt_d egid @ '', uid='' @ fmt_d uid @ '', gid='' @ fmt_d gid @ nl)"

definition main :: "('c, 'p) cap_env \<Rightarrow> 'p \<Rightarrow> 'p crun" where
  "main env p0 =
     thenR (show_caps env ''Initial CapEff: '' p0)
     (if \<not> v_cap_supported env CAP_DAC_OVERRIDE
      then ([Stderr (''CAP_DAC_OVERRIDE not supported!'' @ nl)], Inl 1)
      else
     bindR (must env ''cap_get_proc() failed'' (v_cap_get_proc env p0)) (\<lambda>c0.
     bindR (must env ''cap_clear() failed'' (v_cap_clear env c0)) (\<lambda>c1.
     bindR (must env ''cap_set_flag() failed'' (v_cap_set_flag env c1 CAP_EFFECTIVE (take 4 cap_list) True)) (\<lambda>c2.
     bindR (must env ''cap_set_flag() failed'' (v_cap_set_flag env c2 CAP_INHERITABLE (take 1 cap_list) True)) (\<lambda>c3.
     bindR (must env ''cap_set_flag() failed'' (v_cap_set_flag env c3 CAP_PERMITTED (take 4 cap_list) True)) (\<lambda>c4.
     bindR (must env ''cap_set_proc() failed'' (v_cap_set_proc env c4 p0)) (\<lambda>p1.
     thenR (show_caps env ''After set, CapEff: '' p1)
     (bindR (must env ''prctl() failed'' (v_set_keepcaps env p1)) (\<lambda>p2.
     bindR (must env ''setresgid() failed'' (v_setresgid env 1000 p2)) (\<lambda>p3.
     bindR (must env ''setresuid() failed'' (v_setresuid env 1000 p3)) (\<lambda>p4.
     thenR (show_caps env ''After dropping privs, CapEff: '' p4)
     (bindR (must env ''cap_clear() failed'' (v_cap_clear env c4)) (\<lambda>d1.
     bindR (must env ''cap_set_flag() failed'' (v_cap_set_flag env d1 CAP_EFFECTIVE (take 1 cap_list) True)) (\<lambda>d2.
     bindR (must env ''cap_set_flag() failed'' (v_cap_set_flag env d2 CAP_PERMITTED (take 1 cap_list) True)) (\<lambda>d3.
     bindR (must env ''cap_set_flag() failed'' (v_cap_set_flag env d3 CAP_EFFECTIVE (take 3 (drop 1 cap_list)) False)) (\<lambda>d4.
     bindR (must env ''cap_set_flag() failed'' (v_cap_set_flag env d4 CAP_PERMITTED (take 3 (drop 1 cap_list)) False)) (\<lambda>d5.
     bindR (must env ''cap_set_proc() failed'' (v_cap_set_proc env d5 p4)) (\<lambda>p5.
     thenR (emit [Stdout (''-------------------------'' @ nl), ids_line (v_ids env p5)])
     (thenR (show_caps env ''After re-setting only CAP_DAC_OVERRIDE, CapEff: '' p5)
     (thenR (emit [Stdout (''Trying to open secret file...'' @ nl)])
     (if v_secret_opens env p5 then thenR (emit [Stdout (''SUCCESS!'' @ nl)]) (ret p5)
      else ([perror env ''fopen() failed''], Inl 1))))))))))))))))))))))"

section \<open>What libcap documents\<close>

text \<open>
  \<^verbatim>\<open>cap_clear\<close> lowers every flag, \<^verbatim>\<open>cap_set_flag\<close> changes the flags it is given, and \<^verbatim>\<open>cap_get_proc\<close> after
  \<^verbatim>\<open>cap_set_proc\<close> sees the flags that were set.
\<close>

definition libcap_laws :: "('c, 'p) cap_env \<Rightarrow> bool" where
  "libcap_laws env \<longleftrightarrow>
     v_CAP_LAST_CAP env < 64 \<and>
     (\<forall>c c' i f. v_cap_clear env c = Some c' \<longrightarrow> i \<le> v_CAP_LAST_CAP env \<longrightarrow> v_cap_get_flag env c' i f = Some False) \<and>
     (\<forall>c c' f is v i g. v_cap_set_flag env c f is v = Some c' \<longrightarrow>
        v_cap_get_flag env c' i g = (if g = f \<and> i \<in> set is then Some v else v_cap_get_flag env c i g)) \<and>
     (\<forall>c p p'. v_cap_set_proc env c p = Some p' \<longrightarrow>
        (\<exists>c'. v_cap_get_proc env p' = Some c' \<and> (\<forall>i f. v_cap_get_flag env c' i f = v_cap_get_flag env c i f)))"

lemma effective_loop_value:
  assumes "\<forall>i \<in> set is. v_cap_get_flag env c i CAP_EFFECTIVE = Some (f i)"
  shows "effective_loop env c is v = ([], v OR foldr (OR) (map (\<lambda>i. if f i then shl1 i else 0) is) 0)"
  using assms by (induction "is" arbitrary: v) (auto simp: or.assoc)

lemma bit_foldr_or: "bit (foldr (OR) (map g is) (0 :: u64)) n \<longleftrightarrow> (\<exists>i \<in> set is. bit (g i) n)"
  by (induction "is") (auto simp: bit_or_iff)

lemma bit_shl1: "i < 64 \<Longrightarrow> bit (shl1 i) n \<longleftrightarrow> i = n"
  by (auto simp: bit_simps)

lemma get_effective_caps_bits:
  assumes "v_cap_get_proc env p = Some c" and "v_CAP_LAST_CAP env < 64"
    and "\<forall>i \<le> v_CAP_LAST_CAP env. v_cap_get_flag env c i CAP_EFFECTIVE = Some (f i)"
  shows "\<exists>v. get_effective_caps env p = ([], v) \<and> (\<forall>n. bit v n \<longleftrightarrow> n \<le> v_CAP_LAST_CAP env \<and> f n)"
proof -
  let ?is = "[0..<Suc (v_CAP_LAST_CAP env)]" and ?g = "\<lambda>i. if f i then shl1 i else 0"
  have "effective_loop env c ?is 0 = ([], 0 OR foldr (OR) (map ?g ?is) 0)"
    using assms(3) by (intro effective_loop_value) auto
  moreover have "bit (foldr (OR) (map ?g ?is) 0) n \<longleftrightarrow> n \<le> v_CAP_LAST_CAP env \<and> f n" for n
  proof -
    have "bit (?g i) n \<longleftrightarrow> f i \<and> i = n" if "i \<le> v_CAP_LAST_CAP env" for i
      using that assms(2) bit_shl1 [of i n] by (simp del: push_bit_of_1)
    then show ?thesis
      unfolding bit_foldr_or by (auto simp del: push_bit_of_1 upt_Suc)
  qed
  ultimately show ?thesis
    by (simp add: get_effective_caps_def assms(1))
qed

lemma must_Inr: "must env msg r = (es, Inr a) \<longleftrightarrow> es = [] \<and> r = Some a"
  by (auto simp: must_def ret_def split: option.splits)

lemma thenR_eq_Inr:
  "thenR m k = (es, Inr b) \<longleftrightarrow> (\<exists>es1 es2. m = (es1, Inr ()) \<and> k = (es2, Inr b) \<and> es = es1 @ es2)"
  by (simp add: thenR_def bindR_eq_Inr)

lemma if_Inl_eq_Inr: "(if b then (es1, Inl x) else m) = (es, Inr a) \<longleftrightarrow> \<not> b \<and> m = (es, Inr a)"
  by simp

text \<open>The calls that a successful run made last, and what it printed then.\<close>

lemma main_success:
  assumes "main env p0 = (es, Inr p)"
  shows "\<exists>c4 p4 d1 d2 d3 d4 d5. v_cap_clear env c4 = Some d1 \<and>
    v_cap_set_flag env d1 CAP_EFFECTIVE (take 1 cap_list) True = Some d2 \<and>
    v_cap_set_flag env d2 CAP_PERMITTED (take 1 cap_list) True = Some d3 \<and>
    v_cap_set_flag env d3 CAP_EFFECTIVE (take 3 (drop 1 cap_list)) False = Some d4 \<and>
    v_cap_set_flag env d4 CAP_PERMITTED (take 3 (drop 1 cap_list)) False = Some d5 \<and>
    v_cap_set_proc env d5 p4 = Some p \<and>
    set (fst (show_caps env ''After re-setting only CAP_DAC_OVERRIDE, CapEff: '' p)) \<subseteq> set es"
  using assms unfolding main_def thenR_eq_Inr if_Inl_eq_Inr bindR_eq_Inr must_Inr
  by (auto simp: ret_def emit_def thenR_def split: if_splits) blast

lemma cap_list_parts:
  "take 1 cap_list = [CAP_DAC_OVERRIDE]" "take 3 (drop 1 cap_list) = [CAP_SETUID, CAP_SETGID, CAP_SETPCAP]"
  by (simp_all add: cap_list_def)

text \<open>
  C28.  If the program succeeds, the process is left with exactly one capability, \<^verbatim>\<open>CAP_DAC_OVERRIDE\<close>, effective
  and permitted and not inheritable, and the last set it printed is the number with only that bit.
\<close>

theorem only_dac_override_left:
  assumes "libcap_laws env" and "CAP_SETPCAP \<le> v_CAP_LAST_CAP env" and "main env p0 = (es, Inr p)"
  shows "(\<exists>c. v_cap_get_proc env p = Some c \<and> (\<forall>i \<le> v_CAP_LAST_CAP env. \<forall>f.
      v_cap_get_flag env c i f = Some (f \<noteq> CAP_INHERITABLE \<and> i = CAP_DAC_OVERRIDE))) \<and>
    Stdout (''After re-setting only CAP_DAC_OVERRIDE, CapEff: '' @ fmt_016lx (shl1 CAP_DAC_OVERRIDE) @ nl) \<in> set es"
proof -
  obtain c4 p4 d1 d2 d3 d4 d5 where run: "v_cap_clear env c4 = Some d1"
    "v_cap_set_flag env d1 CAP_EFFECTIVE (take 1 cap_list) True = Some d2"
    "v_cap_set_flag env d2 CAP_PERMITTED (take 1 cap_list) True = Some d3"
    "v_cap_set_flag env d3 CAP_EFFECTIVE (take 3 (drop 1 cap_list)) False = Some d4"
    "v_cap_set_flag env d4 CAP_PERMITTED (take 3 (drop 1 cap_list)) False = Some d5"
    "v_cap_set_proc env d5 p4 = Some p"
    "set (fst (show_caps env ''After re-setting only CAP_DAC_OVERRIDE, CapEff: '' p)) \<subseteq> set es"
    using main_success [OF assms(3)] by (elim exE conjE)
  have clear: "v_cap_get_flag env d1 i f = Some False" if "i \<le> v_CAP_LAST_CAP env" for i f
    using assms(1) run(1) that unfolding libcap_laws_def by blast
  have set_flag: "v_cap_get_flag env c' i g = (if g = f \<and> i \<in> set is then Some v else v_cap_get_flag env c i g)"
    if "v_cap_set_flag env c f is v = Some c'" for c c' f "is" v i g
    using assms(1) that unfolding libcap_laws_def by blast
  obtain c where c: "v_cap_get_proc env p = Some c"
    and same: "\<forall>i f. v_cap_get_flag env c i f = v_cap_get_flag env d5 i f"
    using assms(1) run(6) unfolding libcap_laws_def by blast
  have flags: "v_cap_get_flag env c i f = Some (f \<noteq> CAP_INHERITABLE \<and> i = CAP_DAC_OVERRIDE)"
    if "i \<le> v_CAP_LAST_CAP env" for i f
    unfolding same [rule_format] set_flag [OF run(5)] set_flag [OF run(4)] set_flag [OF run(3)] set_flag [OF run(2)]
      clear [OF that] cap_list_parts
    by (cases f) (auto simp: CAP_DAC_OVERRIDE_def CAP_SETUID_def CAP_SETGID_def CAP_SETPCAP_def)
  have last: "v_CAP_LAST_CAP env < 64" "CAP_DAC_OVERRIDE \<le> v_CAP_LAST_CAP env"
    using assms(1,2) by (simp_all add: libcap_laws_def CAP_DAC_OVERRIDE_def CAP_SETPCAP_def)
  have "\<forall>i \<le> v_CAP_LAST_CAP env. v_cap_get_flag env c i CAP_EFFECTIVE = Some (i = CAP_DAC_OVERRIDE)"
    using flags by simp
  from get_effective_caps_bits [OF c last(1) this] obtain v where v: "get_effective_caps env p = ([], v)"
    "\<forall>n. bit v n \<longleftrightarrow> n \<le> v_CAP_LAST_CAP env \<and> n = CAP_DAC_OVERRIDE"
    by blast
  have "v = shl1 CAP_DAC_OVERRIDE"
    using v(2) last bit_shl1 [of CAP_DAC_OVERRIDE] by (intro bit_word_eqI) (auto simp del: push_bit_of_1)
  with v(1) run(7) have "Stdout (''After re-setting only CAP_DAC_OVERRIDE, CapEff: '' @
      fmt_016lx (shl1 CAP_DAC_OVERRIDE) @ nl) \<in> set es"
    by (simp add: show_caps_def emit_def del: push_bit_of_1)
  with c flags show ?thesis by blast
qed

text \<open>A process is its three sets; every call succeeds.\<close>

definition demo_caps :: "(cap_flag \<Rightarrow> nat \<Rightarrow> bool, cap_flag \<Rightarrow> nat \<Rightarrow> bool) cap_env" where
  "demo_caps =
     \<lparr>v_CAP_LAST_CAP = 40, v_cap_supported = (\<lambda>_. True), v_cap_get_proc = Some,
      v_cap_clear = (\<lambda>c. Some (\<lambda>f i. False)), v_cap_get_flag = (\<lambda>c i f. Some (c f i)),
      v_cap_set_flag = (\<lambda>c f is v. Some (\<lambda>g i. if g = f \<and> i \<in> set is then v else c g i)),
      v_cap_set_proc = (\<lambda>c p. Some c), v_set_keepcaps = Some, v_setresgid = (\<lambda>_. Some), v_setresuid = (\<lambda>_. Some),
      v_ids = (\<lambda>_. (1000, 1000, 1000, 1000)), v_secret_opens = (\<lambda>p. p CAP_EFFECTIVE CAP_DAC_OVERRIDE),
      v_strerror = ''Operation not permitted''\<rparr>"

theorem only_dac_override_left_witness:
  "\<exists>es p c. main demo_caps (\<lambda>f i. f \<noteq> CAP_INHERITABLE) = (es, Inr p) \<and> v_cap_get_proc demo_caps p = Some c \<and>
     v_cap_get_flag demo_caps c 1 CAP_EFFECTIVE = Some True \<and> v_cap_get_flag demo_caps c 7 CAP_EFFECTIVE = Some False"
proof -
  have laws: "libcap_laws demo_caps" and last: "v_CAP_LAST_CAP demo_caps = 40"
    by (auto simp: libcap_laws_def demo_caps_def)
  have "\<exists>p. snd (main demo_caps (\<lambda>f i. f \<noteq> CAP_INHERITABLE)) = Inr p"
    by (simp add: main_def demo_caps_def must_def show_caps_def split_beta cap_list_def thenR_def emit_def ret_def
        CAP_DAC_OVERRIDE_def CAP_SETUID_def CAP_SETGID_def CAP_SETPCAP_def)
  then obtain es p where run: "main demo_caps (\<lambda>f i. f \<noteq> CAP_INHERITABLE) = (es, Inr p)"
    by (metis prod.collapse)
  have pcap: "CAP_SETPCAP \<le> v_CAP_LAST_CAP demo_caps"
    by (simp add: CAP_SETPCAP_def last)
  obtain c where c: "v_cap_get_proc demo_caps p = Some c" "\<forall>i \<le> v_CAP_LAST_CAP demo_caps. \<forall>f.
      v_cap_get_flag demo_caps c i f = Some (f \<noteq> CAP_INHERITABLE \<and> i = CAP_DAC_OVERRIDE)"
    using only_dac_override_left [OF laws pcap run] by blast
  then have "v_cap_get_flag demo_caps c 1 CAP_EFFECTIVE = Some True"
    "v_cap_get_flag demo_caps c 7 CAP_EFFECTIVE = Some False"
    by (simp_all add: last CAP_DAC_OVERRIDE_def)
  with run c(1) show ?thesis by blast
qed

end
