(* ===== verification/Find_Root_Dev.thy ===== *)
theory Find_Root_Dev
  imports Kernel
begin

text \<open>
  \<^verbatim>\<open>modules/find_root_dev.c\<close>: printing the device that holds the root directory.  The calls of the
  virtual file system and of the block layer are parameters that may fail; the labels of the error exits
  are definitions of their own.
\<close>

section \<open>The kernel as the module sees it\<close>

text \<open>\<^verbatim>\<open>KERNEL_VERSION(a, b, c)\<close>.\<close>

definition KERNEL_VERSION :: "nat \<Rightarrow> nat \<Rightarrow> nat \<Rightarrow> nat" where
  "KERNEL_VERSION a b c = a * 2 ^ 16 + b * 2 ^ 8 + c"

text \<open>
  \<open>d_vfs_getattr flags\<close> is the result of \<^verbatim>\<open>vfs_getattr\<close> on the root path and the device number it stores;
  \<open>flags\<close> is the request mask and the query flags of the four-argument version.
\<close>

record root_env =
  d_LINUX_VERSION_CODE :: nat
  d_STATX_BASIC_STATS :: u32
  d_AT_NO_AUTOMOUNT :: u32
  d_AT_SYMLINK_NOFOLLOW :: u32
  d_kern_path :: "string \<Rightarrow> int"
  d_vfs_getattr :: "(u32 \<times> u32) option \<Rightarrow> int \<times> u32"
  d_MAJOR :: "u32 \<Rightarrow> int"
  d_MINOR :: "u32 \<Rightarrow> int"
  d_bdget :: "u32 \<Rightarrow> nat option"
  d_bdevname :: "nat \<Rightarrow> string option"




section \<open>The module\<close>

text \<open>The source is refused by the preprocessor since Linux 5.10.\<close>

definition builds :: "root_env \<Rightarrow> bool" where
  "builds env \<longleftrightarrow> \<not> d_LINUX_VERSION_CODE env \<ge> KERNEL_VERSION 5 10 0"

definition root_getattr :: "root_env \<Rightarrow> int \<times> u32" where
  "root_getattr env =
     (if d_LINUX_VERSION_CODE env > KERNEL_VERSION 4 10 0
      then d_vfs_getattr env (Some (d_STATX_BASIC_STATS env, d_AT_NO_AUTOMOUNT env OR d_AT_SYMLINK_NOFOLLOW env))
      else d_vfs_getattr env None)"







section \<open>Properties\<close>
















text \<open>
  The comment on the second version of the \<^verbatim>\<open>vfs_getattr\<close> call says that it is for kernels up to 4.10; the
  condition sends only 4.10.0 itself there, and its stable updates to the four-argument call.
\<close>

lemma stable_4_10_takes_new_call:
  assumes "d_LINUX_VERSION_CODE env = KERNEL_VERSION 4 10 c" and "0 < c"
  shows "root_getattr env =
    d_vfs_getattr env (Some (d_STATX_BASIC_STATS env, d_AT_NO_AUTOMOUNT env OR d_AT_SYMLINK_NOFOLLOW env))"
  using assms by (simp add: root_getattr_def KERNEL_VERSION_def)

end
