(* ===== verification/Undef_Instr.thy ===== *)
theory Undef_Instr
  imports Kernel
begin

text \<open>
  \<^verbatim>\<open>modules/arm64/undef_instr.c\<close>: a hook for undefined instructions that skips them.  The symbol lookup,
  the hooks of other code and the kernel's choice among the registered hooks are parameters; what the
  module relies on is that the kernel calls a hook whose masks match (\<open>picks_matching\<close>).
\<close>

section \<open>Hooks\<close>

record pt_regs =
  pc :: u64
  pstate :: u64

type_synonym handler = "pt_regs \<Rightarrow> u32 \<Rightarrow> log_line list \<times> pt_regs \<times> int"

record undef_hook =
  instr_mask :: u32
  instr_val :: u32
  pstate_mask :: u64
  pstate_val :: u64
  hook_fn :: handler

definition undef_instr_handler :: handler where
  "undef_instr_handler regs instr =
     ([pr KERN_INFO ''undef_instr'' (''*gotcha*'' @ nl)], regs\<lparr>pc := pc regs + 4\<rparr>, 0)"

definition uh :: undef_hook where
  "uh = \<lparr>instr_mask = 0, instr_val = 0, pstate_mask = 0, pstate_val = 0, hook_fn = undef_instr_handler\<rparr>"

section \<open>The kernel as the module sees it\<close>

text \<open>
  \<open>u_find_hook\<close> is the hook the kernel calls for an undefined instruction, given the hooks registered by
  this module and \<open>u_hooks\<close>, those of other code.
\<close>

record undef_env =
  u_kallsyms_lookup_name :: "string \<Rightarrow> u64"
  u_hooks :: "undef_hook list"
  u_find_hook :: "undef_hook list \<Rightarrow> pt_regs \<Rightarrow> u32 \<Rightarrow> undef_hook option"

text \<open>The two pointers, and whether \<^verbatim>\<open>&uh\<close> is on the kernel's list of hooks.\<close>

record mod_state =
  m_register_undef_hook_ptr :: u64
  m_unregister_undef_hook_ptr :: u64
  m_registered :: bool

text \<open>
  Executing an undefined instruction: the kernel calls the hook it finds, and execution goes on at the
  program counter the hook leaves; with no hook, or one that does not return 0, it does not go on.
\<close>

definition undefined_instruction ::
  "undef_env \<Rightarrow> bool \<Rightarrow> pt_regs \<Rightarrow> u32 \<Rightarrow> log_line list \<times> pt_regs option" where
  "undefined_instruction env registered regs instr =
     (case u_find_hook env ((if registered then [uh] else []) @ u_hooks env) regs instr of
        None \<Rightarrow> ([], None)
      | Some h \<Rightarrow>
          (let (ls, regs', res) = hook_fn h regs instr
           in (ls, if res = 0 then Some regs' else None)))"

section \<open>The module\<close>

text \<open>\<^verbatim>\<open>whoops\<close> is the one instruction; \<open>regs\<close> are the registers when it is reached.\<close>

definition whoops :: "undef_env \<Rightarrow> bool \<Rightarrow> pt_regs \<Rightarrow> log_line list \<times> pt_regs option" where
  "whoops env registered regs = undefined_instruction env registered regs 0xf7f0a000"

definition modinit :: "undef_env \<Rightarrow> pt_regs \<Rightarrow> mod_state \<Rightarrow> log_line list \<times> (int \<times> mod_state) option" where
  "modinit env regs st =
     (let st1 = st\<lparr>m_register_undef_hook_ptr := u_kallsyms_lookup_name env ''register_undef_hook'',
                   m_unregister_undef_hook_ptr := u_kallsyms_lookup_name env ''unregister_undef_hook''\<rparr>
      in if m_register_undef_hook_ptr st1 = 0 then ([], Some (- EFAULT, st1))
         else
           (let st2 = st1\<lparr>m_registered := True\<rparr>;
                (ls, alive) = whoops env (m_registered st2) regs;
                before = pr KERN_INFO ''undef_instr'' (''Jumping off a cliff...'' @ nl)
            in case alive of
                 None \<Rightarrow> (before # ls, None)
               | Some _ \<Rightarrow>
                   (before # ls @ [pr KERN_INFO ''undef_instr'' (''Woah, I survived!'' @ nl)], Some (0, st2))))"

definition modexit :: "mod_state \<Rightarrow> mod_state" where
  "modexit st =
     (if m_unregister_undef_hook_ptr st \<noteq> 0 then st\<lparr>m_registered := False\<rparr> else st)"

section \<open>Properties\<close>

text \<open>The meaning of the masks: the hook is for the instructions and processor states that agree with it.\<close>

definition hook_matches :: "undef_hook \<Rightarrow> pt_regs \<Rightarrow> u32 \<Rightarrow> bool" where
  "hook_matches h regs instr \<longleftrightarrow>
     instr AND instr_mask h = instr_val h \<and> pstate regs AND pstate_mask h = pstate_val h"

definition picks_matching :: "undef_env \<Rightarrow> bool" where
  "picks_matching env \<longleftrightarrow>
     (\<forall>hs regs instr. case u_find_hook env hs regs instr of
        None \<Rightarrow> \<not> (\<exists>h \<in> set hs. hook_matches h regs instr)
      | Some h \<Rightarrow> h \<in> set hs \<and> hook_matches h regs instr)"

text \<open>No hook of other code is for the instruction.\<close>

definition only_ours :: "undef_env \<Rightarrow> pt_regs \<Rightarrow> u32 \<Rightarrow> bool" where
  "only_ours env regs instr \<longleftrightarrow> \<not> (\<exists>h \<in> set (u_hooks env). hook_matches h regs instr)"

lemma uh_matches [simp]: "hook_matches uh regs instr"
  by (simp add: hook_matches_def uh_def)

lemma find_uh:
  assumes "picks_matching env" and "only_ours env regs instr"
  shows "u_find_hook env ([uh] @ u_hooks env) regs instr = Some uh"
proof -
  have pick: "case u_find_hook env ([uh] @ u_hooks env) regs instr of
        None \<Rightarrow> \<not> (\<exists>h \<in> set ([uh] @ u_hooks env). hook_matches h regs instr)
      | Some h \<Rightarrow> h \<in> set ([uh] @ u_hooks env) \<and> hook_matches h regs instr"
    using assms(1) unfolding picks_matching_def by blast
  show ?thesis
    using pick assms(2) by (cases "u_find_hook env ([uh] @ u_hooks env) regs instr") (auto simp: only_ours_def)
qed

lemma undefined_skipped:
  assumes "picks_matching env" and "only_ours env regs instr"
  shows "undefined_instruction env True regs instr =
    ([pr KERN_INFO ''undef_instr'' (''*gotcha*'' @ nl)], Some (regs\<lparr>pc := pc regs + 4\<rparr>))"
  using find_uh [OF assms] by (simp add: undefined_instruction_def) (simp add: uh_def undef_instr_handler_def)

text \<open>The module before it is loaded.\<close>

definition unloaded :: mod_state where
  "unloaded = \<lparr>m_register_undef_hook_ptr = 0, m_unregister_undef_hook_ptr = 0, m_registered = False\<rparr>"

text \<open>
  C40.  When the kernel exports the registration and no other hook is for the instruction, loading survives
  its own undefined instruction.  From then on the masks of the hook, all zero, make it match everything:
  any undefined instruction that no other hook is for, in the kernel or in a process, is skipped instead of
  being an error.
\<close>

theorem undef_instr_survives:
  assumes "picks_matching env" and "u_kallsyms_lookup_name env ''register_undef_hook'' \<noteq> 0"
    and "only_ours env regs 0xf7f0a000"
  shows "\<exists>st. modinit env regs unloaded =
      (map (\<lambda>s. pr KERN_INFO ''undef_instr'' (s @ nl)) [''Jumping off a cliff...'', ''*gotcha*'', ''Woah, I survived!''],
       Some (0, st)) \<and>
    (\<forall>regs' instr. only_ours env regs' instr \<longrightarrow>
       snd (undefined_instruction env (m_registered st) regs' instr) = Some (regs'\<lparr>pc := pc regs' + 4\<rparr>))"
  using assms undefined_skipped [OF assms(1)]
  by (simp add: modinit_def unloaded_def whoops_def Let_def)

text \<open>An arm64 kernel: the first matching hook is called.\<close>

definition demo_undef :: "u64 \<Rightarrow> undef_env" where
  "demo_undef unreg =
     \<lparr>u_kallsyms_lookup_name = (\<lambda>s. if s = ''register_undef_hook'' then 0xffff800010010000
        else if s = ''unregister_undef_hook'' then unreg else 0),
      u_hooks = [], u_find_hook = (\<lambda>hs regs instr. List.find (\<lambda>h. hook_matches h regs instr) hs)\<rparr>"

lemma demo_undef_picks: "picks_matching (demo_undef unreg)"
  by (auto simp: picks_matching_def demo_undef_def find_None_iff find_Some_iff split: option.splits)

theorem undef_instr_survives_witness:
  "\<exists>st ls. modinit (demo_undef 0xffff800010010080) \<lparr>pc = 0xffff800008000000, pstate = 5\<rparr> unloaded = (ls, Some (0, st)) \<and>
    snd (undefined_instruction (demo_undef 0xffff800010010080) (m_registered st) \<lparr>pc = 0x400000, pstate = 0\<rparr> 0) =
      Some \<lparr>pc = 0x400004, pstate = 0\<rparr>"
proof -
  let ?env = "demo_undef 0xffff800010010080"
  have sym: "u_kallsyms_lookup_name ?env ''register_undef_hook'' \<noteq> 0"
    by (simp add: demo_undef_def)
  have ours: "only_ours ?env regs instr" for regs instr
    by (simp add: only_ours_def demo_undef_def)
  from undef_instr_survives [OF demo_undef_picks sym ours, of "\<lparr>pc = 0xffff800008000000, pstate = 5\<rparr>"]
  obtain st where "fst (modinit ?env \<lparr>pc = 0xffff800008000000, pstate = 5\<rparr> unloaded) =
        fst (modinit ?env \<lparr>pc = 0xffff800008000000, pstate = 5\<rparr> unloaded)"
      "snd (modinit ?env \<lparr>pc = 0xffff800008000000, pstate = 5\<rparr> unloaded) = Some (0, st)"
    and skip: "\<forall>regs' instr. only_ours ?env regs' instr \<longrightarrow>
       snd (undefined_instruction ?env (m_registered st) regs' instr) = Some (regs'\<lparr>pc := pc regs' + 4\<rparr>)"
    by (metis snd_conv)
  moreover have "snd (undefined_instruction ?env (m_registered st) \<lparr>pc = 0x400000, pstate = 0\<rparr> 0) =
      Some \<lparr>pc = 0x400004, pstate = 0\<rparr>"
    using skip ours by simp
  ultimately show ?thesis
    by (intro exI [of _ st] exI [of _ "fst (modinit ?env \<lparr>pc = 0xffff800008000000, pstate = 5\<rparr> unloaded)"])
      (simp add: prod_eq_iff)
qed

text \<open>
  \<^verbatim>\<open>modinit\<close> checks only the registration function.  After loading and unloading no hook is left exactly
  when the kernel also exports the function that unregisters; otherwise the hook stays on
  the kernel's list, although the memory it points to goes with the module.
\<close>

theorem undef_hook_left_behind:
  assumes "picks_matching env" and "u_kallsyms_lookup_name env ''register_undef_hook'' \<noteq> 0"
    and "only_ours env regs 0xf7f0a000"
  shows "\<exists>ls st. modinit env regs unloaded = (ls, Some (0, st)) \<and>
    (m_registered (modexit st) \<longleftrightarrow> u_kallsyms_lookup_name env ''unregister_undef_hook'' = 0)"
  using assms undefined_skipped [OF assms(1)]
  by (simp add: modinit_def unloaded_def whoops_def Let_def modexit_def)

theorem undef_hook_left_behind_witness:
  "\<exists>ls st. modinit (demo_undef 0) \<lparr>pc = 0, pstate = 5\<rparr> unloaded = (ls, Some (0, st)) \<and> m_registered (modexit st)"
proof -
  have "u_kallsyms_lookup_name (demo_undef 0) ''register_undef_hook'' \<noteq> 0"
    and "only_ours (demo_undef 0) \<lparr>pc = 0, pstate = 5\<rparr> 0xf7f0a000"
    and unreg: "u_kallsyms_lookup_name (demo_undef 0) ''unregister_undef_hook'' = 0"
    by (simp_all add: demo_undef_def only_ours_def)
  from undef_hook_left_behind [OF demo_undef_picks this(1,2)] show ?thesis
    unfolding unreg by simp
qed

end
