(* ===== verification/Cpufreq.thy ===== *)
theory Cpufreq
  imports Kernel
begin

text \<open>
  \<^verbatim>\<open>modules/cpufreq.c\<close>: printing the frequency of every online CPU.  The CPU masks and the functions that
  step through them are parameters; whether the loop ends depends on them, so it is a partial function.
\<close>

section \<open>The module\<close>

record freq_env =
  f_nr_cpu_ids :: u32
  f_cpu_online_mask :: "u32 \<Rightarrow> bool"
  f_cpumask_first :: "(u32 \<Rightarrow> bool) \<Rightarrow> u32"
  f_cpumask_next :: "u32 \<Rightarrow> (u32 \<Rightarrow> bool) \<Rightarrow> u32"
  f_cpufreq_get :: "u32 \<Rightarrow> u32"

definition cpu_line :: "freq_env \<Rightarrow> u32 \<Rightarrow> log_line" where
  "cpu_line env cpu = pr KERN_INFO ''cpufreq''
     (''CPU: '' @ fmt_u (unat cpu) @ '', freq: '' @ fmt_u (unat (f_cpufreq_get env cpu)) @ '' kHz'' @ nl)"

partial_function (option) cpu_loop :: "freq_env \<Rightarrow> u32 \<Rightarrow> kevent list option" where
  "cpu_loop env cpu =
     (if cpu < f_nr_cpu_ids env
      then Option.bind (cpu_loop env (f_cpumask_next env cpu (f_cpu_online_mask env)))
             (\<lambda>es. Some (Log (cpu_line env cpu) # es))
      else Some [])"

definition modinit :: "freq_env \<Rightarrow> (kevent list \<times> int) option" where
  "modinit env =
     map_option (\<lambda>es. (es, 0)) (cpu_loop env (f_cpumask_first env (f_cpu_online_mask env)))"

definition modexit :: "kevent list" where
  "modexit = []"

section \<open>Properties\<close>

text \<open>
  What the mask functions promise: the least set bit among the numbers \<open>from\<close>, or a number not below \<^verbatim>\<open>nr_cpu_ids\<close>
  when there is none.
\<close>

definition least_from :: "freq_env \<Rightarrow> (u32 \<Rightarrow> bool) \<Rightarrow> (u32 \<Rightarrow> bool) \<Rightarrow> u32 \<Rightarrow> bool" where
  "least_from env msk from n \<longleftrightarrow>
     (if n < f_nr_cpu_ids env then msk n \<and> from n \<and> (\<forall>d. msk d \<and> from d \<longrightarrow> n \<le> d)
      else \<forall>d. msk d \<and> from d \<longrightarrow> f_nr_cpu_ids env \<le> d)"

definition mask_functions :: "freq_env \<Rightarrow> bool" where
  "mask_functions env \<longleftrightarrow>
     (\<forall>msk. least_from env msk (\<lambda>_. True) (f_cpumask_first env msk)) \<and>
     (\<forall>msk c. least_from env msk (\<lambda>d. c < d) (f_cpumask_next env c msk))"

text \<open>The CPUs the loop visits from a given one on.\<close>

definition online_from :: "freq_env \<Rightarrow> u32 \<Rightarrow> u32 set" where
  "online_from env c = {d. f_cpu_online_mask env d \<and> c \<le> d \<and> d < f_nr_cpu_ids env}"

lemma online_from_next:
  assumes "mask_functions env" and "f_cpu_online_mask env c" and "c < f_nr_cpu_ids env"
  defines "n \<equiv> f_cpumask_next env c (f_cpu_online_mask env)"
  shows "online_from env c = insert c (online_from env n)"
    and "n < f_nr_cpu_ids env \<Longrightarrow> c < n \<and> f_cpu_online_mask env n"
    and "d \<in> online_from env n \<Longrightarrow> c < d"
proof -
  have least: "least_from env (f_cpu_online_mask env) (\<lambda>d. c < d) n"
    using assms(1) by (simp add: mask_functions_def n_def)
  show n: "n < f_nr_cpu_ids env \<Longrightarrow> c < n \<and> f_cpu_online_mask env n"
    using least by (simp add: least_from_def)
  have gt: "c < d" if "d \<in> online_from env n" for d
  proof -
    from that have "n \<le> d" "d < f_nr_cpu_ids env"
      by (simp_all add: online_from_def)
    with n show ?thesis by (meson le_less_trans less_le_trans)
  qed
  then show "d \<in> online_from env n \<Longrightarrow> c < d" .
  have "d \<in> online_from env n" if "d \<in> online_from env c" "d \<noteq> c" for d
  proof -
    from that have d: "f_cpu_online_mask env d" "c < d" "d < f_nr_cpu_ids env"
      by (auto simp: online_from_def order_less_le)
    with least have "n \<le> d"
      by (fastforce simp: least_from_def split: if_splits)
    with d show ?thesis by (simp add: online_from_def)
  qed
  moreover have "d \<in> online_from env c" if "d \<in> online_from env n" for d
    using that gt [OF that] by (simp add: online_from_def)
  moreover have "c \<in> online_from env c"
    using assms(2,3) by (simp add: online_from_def)
  ultimately show "online_from env c = insert c (online_from env n)"
    by blast
qed

lemma cpu_loop_ends:
  assumes "mask_functions env"
  shows "c < f_nr_cpu_ids env \<longrightarrow> f_cpu_online_mask env c \<Longrightarrow>
    \<exists>cpus. cpu_loop env c = Some (map (Log \<circ> cpu_line env) cpus) \<and> sorted_wrt (<) cpus \<and> set cpus = online_from env c"
proof (induction c rule: measure_induct_rule [where f = "\<lambda>c. unat (f_nr_cpu_ids env) - unat c"])
  case (less c)
  show ?case
  proof (cases "c < f_nr_cpu_ids env")
    case False
    then have "online_from env c = {}"
      by (auto simp: online_from_def)
    with False show ?thesis
      by (intro exI [of _ "[]"]) (simp add: cpu_loop.simps [of env c])
  next
    case True
    let ?n = "f_cpumask_next env c (f_cpu_online_mask env)"
    have on: "f_cpu_online_mask env c" using less.prems True by simp
    note next_c = online_from_next [OF assms on True]
    obtain cpus where ih: "cpu_loop env ?n = Some (map (Log \<circ> cpu_line env) cpus)" "sorted_wrt (<) cpus"
      "set cpus = online_from env ?n"
    proof (cases "?n < f_nr_cpu_ids env")
      case True
      with next_c(2) have "unat (f_nr_cpu_ids env) - unat ?n < unat (f_nr_cpu_ids env) - unat c"
        by (simp add: word_less_nat_alt diff_less_mono2 less_trans)
      from less.IH [OF this] next_c(2) that show ?thesis by blast
    next
      case False
      then have "online_from env ?n = {}" "cpu_loop env ?n = Some []"
        by (auto simp: online_from_def cpu_loop.simps [of env ?n])
      then show ?thesis by (intro that [of "[]"]) simp_all
    qed
    then have "cpu_loop env c = Some (map (Log \<circ> cpu_line env) (c # cpus))"
      using True by (simp add: cpu_loop.simps [of env c])
    moreover have "sorted_wrt (<) (c # cpus)"
      using ih(2,3) next_c(3) by simp
    moreover have "set (c # cpus) = online_from env c"
      using ih(3) next_c(1) by simp
    ultimately show ?thesis by blast
  qed
qed

text \<open>
  C17.  The loop ends: with mask functions that do what they promise, the module loads after having
  printed one line for each online CPU, in increasing order, and none for any other number.
\<close>

theorem cpufreq_terminates:
  assumes "mask_functions env"
  shows "\<exists>es cpus. modinit env = Some (es, 0) \<and> logs es = map (cpu_line env) cpus \<and> sorted_wrt (<) cpus \<and>
    set cpus = {c. f_cpu_online_mask env c \<and> c < f_nr_cpu_ids env}"
proof -
  let ?c = "f_cpumask_first env (f_cpu_online_mask env)"
  have least: "least_from env (f_cpu_online_mask env) (\<lambda>_. True) ?c"
    using assms by (simp add: mask_functions_def)
  then have "?c < f_nr_cpu_ids env \<longrightarrow> f_cpu_online_mask env ?c"
    by (simp add: least_from_def)
  then obtain cpus where "cpu_loop env ?c = Some (map (Log \<circ> cpu_line env) cpus)" "sorted_wrt (<) cpus"
    "set cpus = online_from env ?c"
    using cpu_loop_ends [OF assms] by blast
  moreover have "online_from env ?c = {c. f_cpu_online_mask env c \<and> c < f_nr_cpu_ids env}"
    using least by (fastforce simp: online_from_def least_from_def split: if_splits)
  moreover have "logs (map (Log \<circ> cpu_line env) cpus) = map (cpu_line env) cpus"
    by (simp flip: map_map)
  ultimately show ?thesis by (simp add: modinit_def) blast
qed

text \<open>A machine with the CPUs 0 to 3, of which 0 and 2 are online.\<close>

definition demo_first :: "(u32 \<Rightarrow> bool) \<Rightarrow> u32 list \<Rightarrow> u32" where
  "demo_first msk cs = (case filter msk cs of [] \<Rightarrow> 4 | c # _ \<Rightarrow> c)"

definition demo_freq :: freq_env where
  "demo_freq =
     \<lparr>f_nr_cpu_ids = 4, f_cpu_online_mask = (\<lambda>c. c = 0 \<or> c = 2),
      f_cpumask_first = (\<lambda>msk. demo_first msk [0, 1, 2, 3]),
      f_cpumask_next = (\<lambda>c msk. demo_first msk (filter (\<lambda>d. c < d) [0, 1, 2, 3])),
      f_cpufreq_get = (\<lambda>_. 2400000)\<rparr>"

lemma demo_first_least:
  assumes "sorted_wrt (<) cs" and "\<And>d. d \<in> set cs \<longleftrightarrow> from d \<and> d < 4"
  shows "least_from demo_freq msk from (demo_first msk cs)"
proof (cases "filter msk cs")
  case Nil
  then have "\<not> (msk d \<and> from d \<and> d < 4)" for d
    using assms(2) [of d] by (auto simp: filter_empty_conv)
  with Nil show ?thesis
    by (auto simp: least_from_def demo_first_def demo_freq_def not_less)
next
  case (Cons c ds)
  then have "c \<in> set (filter msk cs)" by simp
  then have c: "c \<in> set cs" "msk c" by simp_all
  have le: "c \<le> d" if "d \<in> set (filter msk cs)" for d
    using sorted_wrt_filter [OF assms(1), of msk] that unfolding Cons by (auto simp: less_imp_le)
  have "c \<le> d" if "msk d" "from d" for d
  proof (cases "d < 4")
    case True
    with that assms(2) [of d] show ?thesis by (intro le) simp
  next
    case False
    with c(1) assms(2) [of c] show ?thesis by auto
  qed
  with c assms(2) [of c] Cons show ?thesis
    by (simp add: least_from_def demo_first_def demo_freq_def)
qed

lemma below_4: "d < 4 \<longleftrightarrow> d = 0 \<or> d = 1 \<or> d = 2 \<or> d = (3 :: u32)"
proof
  assume "d < 4"
  then have "unat d < 4" by (simp add: word_less_nat_alt)
  then have "unat d = 0 \<or> unat d = 1 \<or> unat d = 2 \<or> unat d = 3" by linarith
  then show "d = 0 \<or> d = 1 \<or> d = 2 \<or> d = 3"
    by (simp add: word_unat_eq_iff)
qed auto

lemma demo_mask_functions: "mask_functions demo_freq"
proof -
  have "least_from demo_freq msk (\<lambda>_. True) (demo_first msk [0, 1, 2, 3])" for msk
    by (intro demo_first_least) (auto simp: below_4)
  moreover have "least_from demo_freq msk (\<lambda>d. c < d) (demo_first msk (filter (\<lambda>d. c < d) [0, 1, 2, 3]))" for msk c
    by (intro demo_first_least sorted_wrt_filter) (auto simp: below_4)
  ultimately show ?thesis
    by (simp add: mask_functions_def demo_freq_def)
qed

theorem cpufreq_terminates_witness:
  "\<exists>es cpus. modinit demo_freq = Some (es, 0) \<and> logs es = map (cpu_line demo_freq) cpus \<and> set cpus = {0, 2}"
proof -
  have "{c. f_cpu_online_mask demo_freq c \<and> c < f_nr_cpu_ids demo_freq} = {0, 2}"
    by (auto simp: demo_freq_def)
  then show ?thesis
    using cpufreq_terminates [OF demo_mask_functions] by auto
qed

end
