(* ===== verification/Cpuinfo.thy ===== *)
theory Cpuinfo
  imports Kernel
begin

text \<open>
  \<^verbatim>\<open>modules/cpuinfo.c\<close>: printing the core that the current CPU belongs to.  The scheduler may move the
  task to another CPU between any two of its actions unless preemption is off; which CPU it is on after
  each action is a parameter.
\<close>

section \<open>The module\<close>

text \<open>\<open>c_cpu k\<close> is the CPU the task runs on after \<open>k\<close> of its actions.\<close>

record cpu_env =
  c_cpu :: "nat \<Rightarrow> nat"
  c_core_id :: "nat \<Rightarrow> int"

definition core_line :: "cpu_env \<Rightarrow> nat \<Rightarrow> log_line" where
  "core_line env cpu =
     pr KERN_INFO ''cpuinfo'' (''CPU: '' @ fmt_u cpu @ '', core: '' @ fmt_d (c_core_id env cpu) @ nl)"

definition modinit :: "cpu_env \<Rightarrow> kevent list \<times> int" where
  "modinit env =
     (let cpu = c_cpu env 0
      in ([Get_cpu cpu, Log (core_line env cpu), Put_cpu], 0))"

definition modexit :: "kevent list" where
  "modexit = []"

section \<open>Properties\<close>

text \<open>The task is not moved while preemption is off.\<close>

definition pinned :: "cpu_env \<Rightarrow> kevent list \<Rightarrow> bool" where
  "pinned env es \<longleftrightarrow>
     (\<forall>k < length es. 0 < net kdelta (take (Suc k) es) Preemption_off \<longrightarrow> c_cpu env (Suc k) = c_cpu env k)"

lemma cpuinfo_balanced: "balanced kdelta (fst (modinit env))"
  by (simp add: balanced_def modinit_def Let_def)

interpretation cpuinfo_module: kernel_module modinit "\<lambda>_. modexit" kdelta
  using cpuinfo_balanced by unfold_locales (simp_all add: modexit_def)

text \<open>
  The line names the CPU on which the task runs when it prints it, and that CPU's core: preemption is
  off from before the CPU's number is read until after the line.  It is on again when the module has
  loaded, however often that is done.
\<close>

theorem cpuinfo_pinned:
  assumes "pinned env (fst (modinit env))"
  shows "logs (fst (modinit env)) = [core_line env (c_cpu env 2)] \<and> snd (modinit env) = 0 \<and>
    balanced kdelta (load_cycles modinit (\<lambda>_. modexit) (replicate n env))"
proof -
  have "c_cpu env (Suc 0) = c_cpu env 0" "c_cpu env 2 = c_cpu env (Suc 0)"
    using assms by (simp_all add: pinned_def modinit_def Let_def All_less_Suc numeral_2_eq_2)
  then show ?thesis
    using cpuinfo_module.cycles_balanced by (simp add: modinit_def Let_def)
qed

theorem cpuinfo_pinned_witness:
  "logs (fst (modinit \<lparr>c_cpu = (\<lambda>k. if k \<le> 2 then 5 else 6), c_core_id = (\<lambda>c. int c div 2)\<rparr>)) =
    [core_line \<lparr>c_cpu = (\<lambda>k. if k \<le> 2 then 5 else 6), c_core_id = (\<lambda>c. int c div 2)\<rparr> 5]"
  using cpuinfo_pinned [of "\<lparr>c_cpu = (\<lambda>k. if k \<le> 2 then 5 else 6), c_core_id = (\<lambda>c. int c div 2)\<rparr>"]
  by (simp add: pinned_def modinit_def All_less_Suc numeral_2_eq_2 numeral_3_eq_3)

end
