(* ===== verification/Datetime.thy ===== *)
theory Datetime
  imports Kernel
begin

text \<open>
  \<^verbatim>\<open>modules/datetime.c\<close>: printing the local date and time.  The clock, the kernel's time zone and the
  conversion to a broken-down time (\<^verbatim>\<open>time64_to_tm\<close>) are parameters.
\<close>

section \<open>The module\<close>

record tm =
  tm_sec :: int
  tm_min :: int
  tm_hour :: int
  tm_mday :: int
  tm_mon :: int
  tm_year :: int

text \<open>
  The time zone is a number of minutes west of Greenwich; \<^verbatim>\<open>settimeofday\<close> bounds it by 15 hours, far from
  where the product with 60 would overflow.
\<close>

record time_env =
  g_tz_minuteswest :: int
  g_tz_dsttime :: int
  g_ktime_get_real_seconds :: int
  g_time64_to_tm :: "int \<Rightarrow> int \<Rightarrow> tm"

text \<open>\<^verbatim>\<open>%02d\<close>; the minus sign counts for the width.\<close>

definition fmt_02d :: "int \<Rightarrow> string" where
  "fmt_02d i = (if i < 0 then CHR ''-'' # pad0 1 (fmt_u (nat (- i))) else pad0 2 (fmt_u (nat i)))"

definition date_text :: "tm \<Rightarrow> string" where
  "date_text t =
     fmt_d (tm_year t + 1900) @ ''-'' @ fmt_02d (tm_mon t + 1) @ ''-'' @ fmt_02d (tm_mday t) @ '' '' @
     fmt_02d (tm_hour t) @ '':'' @ fmt_02d (tm_min t) @ '':'' @ fmt_02d (tm_sec t)"

definition info :: "string \<Rightarrow> kevent" where
  "info s = Log (pr KERN_INFO ''datetime'' (s @ nl))"

definition datetime_init :: "time_env \<Rightarrow> kevent list \<times> int" where
  "datetime_init env =
     (let t = g_time64_to_tm env (g_ktime_get_real_seconds env) (- g_tz_minuteswest env * 60)
      in ([info (''sys_tz.tz_minuteswest = '' @ fmt_d (g_tz_minuteswest env)),
           info (''sys_tz.tz_dsttime = '' @ fmt_d (g_tz_dsttime env)),
           info (''Date and time: '' @ date_text t)], 0))"

definition datetime_exit :: "kevent list" where
  "datetime_exit = []"

section \<open>The text of a date determines it\<close>

text \<open>The ranges of the fields, apart from the year.\<close>

definition tm_valid :: "tm \<Rightarrow> bool" where
  "tm_valid t \<longleftrightarrow> 0 \<le> tm_sec t \<and> tm_sec t \<le> 60 \<and> 0 \<le> tm_min t \<and> tm_min t < 60 \<and> 0 \<le> tm_hour t \<and> tm_hour t < 24 \<and>
     1 \<le> tm_mday t \<and> tm_mday t \<le> 31 \<and> 0 \<le> tm_mon t \<and> tm_mon t < 12"

lemma hexdig_inj: "inj_on hexdig {..<16}"
  by (rule inj_on_inverseI [where g = "\<lambda>c. the (digit_of_char c)"]) simp

lemma fmt_u_inj: "fmt_u m = fmt_u n \<Longrightarrow> m = n"
proof -
  assume "fmt_u m = fmt_u n"
  moreover have "set (digits_of 10 m) \<union> set (digits_of 10 n) \<subseteq> {..<16}"
    using digits_of_less [of 10] by fastforce
  ultimately have "digits_of 10 m = digits_of 10 n"
    unfolding fmt_u_def using inj_on_subset [OF hexdig_inj] by (blast intro: map_inj_on)
  then have "digits_val 10 (digits_of 10 m) = digits_val 10 (digits_of 10 n)" by simp
  then show "m = n" by simp
qed

lemma fmt_u_no_minus: "CHR ''-'' # s \<noteq> fmt_u n"
proof
  assume *: "CHR ''-'' # s = fmt_u n"
  then obtain d where "d \<in> set (digits_of 10 n)" "hexdig d = CHR ''-''"
    by (cases "digits_of 10 n") (auto simp: fmt_u_def)
  moreover from this have "d < 16" using digits_of_less [of 10 d n] by simp
  ultimately have "digit_of_char CHR ''-'' = Some d" by (metis digit_of_hexdig)
  then show False by (simp add: digit_of_char_def)
qed

lemma fmt_d_inj: "fmt_d i = fmt_d j \<Longrightarrow> i = j"
  by (auto simp: fmt_d_def fmt_u_no_minus fmt_u_no_minus [symmetric] dest!: fmt_u_inj split: if_splits)

lemma fmt_02d_two_digits:
  assumes "0 \<le> i" and "i < 100"
  shows "fmt_02d i = [hexdig (nat i div 10), hexdig (nat i mod 10)]"
proof (cases "nat i < 10")
  case True
  have "hexdig 0 = CHR ''0''" by (simp add: hexdig_def char_of_def bit_0)
  with True assms show ?thesis
    by (simp add: fmt_02d_def fmt_u_def digits_of.simps pad0_def)
next
  case False
  have "nat i div 10 < 10" using assms by linarith
  with False assms(1) show ?thesis
    by (simp add: fmt_02d_def fmt_u_def digits_of.simps pad0_def)
qed

lemma fmt_02d_inj:
  assumes "fmt_02d i = fmt_02d j" and "0 \<le> i" "i < 100" "0 \<le> j" "j < 100"
  shows "i = j"
proof -
  have "hexdig (nat i div 10) = hexdig (nat j div 10)" "hexdig (nat i mod 10) = hexdig (nat j mod 10)"
    using assms by (simp_all add: fmt_02d_two_digits)
  moreover have "nat i div 10 < 16" "nat j div 10 < 16" "nat i mod 10 < 16" "nat j mod 10 < 16"
    using assms(3,5) by linarith+
  ultimately have "nat i div 10 = nat j div 10" "nat i mod 10 = nat j mod 10"
    by (metis digit_of_hexdig option.inject)+
  then have "nat i = nat j" by (metis div_mult_mod_eq)
  with assms(2,4) show ?thesis by simp
qed

lemma length_fmt_02d: "0 \<le> i \<Longrightarrow> i < 100 \<Longrightarrow> length (fmt_02d i) = 2"
  by (simp add: fmt_02d_two_digits)

text \<open>The part after the year has a fixed length.\<close>

definition date_tail :: "tm \<Rightarrow> string" where
  "date_tail t = ''-'' @ fmt_02d (tm_mon t + 1) @ ''-'' @ fmt_02d (tm_mday t) @ '' '' @
     fmt_02d (tm_hour t) @ '':'' @ fmt_02d (tm_min t) @ '':'' @ fmt_02d (tm_sec t)"

lemma lengths_valid:
  assumes "tm_valid t"
  shows "length (fmt_02d (tm_mon t + 1)) = 2" "length (fmt_02d (tm_mday t)) = 2" "length (fmt_02d (tm_hour t)) = 2"
    "length (fmt_02d (tm_min t)) = 2" "length (fmt_02d (tm_sec t)) = 2"
  using assms by (simp_all add: tm_valid_def length_fmt_02d)

lemma append_same_length: "length a = length b \<Longrightarrow> a @ x = b @ y \<longleftrightarrow> a = b \<and> x = y"
  by (rule append_eq_append_conv) simp

lemma date_tail_inj:
  assumes "tm_valid s" and "tm_valid t" and "date_tail s = date_tail t"
  shows "tm_mon s = tm_mon t" "tm_mday s = tm_mday t" "tm_hour s = tm_hour t" "tm_min s = tm_min t" "tm_sec s = tm_sec t"
proof -
  have "fmt_02d (tm_mon s + 1) = fmt_02d (tm_mon t + 1)" "fmt_02d (tm_mday s) = fmt_02d (tm_mday t)"
    "fmt_02d (tm_hour s) = fmt_02d (tm_hour t)" "fmt_02d (tm_min s) = fmt_02d (tm_min t)"
    "fmt_02d (tm_sec s) = fmt_02d (tm_sec t)"
    using assms(3) by (simp_all add: date_tail_def append_same_length lengths_valid [OF assms(1)] lengths_valid [OF assms(2)])
  note eqs = this [THEN fmt_02d_inj]
  show "tm_mon s = tm_mon t" "tm_mday s = tm_mday t" "tm_hour s = tm_hour t" "tm_min s = tm_min t" "tm_sec s = tm_sec t"
    using assms(1,2) eqs by (simp_all add: tm_valid_def)
qed

lemma date_text_inj:
  assumes "tm_valid s" and "tm_valid t" and "date_text s = date_text t"
  shows "s = t"
proof -
  have len: "length (date_tail s) = length (date_tail t)"
    by (simp add: date_tail_def lengths_valid [OF assms(1)] lengths_valid [OF assms(2)])
  have "fmt_d (tm_year s + 1900) @ date_tail s = fmt_d (tm_year t + 1900) @ date_tail t"
    using assms(3) by (simp add: date_text_def date_tail_def)
  with len have "fmt_d (tm_year s + 1900) = fmt_d (tm_year t + 1900)" "date_tail s = date_tail t"
    by simp_all
  then show ?thesis
    using date_tail_inj [OF assms(1,2)] fmt_d_inj [of "tm_year s + 1900" "tm_year t + 1900"] by simp
qed

section \<open>Properties\<close>

text \<open>
  What \<^verbatim>\<open>time64_to_tm\<close> promises: the broken-down time of the seconds plus the offset, with its fields in
  range; different seconds have different broken-down times.
\<close>

definition breaks_down :: "(int \<Rightarrow> int \<Rightarrow> tm) \<Rightarrow> bool" where
  "breaks_down f \<longleftrightarrow>
     (\<forall>secs off. tm_valid (f secs off)) \<and>
     (\<forall>secs off secs' off'. f secs off = f secs' off' \<longleftrightarrow> secs + off = secs' + off')"

definition local_seconds :: "time_env \<Rightarrow> int" where
  "local_seconds env = g_ktime_get_real_seconds env - 60 * g_tz_minuteswest env"

interpretation datetime_module: kernel_module datetime_init "\<lambda>_. datetime_exit" kdelta
  by unfold_locales (simp_all add: balanced_def datetime_init_def datetime_exit_def info_def Let_def)

lemma date_line:
  "logs (fst (datetime_init env)) =
     [pr KERN_INFO ''datetime'' (''sys_tz.tz_minuteswest = '' @ fmt_d (g_tz_minuteswest env) @ nl),
      pr KERN_INFO ''datetime'' (''sys_tz.tz_dsttime = '' @ fmt_d (g_tz_dsttime env) @ nl),
      pr KERN_INFO ''datetime''
        (''Date and time: '' @ date_text (g_time64_to_tm env (g_ktime_get_real_seconds env) (- g_tz_minuteswest env * 60)) @ nl)]"
  by (simp add: datetime_init_def info_def Let_def)

text \<open>
  C39.  The date line is the local time: two loads, in whatever time zones, print the same date exactly when
  the clocks stand for the same local second, minutes west of Greenwich counting backwards.  In particular
  the text leaves no field ambiguous.
\<close>

theorem datetime_is_local_time:
  assumes "breaks_down f" and "g_time64_to_tm env = f" and "g_time64_to_tm env' = f"
  shows "last (logs (fst (datetime_init env))) = last (logs (fst (datetime_init env'))) \<longleftrightarrow>
    local_seconds env = local_seconds env'"
proof -
  let ?tm = "\<lambda>e. f (g_ktime_get_real_seconds e) (- g_tz_minuteswest e * 60)"
  have valid: "tm_valid (?tm e)" for e
    using assms(1) by (simp add: breaks_down_def)
  have "last (logs (fst (datetime_init env))) = last (logs (fst (datetime_init env'))) \<longleftrightarrow>
      date_text (?tm env) = date_text (?tm env')"
    by (simp add: date_line pr_def assms(2,3))
  also have "\<dots> \<longleftrightarrow> ?tm env = ?tm env'"
    by (rule iffI [OF date_text_inj [OF valid [of env] valid [of env']]]) (assumption, simp only:)
  also have "\<dots> \<longleftrightarrow> local_seconds env = local_seconds env'"
    using assms(1) by (simp add: breaks_down_def local_seconds_def mult.commute)
  finally show ?thesis .
qed

text \<open>A calendar whose months all have 31 days.\<close>

definition demo_tm :: "int \<Rightarrow> int \<Rightarrow> tm" where
  "demo_tm secs off =
     (let t = secs + off
      in \<lparr>tm_sec = t mod 60, tm_min = t div 60 mod 60, tm_hour = t div 60 div 60 mod 24,
          tm_mday = t div 60 div 60 div 24 mod 31 + 1, tm_mon = t div 60 div 60 div 24 div 31 mod 12,
          tm_year = t div 60 div 60 div 24 div 31 div 12\<rparr>)"

lemma div_mod_inj: "0 < k \<Longrightarrow> (s :: int) div k = t div k \<Longrightarrow> s mod k = t mod k \<Longrightarrow> s = t"
  by (metis div_mult_mod_eq)

lemma demo_breaks_down: "breaks_down demo_tm"
proof -
  have "tm_valid (demo_tm secs off)" for secs off
    by (simp add: tm_valid_def demo_tm_def Let_def pos_mod_bound less_imp_le zle_add1_eq_le)
  moreover have "demo_tm secs off = demo_tm secs' off' \<longleftrightarrow> secs + off = secs' + off'" for secs off secs' off'
  proof
    assume eq: "demo_tm secs off = demo_tm secs' off'"
    let ?s = "secs + off" and ?t = "secs' + off'"
    from eq have f: "?s mod 60 = ?t mod 60" "?s div 60 mod 60 = ?t div 60 mod 60"
      "?s div 60 div 60 mod 24 = ?t div 60 div 60 mod 24"
      "?s div 60 div 60 div 24 mod 31 = ?t div 60 div 60 div 24 mod 31"
      "?s div 60 div 60 div 24 div 31 mod 12 = ?t div 60 div 60 div 24 div 31 mod 12"
      "?s div 60 div 60 div 24 div 31 div 12 = ?t div 60 div 60 div 24 div 31 div 12"
      by (simp_all add: demo_tm_def Let_def del: zdiv_zmult2_eq)
    have "?s div 60 div 60 div 24 div 31 = ?t div 60 div 60 div 24 div 31"
      by (rule div_mod_inj [OF _ f(6,5)]) simp
    then have "?s div 60 div 60 div 24 = ?t div 60 div 60 div 24"
      by (rule div_mod_inj [OF _ _ f(4), rotated]) simp
    then have "?s div 60 div 60 = ?t div 60 div 60"
      by (rule div_mod_inj [OF _ _ f(3), rotated]) simp
    then have "?s div 60 = ?t div 60"
      by (rule div_mod_inj [OF _ _ f(2), rotated]) simp
    then show "?s = ?t"
      by (rule div_mod_inj [OF _ _ f(1), rotated]) simp
  qed (simp add: demo_tm_def)
  ultimately show ?thesis by (simp add: breaks_down_def)
qed

text \<open>One hour west of Greenwich at 7200 seconds, and Greenwich at 3600.\<close>

theorem datetime_is_local_time_witness:
  "last (logs (fst (datetime_init \<lparr>g_tz_minuteswest = 60, g_tz_dsttime = 0, g_ktime_get_real_seconds = 7200,
      g_time64_to_tm = demo_tm\<rparr>))) =
   last (logs (fst (datetime_init \<lparr>g_tz_minuteswest = 0, g_tz_dsttime = 0, g_ktime_get_real_seconds = 3600,
      g_time64_to_tm = demo_tm\<rparr>)))"
  by (subst datetime_is_local_time [OF demo_breaks_down]) (simp_all add: local_seconds_def)

end
