(* ===== verification/Myinit.thy ===== *)
theory Myinit
  imports Libc
begin

text \<open>
  \<^verbatim>\<open>myinit/init.c\<close>: the first process of the test machine.  It mounts three file systems, opens the
  console, runs a shell, waits, and powers the machine off.  The results of the system calls are
  parameters; each call is made at most once per file system, so that its target determines it.
\<close>

section \<open>The system as the program sees it\<close>

text \<open>
  A failing call is the value of \<^verbatim>\<open>errno\<close>.  \<^verbatim>\<open>wait\<close> may fail, return the pid and status of a child that
  ended, or never return; \<^verbatim>\<open>reboot\<close> does not return when it succeeds (\<open>None\<close>).
\<close>

datatype waited = Wait_failed int | Reaped nat u32 | Waits_forever

record init_env =
  i_mkdir :: "string \<Rightarrow> int option"
  i_mount :: "string \<Rightarrow> int option"
  i_freopen :: "int option"
  i_vfork :: "int + nat"
  i_execl :: "int option"
  i_wait :: waited
  i_reboot :: "int option"
  i_strerror :: "int \<Rightarrow> string"

datatype ievent =
  Err string
| Mkdir string nat
| Mount string string string int "nat option"
| Freopen string
| Vfork
| Execl string "string list"
| Child_err string
| Child_exit int
| Wait
| Sync
| Reboot u32

datatype halt = Powered_off | Blocked | Exited int

type_synonym 'a irun = "(ievent, halt, 'a) run"

definition EEXIST :: int where "EEXIST = 17"
definition LINUX_REBOOT_CMD_POWER_OFF :: u32 where "LINUX_REBOOT_CMD_POWER_OFF = 0x4321fedc"

text \<open>The macros that read a wait status.\<close>

definition WTERMSIG :: "u32 \<Rightarrow> u32" where "WTERMSIG s = s AND 0x7f"
definition WIFEXITED :: "u32 \<Rightarrow> bool" where "WIFEXITED s \<longleftrightarrow> WTERMSIG s = 0"
definition WEXITSTATUS :: "u32 \<Rightarrow> u32" where "WEXITSTATUS s = drop_bit 8 (s AND 0xff00)"
definition WIFSIGNALED :: "u32 \<Rightarrow> bool" where "WIFSIGNALED s \<longleftrightarrow> WTERMSIG s \<noteq> 0 \<and> WTERMSIG s \<noteq> 0x7f"

section \<open>Messages\<close>

definition LOG_PREFIX :: string where "LOG_PREFIX = ''[init] ''"

definition log_text :: "string \<Rightarrow> string" where
  "log_text msg = LOG_PREFIX @ msg"

definition perror_text :: "init_env \<Rightarrow> string \<Rightarrow> int \<Rightarrow> string" where
  "perror_text env msg errno = LOG_PREFIX @ msg @ '': '' @ i_strerror env errno @ nl"

section \<open>Mounts\<close>

text \<open>The last argument of \<^verbatim>\<open>mount\<close> is a pointer, null in every entry.\<close>

record mount =
  m_src :: string
  m_target :: string
  m_fs_type :: string
  m_flags :: int
  m_data :: "nat option"

definition mounts :: "mount list" where
  "mounts =
     [\<lparr>m_src = ''nodev'', m_target = ''/proc'', m_fs_type = ''proc'', m_flags = 0, m_data = None\<rparr>,
      \<lparr>m_src = ''nodev'', m_target = ''/sys'', m_fs_type = ''sysfs'', m_flags = 0, m_data = None\<rparr>,
      \<lparr>m_src = ''nodev'', m_target = ''/sys/kernel/debug'', m_fs_type = ''debugfs'', m_flags = 0, m_data = None\<rparr>]"

definition mode_0555 :: nat where "mode_0555 = 5 * 8 ^ 2 + 5 * 8 + 5"

fun mount_loop :: "init_env \<Rightarrow> mount list \<Rightarrow> ievent list" where
  "mount_loop env [] = []"
| "mount_loop env (m # ms) =
     Mkdir (m_target m) mode_0555 #
     (let rest =
        Mount (m_src m) (m_target m) (m_fs_type m) (m_flags m) (m_data m) #
        (case i_mount env (m_target m) of
           None \<Rightarrow> []
         | Some errno \<Rightarrow>
             [Err (log_text (''Failed to mount '' @ m_fs_type m @ '' at '' @ m_target m @ '': '' @ i_strerror env errno @ nl))]) @
        mount_loop env ms
      in case i_mkdir env (m_target m) of
           None \<Rightarrow> rest
         | Some errno \<Rightarrow>
             if errno \<noteq> EEXIST
             then [Err (log_text (''Failed to create '' @ m_target m @ '': '' @ i_strerror env errno @ nl))]
             else rest)"

definition do_mounts :: "init_env \<Rightarrow> unit irun" where
  "do_mounts env = emit (mount_loop env mounts)"

section \<open>Console, shell and shutdown\<close>

definition open_console :: "init_env \<Rightarrow> unit irun" where
  "open_console env =
     emit (Freopen ''/dev/console'' #
       (case i_freopen env of
          None \<Rightarrow> []
        | Some errno \<Rightarrow> [Err (perror_text env ''Failed to open /dev/console as stdin'' errno)]))"

text \<open>The child runs until it has become the shell or has exited; only then does the parent go on.\<close>

definition child :: "init_env \<Rightarrow> ievent list" where
  "child env =
     Execl ''/linuxrc'' [''sh'', ''+m''] #
     (case i_execl env of
        None \<Rightarrow> []
      | Some errno \<Rightarrow> [Child_err (perror_text env ''Child shell execl failed'' errno), Child_exit 69])"

definition status_text :: "u32 \<Rightarrow> string" where
  "status_text wstatus =
     log_text
       (if WIFEXITED wstatus then ''Child exited with status '' @ fmt_u (unat (WEXITSTATUS wstatus)) @ ''.'' @ nl
        else if WIFSIGNALED wstatus then ''Child terminated by signal '' @ fmt_u (unat (WTERMSIG wstatus)) @ ''.'' @ nl
        else ''WTF?'' @ nl)"

definition fork_into_shell_and_wait :: "init_env \<Rightarrow> unit irun" where
  "fork_into_shell_and_wait env =
     thenR (emit [Vfork])
       (case i_vfork env of
          Inl errno \<Rightarrow> emit [Err (perror_text env ''vfork failed'' errno)]
        | Inr pid \<Rightarrow>
            thenR (emit (child env @ [Wait]))
              (case i_wait env of
                 Waits_forever \<Rightarrow> stop Blocked
               | Wait_failed errno \<Rightarrow> emit [Err (perror_text env ''Child shell wait failed'' errno)]
               | Reaped _ wstatus \<Rightarrow> emit [Err (status_text wstatus)]))"

definition shutdown :: "init_env \<Rightarrow> unit irun" where
  "shutdown env =
     thenR (emit [Sync, Reboot LINUX_REBOOT_CMD_POWER_OFF])
       (case i_reboot env of
          None \<Rightarrow> stop Powered_off
        | Some errno \<Rightarrow> thenR (emit [Err (perror_text env ''reboot failed'' errno)]) (stop (Exited 1)))"

definition main :: "init_env \<Rightarrow> int irun" where
  "main env =
     thenR (emit [Err (log_text (''Yo wassup!'' @ nl))])
     (thenR (do_mounts env)
     (thenR (open_console env)
     (thenR (fork_into_shell_and_wait env)
     (thenR (shutdown env)
     (ret 1)))))"

section \<open>Properties\<close>

text \<open>The directory is there, made now or before.\<close>

definition dir_ok :: "init_env \<Rightarrow> mount \<Rightarrow> bool" where
  "dir_ok env m \<longleftrightarrow> i_mkdir env (m_target m) = None \<or> i_mkdir env (m_target m) = Some EEXIST"

text \<open>The calls of \<^verbatim>\<open>mount\<close> in a trace.\<close>

fun mount_calls :: "ievent list \<Rightarrow> (string \<times> string) list" where
  "mount_calls [] = []"
| "mount_calls (Mount src target fs flags data # es) = (target, fs) # mount_calls es"
| "mount_calls (_ # es) = mount_calls es"

lemma mount_calls_append [simp]: "mount_calls (es @ fs) = mount_calls es @ mount_calls fs"
  by (induction es rule: mount_calls.induct) simp_all

lemma mount_calls_loop:
  "mount_calls (mount_loop env ms) = map (\<lambda>m. (m_target m, m_fs_type m)) (takeWhile (dir_ok env) ms)"
  by (induction ms) (auto simp: dir_ok_def Let_def split: option.splits)

text \<open>The program has got past waiting: there is no shell, or the wait is over.\<close>

definition wait_over :: "init_env \<Rightarrow> bool" where
  "wait_over env \<longleftrightarrow> (\<forall>pid. i_vfork env = Inr pid \<longrightarrow> i_wait env \<noteq> Waits_forever)"

text \<open>What comes before the end: everything up to the message about the child.\<close>

definition before_shutdown :: "init_env \<Rightarrow> ievent list" where
  "before_shutdown env =
     Err (log_text (''Yo wassup!'' @ nl)) # mount_loop env mounts @ fst (open_console env) @ fst (fork_into_shell_and_wait env)"

lemmas init_simps = do_mounts_def open_console_def fork_into_shell_and_wait_def shutdown_def run_simps

lemma main_wait_over:
  assumes "wait_over env"
  shows "main env = (before_shutdown env @ fst (shutdown env), map_sum id (\<lambda>_. 1) (snd (shutdown env)))"
proof -
  have "snd (fork_into_shell_and_wait env) = Inr ()"
    using assms
    by (cases "i_vfork env"; cases "i_wait env") (auto simp: init_simps wait_over_def)
  then show ?thesis
    unfolding main_def before_shutdown_def
    by (simp add: do_mounts_def open_console_def thenR_def bindR_def emit_def ret_def split: sum.splits)
qed

lemma main_blocked:
  assumes "\<not> wait_over env"
  shows "main env = (before_shutdown env, Inl Blocked)"
proof -
  have "snd (fork_into_shell_and_wait env) = Inl Blocked"
    using assms by (auto simp: init_simps wait_over_def)
  then show ?thesis
    unfolding main_def before_shutdown_def
    by (simp add: do_mounts_def open_console_def thenR_def bindR_def emit_def)
qed

lemma shutdown_eq:
  "fst (shutdown env) = [Sync, Reboot LINUX_REBOOT_CMD_POWER_OFF] @
     (case i_reboot env of None \<Rightarrow> [] | Some e \<Rightarrow> [Err (perror_text env ''reboot failed'' e)])"
  "snd (shutdown env) = (case i_reboot env of None \<Rightarrow> Inl Powered_off | Some e \<Rightarrow> Inl (Exited 1))"
  by (auto simp: shutdown_def thenR_def bindR_def emit_def stop_def split: option.splits)

definition ends_machine :: "ievent \<Rightarrow> bool" where
  "ends_machine e \<longleftrightarrow> e = Sync \<or> (\<exists>c. e = Reboot c)"

lemma mount_loop_quiet: "e \<in> set (mount_loop env ms) \<Longrightarrow> \<not> ends_machine e"
  by (induction ms) (auto simp: ends_machine_def Let_def split: option.splits if_splits)

lemma before_shutdown_quiet: "e \<in> set (before_shutdown env) \<Longrightarrow> \<not> ends_machine e"
proof -
  assume "e \<in> set (before_shutdown env)"
  then consider "e \<in> set (mount_loop env mounts)" | "e \<in> set (fst (open_console env))"
    | "e \<in> set (fst (fork_into_shell_and_wait env))" | "e = Err (log_text (''Yo wassup!'' @ nl))"
    by (auto simp: before_shutdown_def)
  then show ?thesis
  proof cases
    case 1
    then show ?thesis by (rule mount_loop_quiet)
  qed (auto simp: ends_machine_def init_simps child_def split: option.splits sum.splits waited.splits)
qed

text \<open>
  C14.  The process never returns from \<^verbatim>\<open>main\<close>.  Whatever fails before, as soon as the wait is over it
  flushes the file systems once, then powers off, and does neither before that; if the power-off is
  refused it reports that and exits with 1.  While it waits it does nothing.
\<close>

theorem init_powers_off:
  "\<exists>pre. (\<forall>e \<in> set pre. \<not> ends_machine e) \<and>
    main env =
      (if wait_over env
       then (case i_reboot env of
               None \<Rightarrow> (pre @ [Sync, Reboot LINUX_REBOOT_CMD_POWER_OFF], Inl Powered_off)
             | Some e \<Rightarrow> (pre @ [Sync, Reboot LINUX_REBOOT_CMD_POWER_OFF, Err (perror_text env ''reboot failed'' e)],
                          Inl (Exited 1)))
       else (pre, Inl Blocked))"
proof (intro exI conjI ballI)
  show "main env =
      (if wait_over env
       then (case i_reboot env of
               None \<Rightarrow> (before_shutdown env @ [Sync, Reboot LINUX_REBOOT_CMD_POWER_OFF], Inl Powered_off)
             | Some e \<Rightarrow> (before_shutdown env @ [Sync, Reboot LINUX_REBOOT_CMD_POWER_OFF,
                            Err (perror_text env ''reboot failed'' e)], Inl (Exited 1)))
       else (before_shutdown env, Inl Blocked))"
    by (simp add: main_wait_over main_blocked shutdown_eq split: option.splits)
qed (rule before_shutdown_quiet)

text \<open>A machine on which everything works and the shell exits with status 3.\<close>

definition demo_init :: init_env where
  "demo_init =
     \<lparr>i_mkdir = (\<lambda>_. None), i_mount = (\<lambda>_. None), i_freopen = None, i_vfork = Inr 2, i_execl = None,
      i_wait = Reaped 2 0x300, i_reboot = None, i_strerror = (\<lambda>_. ''error'')\<rparr>"

theorem init_powers_off_witness:
  "\<exists>pre. (\<forall>e \<in> set pre. \<not> ends_machine e) \<and>
    main demo_init = (pre @ [Sync, Reboot LINUX_REBOOT_CMD_POWER_OFF], Inl Powered_off)"
  using init_powers_off [of demo_init] by (simp add: wait_over_def demo_init_def)

text \<open>
  File systems are mounted in order up to the first directory that cannot be made; one that exists
  already is as good.  A failing \<^verbatim>\<open>mount\<close> does not keep the others from being mounted, a failing \<^verbatim>\<open>mkdir\<close> does.
\<close>

theorem init_mounts:
  "mount_calls (fst (main env)) =
     map (\<lambda>m. (m_target m, m_fs_type m)) (takeWhile (dir_ok env) mounts)"
proof -
  have "mount_calls (fst (open_console env)) = []" "mount_calls (fst (fork_into_shell_and_wait env)) = []"
    "mount_calls (fst (shutdown env)) = []"
    by (auto simp: init_simps child_def split: option.splits sum.splits waited.splits)
  then show ?thesis
    by (cases "wait_over env")
      (simp_all add: main_wait_over main_blocked before_shutdown_def mount_calls_loop)
qed

text \<open>Only the shell part looks at the result of \<^verbatim>\<open>wait\<close>, and there only at the status.\<close>

lemma perror_text_wait [simp]: "perror_text (env\<lparr>i_wait := w\<rparr>) s e = perror_text env s e"
  by (simp add: perror_text_def)

lemma mount_loop_wait [simp]: "mount_loop (env\<lparr>i_wait := w\<rparr>) ms = mount_loop env ms"
  by (induction ms) (simp_all add: Let_def cong: option.case_cong if_cong)

lemma parts_wait [simp]:
  "do_mounts (env\<lparr>i_wait := w\<rparr>) = do_mounts env" "open_console (env\<lparr>i_wait := w\<rparr>) = open_console env"
  "shutdown (env\<lparr>i_wait := w\<rparr>) = shutdown env" "child (env\<lparr>i_wait := w\<rparr>) = child env"
  by (simp_all add: do_mounts_def open_console_def shutdown_def child_def cong: option.case_cong)

lemma fork_wait_pid:
  assumes "i_wait env = Reaped p status"
  shows "fork_into_shell_and_wait (env\<lparr>i_wait := Reaped q status\<rparr>) = fork_into_shell_and_wait env"
  using assms by (simp add: fork_into_shell_and_wait_def cong: sum.case_cong)

text \<open>
  The wait is over when \<^emph>\<open>any\<close> child has ended: the pid is not looked at.  For the first process that
  is every orphan of the machine, so that the end of one powers the machine off while the shell, which
  has another pid, is running.
\<close>

theorem init_powers_off_on_any_child:
  assumes "i_vfork env = Inr shell" and "i_wait env = Reaped p status" and "i_reboot env = None"
  shows "snd (main env) = Inl Powered_off \<and>
    Err (status_text status) \<in> set (fst (main env)) \<and> main (env\<lparr>i_wait := Reaped q status\<rparr>) = main env"
proof (intro conjI)
  have over: "wait_over env"
    using assms(2) by (simp add: wait_over_def)
  show "snd (main env) = Inl Powered_off"
    by (simp add: main_wait_over [OF over] shutdown_eq assms(3))
  show "Err (status_text status) \<in> set (fst (main env))"
    by (simp add: main_wait_over [OF over] before_shutdown_def fork_into_shell_and_wait_def assms(1,2) emit_def thenR_def)
  show "main (env\<lparr>i_wait := Reaped q status\<rparr>) = main env"
    by (simp add: main_def fork_wait_pid [OF assms(2)])
qed

text \<open>The shell is process 2; the orphan that ends is process 77.\<close>

theorem init_powers_off_on_any_child_witness:
  "snd (main (demo_init\<lparr>i_wait := Reaped 77 0\<rparr>)) = Inl Powered_off \<and>
   Err (''[init] Child exited with status 0.'' @ nl) \<in> set (fst (main (demo_init\<lparr>i_wait := Reaped 77 0\<rparr>)))"
proof -
  have "status_text 0 = ''[init] Child exited with status 0.'' @ nl"
    by (simp add: status_text_def log_text_def LOG_PREFIX_def WIFEXITED_def WTERMSIG_def WEXITSTATUS_def fmt_u_def
        digits_of.simps hexdig_def char_of_def bit_0)
  moreover have "i_vfork (demo_init\<lparr>i_wait := Reaped 77 0\<rparr>) = Inr 2" "i_reboot (demo_init\<lparr>i_wait := Reaped 77 0\<rparr>) = None"
    by (simp_all add: demo_init_def)
  ultimately show ?thesis
    using init_powers_off_on_any_child [of "demo_init\<lparr>i_wait := Reaped 77 0\<rparr>" 2 77 0 2] by simp
qed

end
