(* ===== verification/Ftrace_Helper.thy ===== *)
theory Ftrace_Helper
  imports Libc "HOL-Library.Sublist"
begin

text \<open>
  \<^verbatim>\<open>userspace/ftrace_helper.c\<close>: setting up the function tracer through tracefs, tracing, and copying the
  trace to standard output.  The kernel's side is a state of any type with what opening and writing a
  file does to it as parameters.
\<close>

section \<open>tracefs as the program sees it\<close>

text \<open>
  \<open>k_open path trunc s\<close> opens for writing, with or without \<^verbatim>\<open>O_TRUNC\<close>: the value of \<^verbatim>\<open>errno\<close> if it
  fails, and the new state.  \<open>k_write path data s\<close> gives the count that \<^verbatim>\<open>write\<close> returns, \<^verbatim>\<open>errno\<close> and the
  new state.  \<open>k_trace s\<close> is the trace as it is read.
\<close>

record 's tracefs =
  k_open :: "string \<Rightarrow> bool \<Rightarrow> 's \<Rightarrow> int option \<times> 's"
  k_write :: "string \<Rightarrow> string \<Rightarrow> 's \<Rightarrow> int \<times> int \<times> 's"
  k_fopen_trace :: "'s \<Rightarrow> int option"
  k_trace :: "'s \<Rightarrow> string"
  k_getpid :: int
  k_strerror :: "int \<Rightarrow> string"

type_synonym ('s, 'a) traced = "(uevent, uexit, 'a \<times> 's) run"

definition tracefs_file :: "string \<Rightarrow> string" where
  "tracefs_file name = ''/sys/kernel/tracing/'' @ name"

section \<open>Writing to a file\<close>

definition errf_exit :: "'s tracefs \<Rightarrow> string \<Rightarrow> int \<Rightarrow> ('s, 'a) traced" where
  "errf_exit k msg errno =
     thenR (emit [Stderr msg, Stderr ('': errno '' @ fmt_d errno @ '' '' @ k_strerror k errno @ nl)]) (stop (Exit 1))"

definition open_write_close :: "'s tracefs \<Rightarrow> string \<Rightarrow> string \<Rightarrow> 's \<Rightarrow> ('s, unit) traced" where
  "open_write_close k path data s =
     (case k_open k path False s of
        (Some errno, s1) \<Rightarrow> errf_exit k (''open '' @ quot @ path @ quot @ '' failed'') errno
      | (None, s1) \<Rightarrow>
          thenR (emit [Opened path])
            (case k_write k path data s1 of
               (n, errno, s2) \<Rightarrow>
                 if n \<noteq> int (length data)
                 then errf_exit k (''write to '' @ quot @ path @ quot @ '' failed'') errno
                 else thenR (emit [Closed path]) (ret ((), s2))))"

definition set_tracer :: "'s tracefs \<Rightarrow> string \<Rightarrow> 's \<Rightarrow> ('s, unit) traced" where
  "set_tracer k name = open_write_close k (tracefs_file ''current_tracer'') name"

definition set_filter :: "'s tracefs \<Rightarrow> string \<Rightarrow> 's \<Rightarrow> ('s, unit) traced" where
  "set_filter k name = open_write_close k (tracefs_file ''set_ftrace_filter'') name"

text \<open>The buffer of 32 bytes is large enough for any \<^verbatim>\<open>int\<close>; see \<open>pid_text_fits\<close>.\<close>

definition set_pid :: "'s tracefs \<Rightarrow> int \<Rightarrow> 's \<Rightarrow> ('s, unit) traced" where
  "set_pid k pid = open_write_close k (tracefs_file ''set_ftrace_pid'') (fmt_d pid)"

definition clear_trace :: "'s tracefs \<Rightarrow> 's \<Rightarrow> ('s, unit) traced" where
  "clear_trace k = open_write_close k (tracefs_file ''trace'') nl"

text \<open>\<^verbatim>\<open>tracing_on\<close> is opened once, and written to through its descriptor.\<close>

definition write_tracing_on :: "'s tracefs \<Rightarrow> string \<Rightarrow> 's \<Rightarrow> ('s, unit) traced" where
  "write_tracing_on k data s =
     (case k_write k (tracefs_file ''tracing_on'') data s of
        (n, errno, s1) \<Rightarrow>
          if n \<noteq> 1 then errf_exit k (''write to '' @ quot @ tracefs_file ''tracing_on'' @ quot @ '' failed'') errno
          else ret ((), s1))"

definition start_tracing :: "'s tracefs \<Rightarrow> 's \<Rightarrow> ('s, unit) traced" where
  "start_tracing k = write_tracing_on k ''1''"

definition stop_tracing :: "'s tracefs \<Rightarrow> 's \<Rightarrow> ('s, unit) traced" where
  "stop_tracing k = write_tracing_on k ''0''"

section \<open>Copying the trace\<close>

text \<open>\<^verbatim>\<open>fread(buf, 1, sizeof(buf), fp)\<close> on what is left of the stream, until it returns 0.\<close>

function dump_loop :: "string \<Rightarrow> uevent list" where
  "dump_loop rest =
     (let buf = take 0x100 rest
      in if length buf \<noteq> 0 then Stdout buf # dump_loop (drop 0x100 rest) else [])"
  by pat_completeness auto
termination
  by (relation "measure length") auto

declare dump_loop.simps [simp del]

definition dump_trace :: "'s tracefs \<Rightarrow> 's \<Rightarrow> ('s, unit) traced" where
  "dump_trace k s =
     (case k_fopen_trace k s of
        Some errno \<Rightarrow> errf_exit k (''fopen '' @ quot @ tracefs_file ''trace'' @ quot @ '' failed'') errno
      | None \<Rightarrow>
          thenR (emit ([Opened (tracefs_file ''trace'')] @ dump_loop (k_trace k s) @ [Closed (tracefs_file ''trace'')]))
            (ret ((), s)))"

section \<open>The program\<close>

definition and_then :: "('s, unit) traced \<Rightarrow> ('s \<Rightarrow> ('s, 'b) traced) \<Rightarrow> ('s, 'b) traced" where
  "and_then m f = bindR m (\<lambda>(_, s). f s)"

definition main :: "'s tracefs \<Rightarrow> 's \<Rightarrow> ('s, int) traced" where
  "main k s =
     (case k_open k (tracefs_file ''tracing_on'') False s of
        (Some errno, s1) \<Rightarrow> errf_exit k (''open '' @ quot @ tracefs_file ''tracing_on'' @ quot @ '' failed'') errno
      | (None, s1) \<Rightarrow>
          thenR (emit [Opened (tracefs_file ''tracing_on'')])
          (and_then (stop_tracing k s1) (\<lambda>s.
           and_then (clear_trace k s) (\<lambda>s.
           and_then (set_tracer k ''function'' s) (\<lambda>s.
           and_then (set_pid k (k_getpid k) s) (\<lambda>s.
           and_then (set_filter k nl s) (\<lambda>s.
           and_then (start_tracing k s) (\<lambda>s.
           and_then (stop_tracing k s) (\<lambda>s.
           and_then (dump_trace k s) (\<lambda>s.
           ret (0, s)))))))))))"

section \<open>The copy\<close>

lemma dump_loop_Nil [simp]: "dump_loop [] = []"
  by (simp add: dump_loop.simps)

lemma dump_loop_step: "rest \<noteq> [] \<Longrightarrow> dump_loop rest = Stdout (take 0x100 rest) # dump_loop (drop 0x100 rest)"
  by (subst dump_loop.simps) (simp add: Let_def)

lemma stdout_dump_loop: "stdout_of (dump_loop rest) = rest"
proof (induction rest rule: dump_loop.induct)
  case (1 rest)
  then show ?case
    by (cases "rest = []") (simp_all add: dump_loop_step)
qed

lemma length_dump_loop: "length (dump_loop rest) = (length rest + 0xff) div 0x100"
proof (induction rest rule: dump_loop.induct)
  case (1 rest)
  show ?case
  proof (cases "rest = []")
    case False
    have "Suc ((n - 0x100 + 0xff) div 0x100) = (n + 0xff) div 0x100" if "0 < n" for n :: nat
    proof (cases "n \<le> 0x100")
      case True
      with that have "(n - 0x100 + 0xff) div 0x100 = 0" "n + 0xff = 0x100 + (n - 1)" "(n - 1) div 0x100 = 0" by simp_all
      then show ?thesis by simp
    next
      case False
      then have "n + 0xff = 0x100 + (n - 0x100 + 0xff)" by simp
      then show ?thesis by simp
    qed
    from this [of "length rest"] 1 [OF refl] False show ?thesis
      by (simp add: dump_loop_step)
  qed simp
qed

lemma dump_loop_chunks: "e \<in> set (dump_loop rest) \<Longrightarrow> \<exists>buf. e = Stdout buf \<and> buf \<noteq> [] \<and> length buf \<le> 0x100"
proof (induction rest rule: dump_loop.induct)
  case (1 rest)
  then show ?case
    by (cases "rest = []") (auto simp: dump_loop_step)
qed

text \<open>
  C15.  The copy loop ends, after a number of rounds that is the length of the trace divided by the buffer's
  size, rounded up; no round writes more than the buffer holds; and what is written is the trace, byte for
  byte.
\<close>

theorem dump_trace_copies:
  assumes "k_fopen_trace k s = None"
  shows "\<exists>bufs. dump_trace k s =
      ([Opened (tracefs_file ''trace'')] @ map Stdout bufs @ [Closed (tracefs_file ''trace'')], Inr ((), s)) \<and>
    concat bufs = k_trace k s \<and> length bufs = (length (k_trace k s) + 0xff) div 0x100 \<and>
    list_all (\<lambda>buf. 0 < length buf \<and> length buf \<le> 0x100) bufs"
proof -
  let ?d = "dump_loop (k_trace k s)"
  define bufs where "bufs = map (\<lambda>e. case e of Stdout b \<Rightarrow> b | _ \<Rightarrow> []) ?d"
  have all: "\<forall>e \<in> set ?d. \<exists>buf. e = Stdout buf \<and> buf \<noteq> [] \<and> length buf \<le> 0x100"
    using dump_loop_chunks by blast
  then have d: "?d = map Stdout bufs"
    unfolding bufs_def map_map by (intro map_idI [symmetric]) auto
  have "stdout_of (map Stdout bs) = concat bs" for bs
    by (induction bs) simp_all
  then have "concat bufs = k_trace k s"
    using stdout_dump_loop [of "k_trace k s"] d by simp
  moreover have "list_all (\<lambda>buf. 0 < length buf \<and> length buf \<le> 0x100) bufs"
    using all by (auto simp: bufs_def list_all_iff)
  moreover have "length bufs = (length (k_trace k s) + 0xff) div 0x100"
    by (simp add: bufs_def length_dump_loop)
  moreover have "dump_trace k s =
      ([Opened (tracefs_file ''trace'')] @ map Stdout bufs @ [Closed (tracefs_file ''trace'')], Inr ((), s))"
    using assms d by (simp add: dump_trace_def ret_def)
  ultimately show ?thesis by blast
qed

section \<open>A run in which every call succeeds\<close>

definition all_succeed :: "'s tracefs \<Rightarrow> bool" where
  "all_succeed k \<longleftrightarrow>
     (\<forall>path s. fst (k_open k path False s) = None) \<and>
     (\<forall>path data s. fst (k_write k path data s) = int (length data)) \<and>
     (\<forall>s. k_fopen_trace k s = None)"

text \<open>The state after opening a file, after writing through a descriptor, and after both.\<close>

definition opened :: "'s tracefs \<Rightarrow> string \<Rightarrow> 's \<Rightarrow> 's" where
  "opened k name s = snd (k_open k (tracefs_file name) False s)"

definition wrote :: "'s tracefs \<Rightarrow> string \<Rightarrow> string \<Rightarrow> 's \<Rightarrow> 's" where
  "wrote k name data s = snd (snd (k_write k (tracefs_file name) data s))"

definition put :: "'s tracefs \<Rightarrow> string \<times> string \<Rightarrow> 's \<Rightarrow> 's" where
  "put k c s = wrote k (fst c) (snd c) (opened k (fst c) s)"

text \<open>The set-up as a list of file contents to write.\<close>

definition set_up :: "'s tracefs \<Rightarrow> (string \<times> string) list" where
  "set_up k = [(''trace'', nl), (''current_tracer'', ''function''), (''set_ftrace_pid'', fmt_d (k_getpid k)),
     (''set_ftrace_filter'', nl)]"

definition traced_state :: "'s tracefs \<Rightarrow> 's \<Rightarrow> 's" where
  "traced_state k s =
     wrote k ''tracing_on'' ''0'' (wrote k ''tracing_on'' ''1''
       (fold (put k) (set_up k) (wrote k ''tracing_on'' ''0'' (opened k ''tracing_on'' s))))"

lemma open_write_close_ok:
  assumes "all_succeed k"
  shows "open_write_close k (tracefs_file name) data s =
    ([Opened (tracefs_file name), Closed (tracefs_file name)], Inr ((), put k (name, data) s))"
proof -
  obtain s1 where "k_open k (tracefs_file name) False s = (None, s1)"
    using assms by (metis all_succeed_def prod.collapse)
  moreover obtain errno s2 where "k_write k (tracefs_file name) data s1 = (int (length data), errno, s2)"
    using assms by (metis all_succeed_def prod.collapse)
  ultimately show ?thesis
    by (simp add: open_write_close_def put_def wrote_def opened_def ret_def)
qed

lemma write_tracing_on_ok:
  assumes "all_succeed k" and "length data = 1"
  shows "write_tracing_on k data s = ([], Inr ((), wrote k ''tracing_on'' data s))"
proof -
  obtain errno s2 where "k_write k (tracefs_file ''tracing_on'') data s = (int (length data), errno, s2)"
    using assms by (metis all_succeed_def prod.collapse)
  with assms(2) show ?thesis
    by (simp add: write_tracing_on_def wrote_def ret_def)
qed

lemma dump_trace_ok:
  "all_succeed k \<Longrightarrow> dump_trace k s =
     ([Opened (tracefs_file ''trace'')] @ dump_loop (k_trace k s) @ [Closed (tracefs_file ''trace'')], Inr ((), s))"
  by (simp add: dump_trace_def all_succeed_def ret_def)

lemma and_then_Inr [simp]: "and_then (es, Inr ((), s)) f = (es @ fst (f s), snd (f s))"
  by (simp add: and_then_def)

text \<open>The events of the set-up.\<close>

definition set_up_events :: "'s tracefs \<Rightarrow> uevent list" where
  "set_up_events k =
     concat (map (\<lambda>c. [Opened (tracefs_file (fst c)), Closed (tracefs_file (fst c))]) (set_up k))"

lemma main_ok:
  assumes "all_succeed k"
  shows "main k s =
    (Opened (tracefs_file ''tracing_on'') # set_up_events k @ fst (dump_trace k (traced_state k s)),
     Inr (0, traced_state k s))"
proof -
  have op: "k_open k (tracefs_file ''tracing_on'') False s = (None, opened k ''tracing_on'' s)"
    using assms by (simp add: all_succeed_def opened_def prod_eq_iff)
  show ?thesis
    unfolding main_def op traced_state_def set_up_events_def set_up_def
    by (simp add: stop_tracing_def start_tracing_def clear_trace_def set_tracer_def set_pid_def set_filter_def
        open_write_close_ok [OF assms] write_tracing_on_ok [OF assms] dump_trace_ok [OF assms] ret_def)
qed

lemma dump_loop_effects: "stderr_of (dump_loop rest) = []" "net file_delta (dump_loop rest) f = 0"
proof (induction rest rule: dump_loop.induct)
  case (1 rest)
  {
    case 1
    with \<open>\<And>x. \<lbrakk>x = take 0x100 rest; length x \<noteq> 0\<rbrakk> \<Longrightarrow> stderr_of (dump_loop (drop 0x100 rest)) = []\<close> show ?case
      by (cases "rest = []") (simp_all add: dump_loop_step)
  next
    case 2
    with \<open>\<And>x. \<lbrakk>x = take 0x100 rest; length x \<noteq> 0\<rbrakk> \<Longrightarrow> net file_delta (dump_loop (drop 0x100 rest)) f = 0\<close> show ?case
      by (cases "rest = []") (simp_all add: dump_loop_step)
  }
qed

text \<open>
  When no call fails, the program stops the tracer, writes the four settings in this order, traces
  between a start and a stop, and prints exactly the trace the kernel then has.  It exits with 0, writes no
  error, and has closed every file but \<^verbatim>\<open>tracing_on\<close>.
\<close>

theorem ftrace_helper_runs:
  assumes "all_succeed k"
  shows "\<exists>es. main k s = (es, Inr (0, traced_state k s)) \<and> stdout_of es = k_trace k (traced_state k s) \<and>
    stderr_of es = [] \<and> (\<forall>f. net file_delta es f = of_bool (f = tracefs_file ''tracing_on''))"
  using assms
  by (auto simp: main_ok dump_trace_ok set_up_events_def set_up_def stdout_dump_loop dump_loop_effects)

section \<open>Truncation\<close>

text \<open>
  The kernel's documentation (\<^verbatim>\<open>Documentation/trace/ftrace.rst\<close>) on the files that the program writes to: opening
  \<^verbatim>\<open>trace\<close> for writing with \<^verbatim>\<open>O_TRUNC\<close> clears the buffer, and so does changing the current tracer.  Apart from
  that, entries get lost only when the buffer is full: then new events replace the oldest ones of their CPU, and
  the kernel counts them (\<^verbatim>\<open>overrun\<close> in the statistics of the buffers).  \<open>entries\<close>, \<open>overrun\<close> and \<open>tracer\<close> read the
  recorded entries, that count and the current tracer off a state, and \<open>header\<close> the lines before the entries.
\<close>

definition control_files :: "string list" where
  "control_files = [''tracing_on'', ''trace'', ''current_tracer'', ''set_ftrace_pid'', ''set_ftrace_filter'']"

definition keeps :: "('s \<Rightarrow> string list) \<Rightarrow> ('s \<Rightarrow> nat) \<Rightarrow> ('s \<Rightarrow> string) \<Rightarrow> 's \<Rightarrow> 's \<Rightarrow> bool" where
  "keeps entries overrun tracer s s' \<longleftrightarrow>
     (\<exists>kept new. entries s' = kept @ new \<and> subseq kept (entries s) \<and>
        length (entries s) + overrun s \<le> length kept + overrun s') \<and> overrun s \<le> overrun s' \<and> tracer s' = tracer s"

definition documented ::
  "'s tracefs \<Rightarrow> ('s \<Rightarrow> string) \<Rightarrow> ('s \<Rightarrow> string list) \<Rightarrow> ('s \<Rightarrow> nat) \<Rightarrow> ('s \<Rightarrow> string) \<Rightarrow> bool" where
  "documented k header entries overrun tracer \<longleftrightarrow>
     (\<forall>s. k_trace k s = header s @ concat (entries s)) \<and>
     (\<forall>name s. name \<in> set control_files \<longrightarrow> keeps entries overrun tracer s (opened k name s)) \<and>
     (\<forall>name data s. name \<in> set control_files \<and> (name \<noteq> ''current_tracer'' \<or> data = tracer s) \<longrightarrow>
        keeps entries overrun tracer s (wrote k name data s))"

lemma keeps_trans:
  assumes "keeps entries overrun tracer s t" and "keeps entries overrun tracer t u"
  shows "keeps entries overrun tracer s u"
proof -
  obtain kept new where t: "entries t = kept @ new" "subseq kept (entries s)"
      "length (entries s) + overrun s \<le> length kept + overrun t" "overrun s \<le> overrun t" "tracer t = tracer s"
    using assms(1) by (auto simp: keeps_def)
  obtain kept' new' where u: "entries u = kept' @ new'" "subseq kept' (kept @ new)"
      "length (kept @ new) + overrun t \<le> length kept' + overrun u" "overrun t \<le> overrun u" "tracer u = tracer t"
    using assms(2) unfolding keeps_def t(1) by auto
  from u(2) obtain ks ns where ks: "kept' = ks @ ns" "subseq ks kept" "subseq ns new"
    by (rule subseq_appendE)
  have "length ns \<le> length new"
    using ks(3) by (rule list_emb_length)
  moreover have "subseq ks (entries s)"
    using ks(2) t(2) by (rule subseq_order.trans)
  ultimately show ?thesis
    unfolding keeps_def using t u ks(1) by (intro conjI exI [of _ ks] exI [of _ "ns @ new'"]) auto
qed

lemma documented_put:
  assumes "documented k header entries overrun tracer" and "fst c \<in> set control_files"
    and "fst c \<noteq> ''current_tracer'' \<or> snd c = tracer s"
  shows "keeps entries overrun tracer s (put k c s)"
proof -
  have o1: "keeps entries overrun tracer s (opened k (fst c) s)"
    using assms(1,2) by (simp add: documented_def)
  then have "fst c \<noteq> ''current_tracer'' \<or> snd c = tracer (opened k (fst c) s)"
    using assms(3) by (simp add: keeps_def)
  then have "keeps entries overrun tracer (opened k (fst c) s) (put k c s)"
    using assms(1,2) unfolding documented_def put_def by blast
  with o1 show ?thesis by (rule keeps_trans)
qed

lemma documented_puts:
  assumes "documented k header entries overrun tracer"
  shows "list_all (\<lambda>c. fst c \<in> set control_files \<and> (fst c \<noteq> ''current_tracer'' \<or> snd c = tracer s)) cs \<Longrightarrow>
    keeps entries overrun tracer s (fold (put k) cs s)"
proof (induction cs arbitrary: s)
  case Nil
  then show ?case by (auto simp: keeps_def)
next
  case (Cons c cs)
  then have one: "keeps entries overrun tracer s (put k c s)"
    by (intro documented_put [OF assms]) simp_all
  with Cons.prems have "list_all (\<lambda>d. fst d \<in> set control_files \<and> (fst d \<noteq> ''current_tracer'' \<or> snd d = tracer (put k c s))) cs"
    by (simp add: keeps_def)
  from Cons.IH [OF this] one show ?case
    by (auto intro: keeps_trans)
qed

lemma documented_traced_state:
  assumes "documented k header entries overrun tracer" and "tracer s = ''function''"
  shows "keeps entries overrun tracer s (traced_state k s)"
proof -
  have on: "keeps entries overrun tracer t (wrote k ''tracing_on'' data t)" for data t
    using assms(1) by (simp add: documented_def control_files_def)
  let ?t = "wrote k ''tracing_on'' ''0'' (opened k ''tracing_on'' s)"
  have "keeps entries overrun tracer s (opened k ''tracing_on'' s)"
    using assms(1) by (simp add: documented_def control_files_def)
  then have t: "keeps entries overrun tracer s ?t"
    using on by (rule keeps_trans)
  with assms(2) have "list_all (\<lambda>c. fst c \<in> set control_files \<and> (fst c \<noteq> ''current_tracer'' \<or> snd c = tracer ?t)) (set_up k)"
    by (simp add: set_up_def keeps_def control_files_def)
  then have "keeps entries overrun tracer ?t (fold (put k) (set_up k) ?t)"
    by (rule documented_puts [OF assms(1)])
  then show ?thesis
    unfolding traced_state_def using t on by (blast intro: keeps_trans)
qed

text \<open>
  C38.  \<^verbatim>\<open>clear_trace\<close> does not clear the trace: it opens the file without \<^verbatim>\<open>O_TRUNC\<close>.  When the function
  tracer was current already, as on a second run of the program, the entries recorded before the program
  was started come out in front of its own, in their order.  The only ones missing are those that new events replaced
  because the buffer was full: not more than the kernel counts as overrun during the run, so none if the buffer
  did not overflow.
\<close>

theorem old_trace_is_printed:
  assumes "all_succeed k" and "documented k header entries overrun tracer" and "tracer s = ''function''"
  shows "\<exists>es s' kept new. main k s = (es, Inr (0, s')) \<and>
    stdout_of es = header s' @ concat kept @ concat new \<and> subseq kept (entries s) \<and>
    length (entries s) \<le> length kept + (overrun s' - overrun s)"
proof -
  let ?s' = "traced_state k s"
  obtain kept new where new: "entries ?s' = kept @ new" "subseq kept (entries s)"
      "length (entries s) + overrun s \<le> length kept + overrun ?s'" "overrun s \<le> overrun ?s'"
    using documented_traced_state [OF assms(2,3)] by (auto simp: keeps_def)
  show ?thesis
  proof (intro exI conjI)
    show "main k s = (fst (main k s), Inr (0, ?s'))"
      by (simp add: main_ok [OF assms(1)])
    show "stdout_of (fst (main k s)) = header ?s' @ concat kept @ concat new"
      using assms(2) new(1)
      by (simp add: main_ok [OF assms(1)] dump_trace_ok [OF assms(1)] set_up_events_def set_up_def
          stdout_dump_loop documented_def)
    show "subseq kept (entries s)" and "length (entries s) \<le> length kept + (overrun ?s' - overrun s)"
      using new(2-4) by simp_all
  qed
qed

text \<open>
  A kernel to try it on, with a buffer of two entries: its state is the current tracer, whether it is on, the
  entries and the number of those that were overwritten; turning the tracer on records an entry.
\<close>

type_synonym demo_state = "string \<times> bool \<times> string list \<times> nat"

definition demo_record :: "string \<Rightarrow> string list \<times> nat \<Rightarrow> string list \<times> nat" where
  "demo_record e b = (if length (fst b) < 2 then (fst b @ [e], snd b) else (tl (fst b) @ [e], Suc (snd b)))"

definition demo_tracefs :: "demo_state tracefs" where
  "demo_tracefs =
     \<lparr>k_open = (\<lambda>path trunc (t, on, es, n). (None, (t, on, if trunc \<and> path = tracefs_file ''trace'' then [] else es, n))),
      k_write = (\<lambda>path data (t, on, b). (int (length data), 0,
        if path = tracefs_file ''tracing_on'' then (t, data = ''1'', if data = ''1'' then demo_record (''vfs_write'' @ nl) b else b)
        else if path = tracefs_file ''current_tracer'' then (data, on, if data = t then b else ([], snd b))
        else (t, on, b))),
      k_fopen_trace = (\<lambda>_. None), k_trace = (\<lambda>(t, on, es, n). ''# tracer: '' @ t @ nl @ concat es),
      k_getpid = 42, k_strerror = (\<lambda>_. ''error'')\<rparr>"

lemma demo_tracefs_ok: "all_succeed demo_tracefs"
  by (auto simp: all_succeed_def demo_tracefs_def)

abbreviation demo_header :: "demo_state \<Rightarrow> string" where
  "demo_header \<equiv> \<lambda>(t, on, es, n). ''# tracer: '' @ t @ nl"

lemma demo_record_keeps:
  "\<exists>kept new. fst (demo_record e b) = kept @ new \<and> subseq kept (fst b) \<and>
    length (fst b) + snd b \<le> length kept + snd (demo_record e b) \<and> snd b \<le> snd (demo_record e b)"
proof (cases "length (fst b) < 2")
  case True
  then show ?thesis
    by (intro exI [of _ "fst b"] exI [of _ "[e]"]) (simp add: demo_record_def)
next
  case False
  then obtain x xs where "fst b = x # xs" by (cases "fst b") auto
  with False show ?thesis
    by (intro exI [of _ xs] exI [of _ "[e]"]) (auto simp: demo_record_def)
qed

lemma keeps_refl: "entries s' = entries s \<Longrightarrow> overrun s' = overrun s \<Longrightarrow> tracer s' = tracer s \<Longrightarrow>
  keeps entries overrun tracer s s'"
  unfolding keeps_def by (intro conjI exI [of _ "entries s"] exI [of _ "[]"]) auto

lemma demo_tracefs_documented:
  "documented demo_tracefs demo_header (fst \<circ> snd \<circ> snd) (snd \<circ> snd \<circ> snd) fst"
proof -
  let ?keeps = "keeps (fst \<circ> snd \<circ> snd) (snd \<circ> snd \<circ> snd) fst :: demo_state \<Rightarrow> demo_state \<Rightarrow> bool"
  have recorded: "?keeps (t, on, b) (t, on', demo_record e b)" for t on on' e b
    using demo_record_keeps [of e b] by (auto simp: keeps_def)
  have same: "?keeps (t, on, b) (t, on', b)" for t on on' b
    by (rule keeps_refl) simp_all
  have files: "tracefs_file m = tracefs_file n \<longleftrightarrow> m = n" for m n
    by (simp add: tracefs_file_def)
  have "?keeps s (opened demo_tracefs name s)" for name s
    by (cases s) (simp add: opened_def demo_tracefs_def same)
  moreover have "?keeps s (wrote demo_tracefs name data s)" if "name \<noteq> ''current_tracer'' \<or> data = fst s" for name data s
  proof (cases s)
    case (fields t on es n)
    consider "name = ''tracing_on''" | "name = ''current_tracer''" | "name \<notin> {''tracing_on'', ''current_tracer''}" by blast
    then show ?thesis
      using that by cases (simp_all add: fields wrote_def demo_tracefs_def files same recorded)
  qed
  moreover have "k_trace demo_tracefs s = demo_header s @ concat ((fst \<circ> snd \<circ> snd) s)" for s
    by (cases s) (simp add: demo_tracefs_def)
  ultimately show ?thesis
    unfolding documented_def by blast
qed

theorem dump_trace_copies_witness:
  "\<exists>bufs. dump_trace demo_tracefs (''nop'', False, [], 0) =
      ([Opened (tracefs_file ''trace'')] @ map Stdout bufs @ [Closed (tracefs_file ''trace'')],
       Inr ((), (''nop'', False, [], 0))) \<and> concat bufs = ''# tracer: nop'' @ nl \<and> length bufs = 1"
  using dump_trace_copies [of demo_tracefs "(''nop'', False, [], 0)"] by (auto simp: demo_tracefs_def nl_def)

theorem ftrace_helper_runs_witness:
  "\<exists>es s. main demo_tracefs (''nop'', False, [''old'' @ nl], 0) = (es, Inr (0, s)) \<and>
    stdout_of es = ''# tracer: function'' @ nl @ ''vfs_write'' @ nl"
proof -
  have "k_trace demo_tracefs (traced_state demo_tracefs (''nop'', False, [''old'' @ nl], 0)) =
      ''# tracer: function'' @ nl @ ''vfs_write'' @ nl"
    by (simp add: traced_state_def set_up_def put_def opened_def wrote_def demo_tracefs_def tracefs_file_def demo_record_def)
  moreover obtain es where
    "main demo_tracefs (''nop'', False, [''old'' @ nl], 0) = (es, Inr (0, traced_state demo_tracefs (''nop'', False, [''old'' @ nl], 0)))"
    "stdout_of es = k_trace demo_tracefs (traced_state demo_tracefs (''nop'', False, [''old'' @ nl], 0))"
    using ftrace_helper_runs [OF demo_tracefs_ok, of "(''nop'', False, [''old'' @ nl], 0)"] by (elim exE conjE)
  ultimately show ?thesis
    by (intro exI conjI) (assumption, simp only:)
qed

theorem old_trace_is_printed_witness:
  "\<exists>es s' kept new. main demo_tracefs (''function'', False, [''old'' @ nl], 0) = (es, Inr (0, s')) \<and>
    stdout_of es = demo_header s' @ concat kept @ concat new \<and> subseq kept [''old'' @ nl] \<and>
    1 \<le> length kept + snd (snd (snd s'))"
  using old_trace_is_printed [OF demo_tracefs_ok demo_tracefs_documented, of "(''function'', False, [''old'' @ nl], 0)"]
  by simp

section \<open>The buffer for the pid\<close>

text \<open>
  The text of any 32-bit pid and its terminating NUL fit the buffer of 32 bytes that \<^verbatim>\<open>set_pid\<close> prints it to.
\<close>

lemma pid_text_fits:
  assumes "- (2 ^ 31) \<le> pid" and "pid < 2 ^ 31"
  shows "length (fmt_d pid) + 1 \<le> 12"
proof -
  have "nat pid < 10 ^ 10" "nat (- pid) < 10 ^ 10"
    using assms by simp_all
  then show ?thesis
    using length_fmt_u [of "nat pid" 10] length_fmt_u [of "nat (- pid)" 10] by (auto simp: fmt_d_def)
qed

end
