(* ===== verification/Alias_Existing_Page.thy ===== *)
theory Alias_Existing_Page
  imports Pageinfo
begin

text \<open>
  \<^verbatim>\<open>userspace/alias_existing_page.c\<close>: the physical address of a page of the process from
  \<^verbatim>\<open>/proc/self/pagemap\<close>, and a second mapping that is meant to alias it.  The results of the system calls
  and what a fresh mapping contains are parameters; the dummy value that is written to the page does not
  reach the output, as the property shows.
\<close>

section \<open>The system as the program sees it\<close>



section \<open>The program\<close>







section \<open>Properties\<close>








end
