(* ===== verification/Rtm_Page_Fault.thy ===== *)
theory Rtm_Page_Fault
  imports Libc
begin

text \<open>
  \<^verbatim>\<open>userspace/x86_rtm_page_fault.c\<close>: telling with a hardware transaction whether a write to a page would
  fault, before and after a fork.  Parent and child each have the page in their own page table; their
  steps interleave in any order.  What the kernel does to the page is a parameter, and a transaction may abort at
  any time: the processor gives no guarantee that one commits.
\<close>

section \<open>The page and the processor\<close>

text \<open>
  The page as a process sees it, of any type \<open>'p\<close>: after \<^verbatim>\<open>mmap\<close>; after a plain store or load; for the parent and
  the child after a fork.  \<open>x_tx_store v pg\<close> is the page after a store inside a transaction, unless that store
  faults.  A fork that fails leaves one process.
\<close>

record 'p rtm_env =
  x_mmap_fails :: "int option"
  x_fresh :: 'p
  x_store :: "u8 \<Rightarrow> 'p \<Rightarrow> 'p"
  x_load :: "'p \<Rightarrow> 'p"
  x_tx_store :: "u8 \<Rightarrow> 'p \<Rightarrow> 'p option"
  x_fork_ok :: bool
  x_fork :: "'p \<Rightarrow> 'p \<times> 'p"
  x_strerror :: "int \<Rightarrow> string"

text \<open>
  \<^verbatim>\<open>page_dirty\<close> returns 1 when the transaction commits, which it cannot if the store faults.  It may abort for
  any reason; then nothing of it is left, and execution resumes after \<^verbatim>\<open>_xbegin\<close> with another status.
\<close>

inductive page_dirty :: "'p rtm_env \<Rightarrow> 'p \<Rightarrow> int \<Rightarrow> 'p \<Rightarrow> bool" for env where
  commits: "x_tx_store env 0 pg = Some pg' \<Longrightarrow> page_dirty env pg 1 pg'"
| aborts: "page_dirty env pg 0 pg"

section \<open>The two processes\<close>

datatype action = Report string | Read | Write u8

inductive act :: "'p rtm_env \<Rightarrow> action \<Rightarrow> 'p \<Rightarrow> string list \<Rightarrow> 'p \<Rightarrow> bool" for env where
  report: "page_dirty env pg d pg' \<Longrightarrow> act env (Report label) pg [label @ fmt_d d @ nl] pg'"
| load: "act env Read pg [] (x_load env pg)"
| store: "act env (Write v) pg [] (x_store env v pg)"

definition parent :: "action list" where
  "parent = [Report ''Parent before : '', Read, Report ''Parent after R: '', Write 123, Report ''Parent after W: '']"

definition child :: "action list" where
  "child = [Report ''Child before  : '', Read, Report ''Child after R : '', Write 123, Report ''Child after W : '']"

text \<open>
  \<open>runs env as pg out\<close>: a process writes \<open>out\<close>.  \<open>interleaved env (as, pg) (bs, qg) out\<close>: some schedule of the two
  processes to their ends writes \<open>out\<close>.
\<close>

inductive runs :: "'p rtm_env \<Rightarrow> action list \<Rightarrow> 'p \<Rightarrow> string list \<Rightarrow> bool" for env where
  runs_Nil: "runs env [] pg []"
| runs_Cons: "act env a pg ls pg' \<Longrightarrow> runs env as pg' out \<Longrightarrow> runs env (a # as) pg (ls @ out)"

inductive interleaved ::
  "'p rtm_env \<Rightarrow> action list \<times> 'p \<Rightarrow> action list \<times> 'p \<Rightarrow> string list \<Rightarrow> bool" for env where
  both_done: "interleaved env ([], pg) ([], qg) []"
| parent_step: "act env a pg ls pg' \<Longrightarrow> interleaved env (as, pg') c out \<Longrightarrow> interleaved env (a # as, pg) c (ls @ out)"
| child_step: "act env b qg ls qg' \<Longrightarrow> interleaved env p (bs, qg') out \<Longrightarrow> interleaved env p (b # bs, qg) (ls @ out)"

text \<open>The page is written to and tested once before the processes part.\<close>

inductive main :: "'p rtm_env \<Rightarrow> string list \<Rightarrow> int \<Rightarrow> bool" for env where
  no_page: "x_mmap_fails env = Some e \<Longrightarrow>
    main env [''parent: mmap failed: '' @ x_strerror env e @ nl] 1"
| forked: "x_mmap_fails env = None \<Longrightarrow> x_fork_ok env \<Longrightarrow>
    page_dirty env (x_store env 123 (x_fresh env)) d pg \<Longrightarrow> x_fork env pg = (pg1, pg2) \<Longrightarrow>
    interleaved env (parent, pg1) (child, pg2) out \<Longrightarrow>
    main env ([''Initial state : '' @ fmt_d d @ nl, ''----- fork -----'' @ nl] @ out) 0"
| alone: "x_mmap_fails env = None \<Longrightarrow> \<not> x_fork_ok env \<Longrightarrow>
    page_dirty env (x_store env 123 (x_fresh env)) d pg \<Longrightarrow> runs env parent pg out \<Longrightarrow>
    main env ([''Initial state : '' @ fmt_d d @ nl, ''----- fork -----'' @ nl] @ out) 0"

code_pred (modes: i \<Rightarrow> i \<Rightarrow> o \<Rightarrow> o \<Rightarrow> bool) page_dirty .
code_pred (modes: i \<Rightarrow> i \<Rightarrow> i \<Rightarrow> o \<Rightarrow> o \<Rightarrow> bool) act .
code_pred (modes: i \<Rightarrow> i \<Rightarrow> i \<Rightarrow> o \<Rightarrow> bool) runs .
code_pred (modes: i \<Rightarrow> i \<Rightarrow> i \<Rightarrow> o \<Rightarrow> bool) interleaved .
code_pred (modes: i \<Rightarrow> o \<Rightarrow> o \<Rightarrow> bool) main .

inductive_cases page_dirtyE: "page_dirty env pg d pg'"
inductive_cases reportE: "act env (Report l) pg ls pg'"
inductive_cases loadE: "act env Read pg ls pg'"
inductive_cases storeE: "act env (Write v) pg ls pg'"
inductive_cases runs_NilE: "runs env [] pg out"
inductive_cases runs_ConsE: "runs env (a # as) pg out"
inductive_cases mainE: "main env out r"

section \<open>Schedules\<close>

lemma append_in_shuffles: "zs \<in> shuffles xs ys \<Longrightarrow> us @ zs \<in> shuffles (us @ xs) ys"
  by (induction us) (simp_all add: Cons_in_shuffles_leftI)

lemma append_in_shuffles_right: "zs \<in> shuffles xs ys \<Longrightarrow> us @ zs \<in> shuffles xs (us @ ys)"
  by (induction us) (simp_all add: Cons_in_shuffles_rightI)

lemma interleaved_shuffles:
  "interleaved env p c out \<Longrightarrow>
   \<exists>xs ys. runs env (fst p) (snd p) xs \<and> runs env (fst c) (snd c) ys \<and> out \<in> shuffles xs ys"
proof (induction rule: interleaved.induct)
  case (both_done pg qg)
  show ?case by (intro exI [of _ "[]"]) (simp add: runs_Nil)
next
  case (parent_step a pg ls pg' as c out)
  then obtain xs ys where "runs env as pg' xs" "runs env (fst c) (snd c) ys" "out \<in> shuffles xs ys" by auto
  with parent_step.hyps(1) show ?case
    by (intro exI [of _ "ls @ xs"] exI [of _ ys]) (auto intro: runs_Cons append_in_shuffles)
next
  case (child_step b qg ls qg' p bs out)
  then obtain xs ys where "runs env (fst p) (snd p) xs" "runs env bs qg' ys" "out \<in> shuffles xs ys" by auto
  with child_step.hyps(1) show ?case
    by (intro exI [of _ xs] exI [of _ "ls @ ys"]) (auto intro: runs_Cons append_in_shuffles_right)
qed

lemma act_lines: "act env a pg ls pg' \<Longrightarrow> ls = [] \<or> (\<exists>l. ls = [l])"
  by (induction rule: act.induct) simp_all

lemma child_only: "runs env bs qg ys \<Longrightarrow> interleaved env ([], pg) (bs, qg) ys"
  by (induction rule: runs.induct) (auto intro: interleaved.intros)

lemma parent_only: "runs env as pg xs \<Longrightarrow> interleaved env (as, pg) ([], qg) xs"
  by (induction rule: runs.induct) (auto intro: interleaved.intros)

lemma shuffles_interleaved:
  "runs env as pg xs \<Longrightarrow> runs env bs qg ys \<Longrightarrow> zs \<in> shuffles xs ys \<Longrightarrow> interleaved env (as, pg) (bs, qg) zs"
proof (induction "length as + length bs" arbitrary: as pg xs bs qg ys zs rule: less_induct)
  case less
  show ?case
  proof (cases as)
    case Nil
    with less.prems show ?thesis by (auto elim!: runs_NilE intro: child_only)
  next
    case (Cons a as')
    then obtain ls pg' xs' where a: "act env a pg ls pg'" "runs env as' pg' xs'" "xs = ls @ xs'"
      using less.prems(1) by (auto elim: runs_ConsE)
    show ?thesis
    proof (cases bs)
      case Nil
      with less.prems show ?thesis by (auto elim!: runs_NilE intro: parent_only)
    next
      case (Cons b bs')
      then obtain ms qg' ys' where b: "act env b qg ms qg'" "runs env bs' qg' ys'" "ys = ms @ ys'"
        using less.prems(2) by (auto elim: runs_ConsE)
      have left: "interleaved env (as', pg') (bs, qg) ws" if "ws \<in> shuffles xs' ys" for ws
        using less.hyps [OF _ a(2) less.prems(2) that] \<open>as = a # as'\<close> by simp
      have right: "interleaved env (as, pg) (bs', qg') ws" if "ws \<in> shuffles xs ys'" for ws
        using less.hyps [OF _ less.prems(1) b(2) that] \<open>bs = b # bs'\<close> by simp
      consider "ls = []" | "ms = []" | l m where "ls = [l]" "ms = [m]"
        using act_lines [OF a(1)] act_lines [OF b(1)] by auto
      then show ?thesis
      proof cases
        case 1
        with left [of zs] less.prems(3) a show ?thesis
          using parent_step [OF a(1), of as' "(bs, qg)" zs] \<open>as = a # as'\<close> by simp
      next
        case 2
        with right [of zs] less.prems(3) b show ?thesis
          using child_step [OF b(1), of "(as, pg)" bs' zs] \<open>bs = b # bs'\<close> by simp
      next
        case 3
        then consider ws where "zs = l # ws" "ws \<in> shuffles xs' ys" | ws where "zs = m # ws" "ws \<in> shuffles xs ys'"
          using less.prems(3) a(3) b(3) by (auto elim!: shuffles.elims)
        then show ?thesis
        proof cases
          case 1
          with parent_step [OF a(1) left [OF 1(2)]] 3 \<open>as = a # as'\<close> show ?thesis by simp
        next
          case 2
          with child_step [OF b(1) right [OF 2(2)]] 3 \<open>bs = b # bs'\<close> show ?thesis by simp
        qed
      qed
    qed
  qed
qed

section \<open>Copy on write\<close>

text \<open>
  What is documented of a private page: \<^verbatim>\<open>fork\<close> leaves it to be copied on the next write, in the parent and in the
  child, so that a store to it faults until then; reading does not change that; a process that has just stored to
  its page can store to it again without a fault.
\<close>

locale copy_on_write =
  fixes env :: "'p rtm_env"
  assumes shared: "x_fork env pg = (pg1, pg2) \<Longrightarrow> x_tx_store env v pg1 = None \<and> x_tx_store env v pg2 = None"
    and read_keeps: "x_tx_store env v pg = None \<Longrightarrow> x_tx_store env v (x_load env pg) = None"
    and own_after_write: "x_tx_store env v (x_store env w pg) \<noteq> None"
begin

lemma dirty_0: "x_tx_store env 0 pg = None \<Longrightarrow> page_dirty env pg d pg' \<longleftrightarrow> d = 0 \<and> pg' = pg"
  by (auto elim: page_dirtyE intro: page_dirty.aborts)

text \<open>A process that tests its page, reads it, tests, writes, tests, with a page that it shares at first.\<close>

lemma runs_shared:
  assumes "x_tx_store env 0 pg = None"
  shows "runs env [Report a, Read, Report b, Write v, Report c] pg out \<longleftrightarrow>
    (\<exists>d \<in> {0, 1}. out = [a @ fmt_d 0 @ nl, b @ fmt_d 0 @ nl, c @ fmt_d d @ nl])"
proof
  assume "runs env [Report a, Read, Report b, Write v, Report c] pg out"
  then obtain d pg' where "page_dirty env (x_store env v (x_load env pg)) d pg'"
    "out = [a @ fmt_d 0 @ nl, b @ fmt_d 0 @ nl, c @ fmt_d d @ nl]"
    using dirty_0 [OF assms] dirty_0 [OF read_keeps [OF assms]]
    by (auto elim!: runs_ConsE runs_NilE reportE loadE storeE)
  then show "\<exists>d \<in> {0, 1}. out = [a @ fmt_d 0 @ nl, b @ fmt_d 0 @ nl, c @ fmt_d d @ nl]"
    by (auto elim: page_dirtyE)
next
  assume "\<exists>d \<in> {0, 1}. out = [a @ fmt_d 0 @ nl, b @ fmt_d 0 @ nl, c @ fmt_d d @ nl]"
  then obtain d :: int where d: "d \<in> {0, 1}" "out = [a @ fmt_d 0 @ nl] @ [] @ [b @ fmt_d 0 @ nl] @ [] @ [c @ fmt_d d @ nl] @ []"
    by auto
  have "\<exists>pg'. page_dirty env (x_store env v (x_load env pg)) d pg'"
    using own_after_write [of 0 v "x_load env pg"] d(1) by (auto intro: page_dirty.intros)
  then show "runs env [Report a, Read, Report b, Write v, Report c] pg out"
    unfolding d(2) by (blast intro: runs.intros act.intros page_dirty.aborts)
qed

end

text \<open>
  C11.  Whatever the schedule of the two processes, and however many transactions abort without need, the
  program does not report a page as dirty that is to be copied: in each process the lines before the read and
  after it say 0.  Only the first line and those after a write may say 1, so a run that ends shows, in some order,
  three lines of each process with the answers that the comments of the program announce, or 0 in place of 1.
  And with the announced answers every order of the lines can happen; nothing one process does changes what
  the other sees.
\<close>

theorem rtm_detects_copy_on_write:
  assumes "copy_on_write env" and "x_mmap_fails env = None" and "x_fork_ok env"
  shows "(\<forall>out r. main env out r \<longrightarrow> r = 0 \<and>
      (\<exists>d dp dc zs. {d, dp, dc} \<subseteq> {0, 1} \<and>
        out = [''Initial state : '' @ fmt_d d @ nl, ''----- fork -----'' @ nl] @ zs \<and>
        zs \<in> shuffles
          [''Parent before : 0'' @ nl, ''Parent after R: 0'' @ nl, ''Parent after W: '' @ fmt_d dp @ nl]
          [''Child before  : 0'' @ nl, ''Child after R : 0'' @ nl, ''Child after W : '' @ fmt_d dc @ nl])) \<and>
    (\<forall>zs \<in> shuffles
        [''Parent before : 0'' @ nl, ''Parent after R: 0'' @ nl, ''Parent after W: 1'' @ nl]
        [''Child before  : 0'' @ nl, ''Child after R : 0'' @ nl, ''Child after W : 1'' @ nl].
      main env ([''Initial state : 1'' @ nl, ''----- fork -----'' @ nl] @ zs) 0)"
proof (intro conjI allI impI ballI)
  have digits: "fmt_d 0 = ''0''" "fmt_d 1 = ''1''"
    by (simp_all add: fmt_d_def fmt_u_def digits_of.simps hexdig_def char_of_def bit_0)
  note runs = copy_on_write.runs_shared [OF assms(1)]
  {
    fix out r
    assume run: "main env out r"
    then show "r = 0"
      by (rule mainE) (simp_all add: assms)
    from run obtain d pg pg1 pg2 zs where main: "page_dirty env (x_store env 123 (x_fresh env)) d pg"
      "x_fork env pg = (pg1, pg2)" "interleaved env (parent, pg1) (child, pg2) zs"
      "out = [''Initial state : '' @ fmt_d d @ nl, ''----- fork -----'' @ nl] @ zs"
      by (rule mainE) (use assms(2,3) in auto)
    have faults: "x_tx_store env 0 pg1 = None" "x_tx_store env 0 pg2 = None"
      using copy_on_write.shared [OF assms(1) main(2)] by simp_all
    obtain xs ys where "runs env parent pg1 xs" "runs env child pg2 ys" "zs \<in> shuffles xs ys"
      using interleaved_shuffles [OF main(3)] by auto
    then obtain dp dc where answers: "{dp, dc} \<subseteq> {0, 1}" "zs \<in> shuffles
        [''Parent before : 0'' @ nl, ''Parent after R: 0'' @ nl, ''Parent after W: '' @ fmt_d dp @ nl]
        [''Child before  : 0'' @ nl, ''Child after R : 0'' @ nl, ''Child after W : '' @ fmt_d dc @ nl]"
      unfolding parent_def child_def runs [OF faults(1)] runs [OF faults(2)] digits append_Cons append_Nil by blast
    have "{d, dp, dc} \<subseteq> {0, 1}"
      using main(1) answers(1) by (auto elim: page_dirtyE)
    with answers(2) main(4) show "\<exists>d dp dc zs. {d, dp, dc} \<subseteq> {0, 1} \<and>
        out = [''Initial state : '' @ fmt_d d @ nl, ''----- fork -----'' @ nl] @ zs \<and>
        zs \<in> shuffles
          [''Parent before : 0'' @ nl, ''Parent after R: 0'' @ nl, ''Parent after W: '' @ fmt_d dp @ nl]
          [''Child before  : 0'' @ nl, ''Child after R : 0'' @ nl, ''Child after W : '' @ fmt_d dc @ nl]"
      by (intro exI conjI)
  }
  fix zs
  assume zs: "zs \<in> shuffles
        [''Parent before : 0'' @ nl, ''Parent after R: 0'' @ nl, ''Parent after W: 1'' @ nl]
        [''Child before  : 0'' @ nl, ''Child after R : 0'' @ nl, ''Child after W : 1'' @ nl]"
  obtain pg where pg: "page_dirty env (x_store env 123 (x_fresh env)) 1 pg"
    using copy_on_write.own_after_write [OF assms(1), of 0 123 "x_fresh env"] page_dirty.commits by fast
  obtain pg1 pg2 where fork: "x_fork env pg = (pg1, pg2)" by fastforce
  have faults: "x_tx_store env 0 pg1 = None" "x_tx_store env 0 pg2 = None"
    using copy_on_write.shared [OF assms(1) fork] by simp_all
  have "runs env parent pg1 [''Parent before : 0'' @ nl, ''Parent after R: 0'' @ nl, ''Parent after W: 1'' @ nl]"
    "runs env child pg2 [''Child before  : 0'' @ nl, ''Child after R : 0'' @ nl, ''Child after W : 1'' @ nl]"
    unfolding parent_def child_def runs [OF faults(1)] runs [OF faults(2)] by (auto simp: digits)
  from main.forked [OF assms(2,3) pg fork shuffles_interleaved [OF this zs]]
  show "main env ([''Initial state : 1'' @ nl, ''----- fork -----'' @ nl] @ zs) 0"
    by (simp add: digits)
qed

text \<open>A page as its byte and whether its table entry allows writes; a faulting store makes the entry writable.\<close>

type_synonym page = "bool \<times> u8"

definition demo_rtm :: "page rtm_env" where
  "demo_rtm = \<lparr>x_mmap_fails = None, x_fresh = (False, 0), x_store = (\<lambda>v pg. (True, v)), x_load = id,
     x_tx_store = (\<lambda>v pg. if fst pg then Some (True, v) else None), x_fork_ok = True,
     x_fork = (\<lambda>pg. ((False, snd pg), (False, snd pg))), x_strerror = (\<lambda>_. ''error'')\<rparr>"

interpretation demo_cow: copy_on_write demo_rtm
  by unfold_locales (auto simp: demo_rtm_def)

theorem rtm_detects_copy_on_write_witness:
  "main demo_rtm ([''Initial state : 1'' @ nl, ''----- fork -----'' @ nl] @
     [''Parent before : 0'' @ nl, ''Parent after R: 0'' @ nl, ''Parent after W: 1'' @ nl] @
     [''Child before  : 0'' @ nl, ''Child after R : 0'' @ nl, ''Child after W : 1'' @ nl]) 0"
proof -
  have "x_mmap_fails demo_rtm = None" "x_fork_ok demo_rtm"
    by (simp_all add: demo_rtm_def)
  note run = rtm_detects_copy_on_write [OF demo_cow.copy_on_write_axioms this, THEN conjunct2]
  have "xs @ ys \<in> shuffles xs ys" for xs ys :: "string list"
    using append_in_shuffles [of ys "[]" ys xs] by simp
  with run show ?thesis by blast
qed

text \<open>
  The result of \<^verbatim>\<open>fork\<close> is not checked for failure: then the one process there is prints the parent's lines,
  and any of them may say that the page is dirty.
\<close>

lemma rtm_fork_failure:
  assumes "x_mmap_fails env = None" and "\<not> x_fork_ok env" and "main env out r"
  shows "\<exists>d pg zs. page_dirty env (x_store env 123 (x_fresh env)) d pg \<and> runs env parent pg zs \<and> r = 0 \<and>
    out = [''Initial state : '' @ fmt_d d @ nl, ''----- fork -----'' @ nl] @ zs"
  using assms(3) by (rule mainE) (use assms(1,2) in auto)

end
