(* ===== verification/Test_Scaling_Governor.thy ===== *)
theory Test_Scaling_Governor
  imports Libc
begin

text \<open>
  \<^verbatim>\<open>userspace/test_scaling_governor.c\<close>: a benchmark that times a loop with and without sleeping in between.
  The counters are \<^verbatim>\<open>unsigned\<close> and wrap around, and the loops over the runs may not end, so they are partial
  functions.  The floating point type is any linear order with the operations the program uses.
\<close>

section \<open>The system as the program sees it\<close>

text \<open>
  \<open>b_clock k\<close> is the processor time of the process at the \<open>k\<close>-th reading, in seconds and nanoseconds;
  \<open>b_ms sec nsec\<close> is the expression that turns a difference into milliseconds.
\<close>

record 'd bench_env =
  b_zero :: 'd
  b_inf :: 'd
  b_neg_inf :: 'd
  b_half :: 'd
  b_one :: 'd
  b_milli :: 'd
  b_add :: "'d \<Rightarrow> 'd \<Rightarrow> 'd"
  b_div :: "'d \<Rightarrow> 'd \<Rightarrow> 'd"
  b_of_unsigned :: "u32 \<Rightarrow> 'd"
  b_ms :: "int \<Rightarrow> int \<Rightarrow> 'd"
  b_fmt :: "nat \<Rightarrow> 'd \<Rightarrow> string"
  b_clock :: "nat \<Rightarrow> int \<times> int"
  b_geteuid :: nat
  b_sched_setaffinity :: "int option"
  b_strerror :: "int \<Rightarrow> string"


section \<open>Helpers\<close>


text \<open>The loop that is timed; its sum is dropped.\<close>

function func_loop :: "'d bench_env \<Rightarrow> u32 \<Rightarrow> u32 \<Rightarrow> 'd \<Rightarrow> 'd" where
  "func_loop env n i s = (if i < n then func_loop env n (i + 1) (b_add env s (b_milli env)) else s)"
  by pat_completeness auto

termination
proof (relation "measure (\<lambda>(env, n, i, s). unat n - unat i)")
  fix env :: "'d bench_env" and n i :: u32 and s :: 'd
  assume "i < n"
  then have "unat (i + 1) = Suc (unat i)"
    using unsigned_less [of n, where 'a = nat] by (simp add: unat_word_ariths word_less_nat_alt)
  with \<open>i < n\<close> show "((env, n, i + 1, b_add env s (b_milli env)), env, n, i, s) \<in> measure (\<lambda>(env, n, i, s). unat n - unat i)"
    by (simp add: word_less_nat_alt)
qed simp

declare func_loop.simps [simp del]

definition func :: "'d bench_env \<Rightarrow> u32 \<Rightarrow> 'd" where
  "func env n = func_loop env n 0 (b_one env)"



text \<open>The \<open>k\<close>-th call of \<^verbatim>\<open>bench\<close>.\<close>

definition bench :: "'d bench_env \<Rightarrow> nat \<Rightarrow> u32 \<Rightarrow> 'd" where
  "bench env k n =
     (let t0 = b_clock env (2 * k); s = func env n; t1 = b_clock env (2 * k + 1)
      in b_ms env (fst t1 - fst t0) (snd t1 - snd t0))"


text \<open>\<^verbatim>\<open>sscanf(s, "%u", &v)\<close>: the digits are converted as \<^verbatim>\<open>strtoul\<close> does, and the result is cut to 32 bits.\<close>

definition sscanf_u :: "string \<Rightarrow> u32 option" where
  "sscanf_u s = (case strto_scan 10 s of None \<Rightarrow> None | Some _ \<Rightarrow> Some (ucast (st_val (strtoul 10 s))))"

text \<open>\<^verbatim>\<open>if (argc < i + 1 || sscanf(argv[i], "%u", &v) != 1 || v < 1) v = dflt;\<close>\<close>

definition arg_or :: "string list \<Rightarrow> nat \<Rightarrow> u32 \<Rightarrow> u32" where
  "arg_or argv i dflt =
     (if length argv < i + 1 then dflt
      else case sscanf_u (argv ! i) of
             None \<Rightarrow> dflt
           | Some v \<Rightarrow> if v < 1 then dflt else v)"

section \<open>The two tests\<close>








section \<open>Properties\<close>





definition times :: "'d bench_env \<Rightarrow> u32 \<Rightarrow> nat \<Rightarrow> nat \<Rightarrow> 'd list" where
  "times env cycles k0 m = map (\<lambda>k. bench env k cycles) [k0..<k0 + m]"




lemma arg_or_positive: "0 < dflt \<Longrightarrow> 0 < arg_or argv i dflt"
  by (auto simp: arg_or_def not_less word_less_1 word_greater_zero_iff split: option.splits)












end
