(* ===== verification/Spec2Isabelle.thy ===== *)
theory Spec2Isabelle
  imports Pageinfo Chardev_Session Hijack_Race Reboot_Notifier Read_Implies_Exec Test_Hashtable
    Inherit_Capability Find_Root_Dev Undef_Instr Cpufreq Cpuinfo Datetime Myinit Ftrace_Helper Alias_Existing_Page
    Rtm_Page_Fault Test_Scaling_Governor
begin

text \<open>
  A verification of a collection of Linux kernel modules (\<^verbatim>\<open>src/modules\<close>), small userspace programs
  (\<^verbatim>\<open>src/userspace\<close>) and the first process of a test machine (\<^verbatim>\<open>src/myinit\<close>).  Each is a program of its own: a
  module is an entry point that the kernel calls when it is loaded, sometimes with callbacks and an exit function; a userspace program is a \<^verbatim>\<open>main\<close>.  They
  share no code, but they share idioms, and those are what the first theories are about.  What they share at
  run time is the kernel: the properties of this theory are about several of them at once.

  \<^bold>\<open>What is shared.\<close>
  \<^item> \<open>Prelude\<close>: machine words, \<^verbatim>\<open>if (v & m)\<close>, address arithmetic; a \<open>run\<close>, which is the list of observable
    events of a function together with the value it returned or the reason it stopped; and accounting of
    resources, where \<open>net delta es r\<close> is the number of references on \<open>r\<close> that the events \<open>es\<close> leave behind.
  \<^item> \<open>Libc\<close>: \<^verbatim>\<open>printf\<close> conversions, \<^verbatim>\<open>strtoul\<close> and \<^verbatim>\<open>strtol\<close>, \<^verbatim>\<open>strstr\<close>, standard output with its buffer.
  \<^item> \<open>Flag_Tables\<close>: a sequence of \<^verbatim>\<open>if (v & MASK) print(" NAME")\<close> as a table, with the interface (locales
    \<open>flag_table\<close> and \<open>flag_bits\<close>) under which its output can be decoded; \<open>Pageinfo\<close> and \<open>Page_Entries\<close>
    interpret it for their tables.
  \<^item> \<open>Kernel\<close>: the kernel log, error numbers, pointers that may be null or errors, the events of a module with
    what they acquire and release, and the lookup of a task by its pid.  The locale \<open>kernel_module\<close> is the
    contract of loading and unloading: what is acquired is given back; \<open>leaking_module\<close> is the weaker one
    of a module that keeps something at every load.  The modules interpret one or the other, and their
    properties about repeated loads are the lemmas of these locales.
  \<^item> \<open>Module_Text\<close>: the memory of a module that is unloaded while somebody may still be executing it.  The
    locale \<open>module_text\<close> is interpreted by \<open>Hijack_Race\<close> (threads in a hooked system call) and \<open>Reboot_Notifier\<close>
    (a kernel thread); what it gives is that the release is safe exactly if nobody is inside.

  \<^bold>\<open>The programs.\<close>
  \<^item> \<open>Pageinfo\<close> (\<^verbatim>\<open>userspace/pageinfo.c\<close>): all of it, from the argument vector to the exit status.  \<^verbatim>\<open>main\<close>
    refines a specification of the command line; each file is read at the word of the page; locations and flag
    names are those that the kernel documents for the bits of the entry; the physical address that one run
    printed can be given to another.
  \<^item> \<open>Task_Queue\<close> and \<open>Task_Tree\<close> (\<^verbatim>\<open>modules/task_bfs_dfs.c\<close>): the traversal of the process tree with a linked
    queue on an explicit heap.  The locale \<open>task_queue\<close> says what the queue provides and is interpreted for
    the two disciplines.  The loop runs on fuel; fuel equal to the number of tasks in the tree is enough,
    and the theorems conclude that the run ends.  Order of visit, each task once, no access to memory that
    is not allocated, no node lost, and the references that are and are not given back.
  \<^item> \<open>Page_Entries\<close> and \<open>Page_Table_Walk\<close> (\<^verbatim>\<open>modules/page_table_walk.c\<close>): the helpers and dumps of single
    entries, then the walks.  The walk is compared with \<open>hw_walk\<close>, the translation of the processor on
    physical memory: addresses that the processor translates are printed correctly, others are not printed,
    except below a missing top-level entry and for entries that the kernel still counts as mapped (PROTNONE, and
    a PMD entry with its size bit set).  The names on the line of an entry are read back with the bit positions of
    the processor's manual.  The headers' helpers are parameters; the locale \<open>x86_paging\<close>
    states their documented behaviour and is interpreted for the concrete \<open>x86_env\<close>.
  \<^item> \<open>Chardev\<close> and \<open>Chardev_Session\<close> (\<^verbatim>\<open>modules/test_chardev.c\<close>): the read loop on words and user memory,
    loading and unloading; then the loaded device with several open files, whose reads and writes interleave.
  \<^item> \<open>Syscall_Hijack\<close> and \<open>Hijack_Race\<close> (\<^verbatim>\<open>modules/arm64/syscall_hijack.c\<close>): page permissions and the system
    call table; then threads in \<^verbatim>\<open>read\<close> while the module is loaded, unloaded and its memory released, as lists of
    actions.  A thread runs the original function once per \<^verbatim>\<open>read\<close>, unless it crashes in released memory; releasing the memory is safe exactly if no thread is
    left in the hook, which nothing in the module ensures.
  \<^item> \<open>Module_Params\<close>: the \<^verbatim>\<open>module_param\<close> variables of the modules with their defaults, and loading as the
    entry point on the arguments that the loader was given (a parameter).
  \<^item> \<open>Reboot_Notifier\<close> (\<^verbatim>\<open>modules/reboot_notifier.c\<close>): a state machine whose steps interleave a thread, calls
    of the notifier, unloading and the release of the memory, after which any code of the module that runs is a
    crash; invariants by induction on the reachable states.  Completions are a parameter; the locale
    \<open>completion\<close> states what is documented of them.
  \<^item> \<open>Enum_Pids\<close>, \<open>Kallsyms\<close>, \<open>Test_Hashtable\<close> (the modules of these names) and
    \<open>Inherit_Capability\<close> (\<^verbatim>\<open>userspace/inherit_capability.c\<close>).  The macros of the kernel's hash table and
    the symbol iterator are parameters; the locale \<open>hashtable_api\<close> and the predicate \<open>iterates\<close> state what is
    documented of them.
  \<^item> \<open>Read_Implies_Exec\<close> (\<^verbatim>\<open>modules/read_implies_exec.c\<close>): registering the probes, and what executing a program
    does while they are registered, after unloading and after a load that failed.
  \<^item> \<open>Task_Rss\<close> and \<open>Task_Rss_From_Pid\<close> (\<^verbatim>\<open>modules/task_rss.c\<close>, \<^verbatim>\<open>modules/task_rss_from_pid.c\<close>): the two
    agree on the size of a task; the second keeps a reference to a \<^verbatim>\<open>struct pid\<close> per load.
  \<^item> \<open>Find_Root_Dev\<close> (\<^verbatim>\<open>modules/find_root_dev.c\<close>): the labels of the error exits unwind what was acquired.
  \<^item> \<open>Undef_Instr\<close> (\<^verbatim>\<open>modules/arm64/undef_instr.c\<close>): the hook for undefined instructions, what it matches and
    what is left of it after unloading.
  \<^item> \<open>Cpufreq\<close>, \<open>Cpuinfo\<close>, \<open>Datetime\<close> (the modules of these names): the loop over the online CPUs, a partial
    function that is shown to return; the section without preemption; the text of the local time.
  \<^item> \<open>Myinit\<close> (\<^verbatim>\<open>myinit/init.c\<close>): mounts, shell, wait and power-off, with every call failing or not.
  \<^item> \<open>Ftrace_Helper\<close> (\<^verbatim>\<open>userspace/ftrace_helper.c\<close>): the program runs on a tracefs of any state type; the copy
    of the trace ends and is exact; opening without \<^verbatim>\<open>O_TRUNC\<close> leaves the old trace, up to what a full buffer overwrites.
  \<^item> \<open>Alias_Existing_Page\<close> (\<^verbatim>\<open>userspace/alias_existing_page.c\<close>): it computes the address that \<open>Pageinfo\<close> does.
  \<^item> \<open>Rtm_Page_Fault\<close> (\<^verbatim>\<open>userspace/x86_rtm_page_fault.c\<close>): two processes with a page of which the locale
    \<open>copy_on_write\<close> states the documented laws; all interleavings of their steps, by rule induction, with
    transactions that may abort at any time.
  \<^item> \<open>Test_Scaling_Governor\<close> (\<^verbatim>\<open>userspace/test_scaling_governor.c\<close>): the benchmark over any arithmetic; when its
    loops, partial functions on wrapping counters, end, and the lines they print.

  \<^bold>\<open>Conventions.\<close>  A function keeps its name.  What comes from outside the repository (kernel functions and
  macros, libcap, system calls, the contents of \<^verbatim>\<open>/proc\<close>) is a field of an environment record that the
  definitions take as an argument; \<^verbatim>\<open>#ifdef\<close> and version tests are boolean fields.  Calls that only change
  reference counts, locks or registrations are events.  Null dereferences, write faults, division by zero
  and access to freed memory are results of the model, not undefined.  The properties are
  the theorems whose text starts with a number; one with hypotheses is followed by an instance of it.

  \<^bold>\<open>What is not modelled.\<close>  The CodeQL queries are in another language, and the build files contain
  no program logic.  Within the modelled
  programs, concurrent changes of the kernel's data during a walk, CPUs that go offline during the loop over
  them, TLB maintenance and memory ordering are left out.  The parsing of parameter values is the kernel's.

  \<^bold>\<open>Across programs.\<close>  Below: what any sequence of loads of the modules leaves behind, in particular references
  on a \<^verbatim>\<open>struct pid\<close>, and the agreement of \<^verbatim>\<open>page_table_walk\<close> and \<^verbatim>\<open>pageinfo\<close> on physical addresses.
\<close>

section \<open>References over a session\<close>

text \<open>
  Modules that are loaded, and unloaded where they stay, one after the other in any order and with any
  parameters, each with the kernel as it is at that load.
\<close>

datatype insmod =
  Insmod_page_table_walk walk_env module_args
| Insmod_task_bfs_dfs task_env module_args nat
| Insmod_task_rss_from_pid rss_env module_args
| Insmod_task_rss rss_env
| Insmod_enum_pids pids_env module_args
| Insmod_kallsyms bool int "symbol list" module_args
| Insmod_cpuinfo cpu_env
| Insmod_datetime time_env
| Insmod_read_implies_exec "string \<Rightarrow> int"

fun run_insmod :: "insmod \<Rightarrow> kevent list" where
  "run_insmod (Insmod_page_table_walk w args) = fst (insmod_page_table_walk w args)"
| "run_insmod (Insmod_task_bfs_dfs env args fuel) = fst (insmod_task_bfs_dfs env args fuel)"
| "run_insmod (Insmod_task_rss_from_pid env args) = fst (insmod_task_rss_from_pid env args)"
| "run_insmod (Insmod_task_rss env) = fst (Task_Rss.modinit env)"
| "run_insmod (Insmod_enum_pids env args) = fst (insmod_enum_pids env args)"
| "run_insmod (Insmod_kallsyms not_exported kprobe_err syms args) = fst (insmod_kallsyms not_exported kprobe_err (each_until syms) args)"
| "run_insmod (Insmod_cpuinfo env) = load_cycle Cpuinfo.modinit (\<lambda>_. Cpuinfo.modexit) env"
| "run_insmod (Insmod_datetime env) = load_cycle datetime_init (\<lambda>_. datetime_exit) env"
| "run_insmod (Insmod_read_implies_exec reg) = load_cycle Read_Implies_Exec.modinit (\<lambda>_. Read_Implies_Exec.modexit) reg"

text \<open>The loads that call \<^verbatim>\<open>find_get_pid\<close> with success and never \<^verbatim>\<open>put_pid\<close>.\<close>

fun keeps_pid :: "nat \<Rightarrow> insmod \<Rightarrow> bool" where
  "keeps_pid p (Insmod_page_table_walk w args) \<longleftrightarrow>
     \<not> walk_dump args \<and> walk_user_pid args \<notin> {0, - 1} \<and> w_find_get_pid w (walk_user_pid args) = Some p"
| "keeps_pid p (Insmod_task_bfs_dfs env args fuel) \<longleftrightarrow> t_find_get_pid env (tree_user_pid args) = Some p"
| "keeps_pid p (Insmod_task_rss_from_pid env args) \<longleftrightarrow>
     r_CONFIG_MMU env \<and> r_find_get_pid env (rss_user_pid args) = Some p"
| "keeps_pid p _ \<longleftrightarrow> False"

text \<open>The loads after which nothing at all is left: of a well-behaved module, or with all probes registered.\<close>

fun gives_back :: "insmod \<Rightarrow> bool" where
  "gives_back (Insmod_page_table_walk w args) \<longleftrightarrow> walk_dump args \<or> walk_user_pid args \<in> {0, - 1}"
| "gives_back (Insmod_task_bfs_dfs env args fuel) \<longleftrightarrow> False"
| "gives_back (Insmod_task_rss_from_pid env args) \<longleftrightarrow> \<not> r_CONFIG_MMU env"
| "gives_back (Insmod_read_implies_exec reg) \<longleftrightarrow> list_all (\<lambda>kp. 0 \<le> reg (symbol_name kp)) kps"
| "gives_back _ \<longleftrightarrow> True"

lemma gives_back_balanced: "gives_back c \<Longrightarrow> balanced kdelta (run_insmod c)"
proof (cases c)
  case (Insmod_read_implies_exec reg)
  moreover assume "gives_back c"
  ultimately show ?thesis
    by (simp add: balanced_def kprobe_module.net_cycle probes_left_def list_all_iff)
qed (auto simp: balanced_def insmod_page_table_walk_def net_page_table_walk_init insmod_task_rss_from_pid_def
    net_rss_modinit pid_leak_def insmod_enum_pids_def insmod_kallsyms_def
    task_rss_balanced [unfolded balanced_def] enum_pids_balanced [unfolded balanced_def]
    kallsyms_balanced [unfolded balanced_def] cpuinfo_module.cycle_balanced [unfolded balanced_def]
    datetime_module.cycle_balanced [unfolded balanced_def])

lemma net_run_insmod: "net kdelta (run_insmod c) (Pid_ref p) = of_bool (keeps_pid p c)"
proof (cases "gives_back c")
  case True
  then have "\<not> keeps_pid p c" by (cases c) auto
  with gives_back_balanced [OF True] show ?thesis by (simp add: balanced_def)
next
  case False
  then show ?thesis
    by (cases c)
      (auto simp: insmod_page_table_walk_def insmod_task_bfs_dfs_def insmod_task_rss_from_pid_def net_page_table_walk_init
        net_pid_modinit net_rss_modinit pid_leak_def kprobe_module.net_cycle probes_left_def pid_held_def split: option.split)
qed

text \<open>
  C19.  Over any session, on every path of every module, the references that are left on a \<^verbatim>\<open>struct pid\<close> are
  exactly one for each load of \<^verbatim>\<open>page_table_walk\<close>, \<^verbatim>\<open>task_bfs_dfs\<close> or \<^verbatim>\<open>task_rss_from_pid\<close> whose parameter names
  it; \<^verbatim>\<open>enum_pids\<close>, which puts what it gets, and the others add none.  The loads of the modules that give back
  what they take (task and address space references, RCU sections, probes, preemption) leave nothing at all.
\<close>

theorem session_pid_references:
  "net kdelta (concat (map run_insmod cs)) (Pid_ref p) = int (length (filter (keeps_pid p) cs)) \<and>
   balanced kdelta (concat (map run_insmod (filter gives_back cs)))"
proof
  show "net kdelta (concat (map run_insmod cs)) (Pid_ref p) = int (length (filter (keeps_pid p) cs))"
    by (induction cs) (simp_all add: net_run_insmod)
  show "balanced kdelta (concat (map run_insmod (filter gives_back cs)))"
    by (induction cs) (simp_all add: balanced_append gives_back_balanced)
qed

section \<open>The two ways to a physical address\<close>

lemma good_pid_fmt_u: "1 \<le> n \<Longrightarrow> n \<le> 2147483647 \<Longrightarrow> good_pid (fmt_u n)"
  by (simp add: good_pid_def strto_scan_fmt_u)

text \<open>\<^verbatim>\<open>insmod page_table_walk.ko pid=n vaddr=va\<close>\<close>

definition walk_args :: "nat \<Rightarrow> u64 \<Rightarrow> module_args" where
  "walk_args n va = no_args\<lparr>a_int := [''pid'' \<mapsto> int n], a_ulong := [''vaddr'' \<mapsto> va]\<rparr>"

lemma insmod_walk_args: "insmod_page_table_walk w (walk_args n va) = page_table_walk_init w False (int n) va"
  by (simp add: insmod_page_table_walk_def walk_args_def param_defs)

text \<open>
  C3.  The kernel module and the userspace program agree.  If the processor translates an address of a
  process, through a page of any size, and the kernel's \<^verbatim>\<open>pagemap\<close> of the process has the frame in its entry,
  then \<^verbatim>\<open>insmod page_table_walk.ko pid=n vaddr=va\<close> and \<^verbatim>\<open>pageinfo n va\<close> print the same number, the translation.
\<close>

theorem walk_and_pageinfo_agree:
  assumes "entry_helpers la57 (w_kernel w)" and "table_helpers la57 w" and "long_mode la57 w"
    and "mm_of w (int n) = Some mm"
    and "w_memory w (w_pgd_offset w mm va) = phys w (t + 8 * hw_index (if la57 then 48 else 39) va)"
    and "hw_walk la57 (phys w) t va = Inr p" and "1 \<le> n" and "n \<le> 2147483647"
    and "pf_open env (''/proc/'' @ fmt_u n @ ''/pagemap'') = None"
    and "pf_pread env (''/proc/'' @ fmt_u n @ ''/pagemap'') (int (unat va div 4096) * 8) = (8, pm, errno)"
    and "has pm PM_PRESENT" and "unat (pm AND PM_PFRAME_MASK) = p div 4096"
  shows "\<exists>es q pre rest. insmod_page_table_walk w (walk_args n va) = (es, - ECANCELED) \<and>
    printed_paddrs (logs es) = [q] \<and> unat q = p \<and>
    stdout_of (fst (Pageinfo.main env [name, fmt_u n, ''0x'' @ fmt_lx va])) = pre @ ''Paddr: 0x'' @ fmt_lx q @ '','' @ rest"
proof -
  note off = hw_walk_offset [OF assms(6)]
  obtain es where es: "insmod_page_table_walk w (walk_args n va) = (es, - ECANCELED)"
    "map unat (printed_paddrs (logs es)) = [p]"
    using x86_paging.user_prints [OF x86_paging.intro [OF assms(1-3)] _ assms(4-6)] assms(7) by (auto simp: insmod_walk_args)
  then obtain q where q: "printed_paddrs (logs es) = [q]" "unat q = p" by auto
  have "unat (paddr_of pm va) = p div 4096 * 4096 + p mod 4096"
    using unat_paddr_of [of pm va] assms(12) off by (simp add: less_mult_imp_div_less)
  with q have paddr: "paddr_of pm va = q" by (simp add: word_unat_eq_iff)
  obtain ev where "read_pagemap env (fmt_u n) va = (ev, Inr pm)"
    using read_pagemap_entry [OF _ assms(9,10)] length_fmt_u [of n 10] assms(8) by auto
  from main_prints_paddr [OF good_pid_fmt_u [OF assms(7,8)] this assms(11), of name] es(1) q show ?thesis
    unfolding paddr by (elim exE) (intro exI conjI)
qed

text \<open>A file system that shows the page that \<open>demo_memory\<close> maps for process 42.\<close>

definition demo_pagemap :: procfs where
  "demo_pagemap = demo_procfs\<lparr>pf_pread := \<lambda>path offset. (8, if offset = 0x1018 then 0x8000000000012345 else 0, 0)\<rparr>"

theorem walk_and_pageinfo_agree_witness:
  "\<exists>es q pre rest. insmod_page_table_walk (x86_env False demo_memory 0x5000) (walk_args 42 0x203456) = (es, - ECANCELED) \<and>
    printed_paddrs (logs es) = [q] \<and> unat q = 0x12345456 \<and>
    stdout_of (fst (Pageinfo.main demo_pagemap [''pageinfo'', fmt_u 42, ''0x'' @ fmt_lx 0x203456])) =
      pre @ ''Paddr: 0x'' @ fmt_lx q @ '','' @ rest"
proof -
  let ?w = "x86_env False demo_memory 0x5000"
  have "mm_of ?w (int 42) = Some 5"
    by (simp add: mm_of_def task_of_def x86_env_def)
  moreover have "w_memory ?w (w_pgd_offset ?w 5 0x203456) =
      phys ?w (0x5000 + 8 * hw_index (if False then 48 else 39) 0x203456)"
    by (simp add: hw_index_def x86_index_def phys_def x86_env_def x86_phys_to_virt_def)
  moreover have "hw_walk False (phys ?w) 0x5000 0x203456 = Inr 0x12345456"
    by (simp add: hw_walk_def hw_pml4_def hw_pdpt_def hw_pd_def hw_pt_def hw_index_def hw_frame_def hw_page_def
        phys_def x86_env_def x86_phys_to_virt_def x86_macros_def demo_memory_def)
  moreover have "has 0x8000000000012345 PM_PRESENT" "unat (0x8000000000012345 AND PM_PFRAME_MASK) = 0x12345456 div 4096"
    by (simp_all add: has_def PM_PRESENT_def PM_PFRAME_MASK_def)
  ultimately show ?thesis
    using walk_and_pageinfo_agree [OF x86.entries x86.tables x86.mode, of False demo_memory "0x5000" 42 5
        "0x203456" "0x5000" "0x12345456" demo_pagemap "0x8000000000012345" 0 "''pageinfo''"]
    by (simp add: demo_pagemap_def demo_procfs_def)
qed

end
